(* ===== verification/Prelude.thy ===== *)
theory Prelude
  imports Main "HOL-Library.Word"
begin

section \<open>Prelude: strings, exceptions, results, effects and dictionaries\<close>

text \<open>
  The vocabulary every component shares: Python strings as lists of code points, the
  exceptions the code raises or catches, the result type of a call that may raise, the type
  of an awaited call over an abstract world, and Python dictionaries as association lists
  in insertion order.
\<close>

named_theorems str_simps \<open>evaluation of string literals and string operations\<close>
named_theorems res_simps \<open>evaluation of results and error-propagating maps\<close>
named_theorems dict_simps \<open>evaluation of dictionary operations\<close>

subsection \<open>Strings and bytes\<close>

text \<open>
  A Python string is a sequence of Unicode code points, here a list of natural numbers. An
  ASCII literal is written \<open>S ''abc''\<close>.
\<close>

type_synonym str = "nat list"
type_synonym byte = "8 word"
type_synonym bytes = "byte list"

definition S :: "string \<Rightarrow> str" where
  "S s = map of_char s"

lemma S_Nil [simp]: "S [] = []"
  by (simp add: S_def)

lemma S_Cons [str_simps]: "S (c # s) = of_char c # S s"
  by (simp add: S_def)

lemma S_eq_iff [simp]: "S s = S t \<longleftrightarrow> s = t"
proof -
  have "inj (of_char :: char \<Rightarrow> nat)"
    by (rule injI) simp
  then show ?thesis
    by (simp add: S_def)
qed

lemma S_append [simp]: "S s @ S t = S (s @ t)"
  by (simp add: S_def)

lemma S_eq_Nil_iff [simp]: "S s = [] \<longleftrightarrow> s = []" "[] = S s \<longleftrightarrow> s = []"
  by (simp_all add: S_def)

lemma length_S [simp]: "length (S s) = length s"
  by (simp add: S_def)

lemma S_ascii: "c \<in> set (S s) \<Longrightarrow> c < 256"
  by (auto simp: S_def)

subsection \<open>Exceptions\<close>

text \<open>
  The exceptions of \<^verbatim>\<open>errors.py\<close>, the built-in ones the code raises or catches, and the
  ones its collaborators can raise. Each carries its message (\<^verbatim>\<open>str(exc)\<close>); the aiohttp
  and the unclassified ones also the name of their class. \<open>CancelledError\<close> is not an
  \<^verbatim>\<open>Exception\<close> in Python, so \<^verbatim>\<open>except Exception\<close> does not catch it.
\<close>

datatype exn =
    OTLPConfigError str
  | OTLPTransportError str
  | OTLPPermanentError str
  | TypeError str
  | ValueError str
  | NotImplementedError str
  | OverflowError str
  | KeyError str
  | ClientError str str
  | TimeoutError str
  | CancelledError
  | OtherException str str

fun exn_str :: "exn \<Rightarrow> str" where
  "exn_str (OTLPConfigError m) = m"
| "exn_str (OTLPTransportError m) = m"
| "exn_str (OTLPPermanentError m) = m"
| "exn_str (TypeError m) = m"
| "exn_str (ValueError m) = m"
| "exn_str (NotImplementedError m) = m"
| "exn_str (OverflowError m) = m"
| "exn_str (KeyError m) = m"
| "exn_str (ClientError _ m) = m"
| "exn_str (TimeoutError m) = m"
| "exn_str CancelledError = []"
| "exn_str (OtherException _ m) = m"

definition is_OTLPError :: "exn \<Rightarrow> bool" where
  "is_OTLPError e = (case e of OTLPConfigError _ \<Rightarrow> True | OTLPTransportError _ \<Rightarrow> True
     | OTLPPermanentError _ \<Rightarrow> True | _ \<Rightarrow> False)"

definition is_Exception :: "exn \<Rightarrow> bool" where
  "is_Exception e \<longleftrightarrow> e \<noteq> CancelledError"

text \<open>What \<^verbatim>\<open>except (aiohttp.ClientError, TimeoutError)\<close> catches.\<close>

definition is_connection_failure :: "exn \<Rightarrow> bool" where
  "is_connection_failure e = (case e of ClientError _ _ \<Rightarrow> True | TimeoutError _ \<Rightarrow> True | _ \<Rightarrow> False)"

subsection \<open>Results of calls that may raise\<close>

type_synonym 'a res = "exn + 'a"

fun bindR :: "'a res \<Rightarrow> ('a \<Rightarrow> 'b res) \<Rightarrow> 'b res" where
  "bindR (Inl e) f = Inl e"
| "bindR (Inr a) f = f a"

lemma bindR_cong [fundef_cong]:
  "m = m' \<Longrightarrow> (\<And>a. m' = Inr a \<Longrightarrow> f a = f' a) \<Longrightarrow> bindR m f = bindR m' f'"
  by (cases m') auto

lemma bindR_Inr_iff [res_simps]:
  "bindR m f = Inr b \<longleftrightarrow> (\<exists>a. m = Inr a \<and> f a = Inr b)"
  by (cases m) auto

lemma bindR_Inl_iff [res_simps]:
  "bindR m f = Inl e \<longleftrightarrow> m = Inl e \<or> (\<exists>a. m = Inr a \<and> f a = Inl e)"
  by (cases m) auto

text \<open>A list comprehension whose body may raise stops at the first exception.\<close>

fun mapR :: "('a \<Rightarrow> 'b res) \<Rightarrow> 'a list \<Rightarrow> 'b list res" where
  "mapR f [] = Inr []"
| "mapR f (x # xs) = bindR (f x) (\<lambda>y. bindR (mapR f xs) (\<lambda>ys. Inr (y # ys)))"

lemma mapR_cong [fundef_cong]:
  "xs = ys \<Longrightarrow> (\<And>x. x \<in> set ys \<Longrightarrow> f x = g x) \<Longrightarrow> mapR f xs = mapR g ys"
proof (induction xs arbitrary: ys)
  case Nil
  then show ?case by simp
next
  case (Cons x xs)
  then show ?case by (cases ys) auto
qed

lemma mapR_Inr_iff [res_simps]:
  "mapR f xs = Inr ys \<longleftrightarrow> list_all2 (\<lambda>x y. f x = Inr y) xs ys"
proof (induction xs arbitrary: ys)
  case Nil
  then show ?case by auto
next
  case (Cons x xs)
  then show ?case
    by (cases ys) (auto simp: bindR_Inr_iff)
qed

lemma mapR_total: "(\<And>x. x \<in> set xs \<Longrightarrow> f x = Inr (g x)) \<Longrightarrow> mapR f xs = Inr (map g xs)"
  by (induction xs) auto

lemma mapR_Inl_imp: "mapR f xs = Inl e \<Longrightarrow> \<exists>x \<in> set xs. f x = Inl e"
  by (induction xs) (auto simp: bindR_Inl_iff)

lemma mapR_raises: "x \<in> set xs \<Longrightarrow> f x = Inl e \<Longrightarrow> \<exists>e'. mapR f xs = Inl e'"
  by (induction xs) (auto simp: bindR_Inl_iff split: sum.splits, metis obj_sumE)

lemma mapR_length: "mapR f xs = Inr ys \<Longrightarrow> length ys = length xs"
  by (simp add: mapR_Inr_iff list_all2_lengthD)

subsection \<open>Awaited calls\<close>

text \<open>
  An awaited call acts on an abstract world \<open>'w\<close> (sockets, clocks, the state of objects it
  closes over): it returns or raises, with the world it leaves, or it never returns
  (\<open>None\<close>).
\<close>

type_synonym ('w, 'a) io = "'w \<Rightarrow> ('a res \<times> 'w) option"

definition returnE :: "'a \<Rightarrow> ('w, 'a) io" where
  "returnE a w = Some (Inr a, w)"

definition raiseE :: "exn \<Rightarrow> ('w, 'a) io" where
  "raiseE e w = Some (Inl e, w)"

definition bindE :: "('w, 'a) io \<Rightarrow> ('a \<Rightarrow> ('w, 'b) io) \<Rightarrow> ('w, 'b) io" where
  "bindE m f w = (case m w of None \<Rightarrow> None
     | Some (r, w') \<Rightarrow> (case r of Inl e \<Rightarrow> Some (Inl e, w') | Inr a \<Rightarrow> f a w'))"

definition catchE :: "('w, 'a) io \<Rightarrow> (exn \<Rightarrow> ('w, 'a) io) \<Rightarrow> ('w, 'a) io" where
  "catchE m h w = (case m w of None \<Rightarrow> None
     | Some (r, w') \<Rightarrow> (case r of Inl e \<Rightarrow> h e w' | Inr a \<Rightarrow> Some (Inr a, w')))"

definition liftR :: "'a res \<Rightarrow> ('w, 'a) io" where
  "liftR r w = Some (r, w)"

lemma returnE_apply [simp]: "returnE a w = Some (Inr a, w)"
  by (simp add: returnE_def)

lemma raiseE_apply [simp]: "raiseE e w = Some (Inl e, w)"
  by (simp add: raiseE_def)

lemma liftR_apply [simp]: "liftR r w = Some (r, w)"
  by (simp add: liftR_def)

lemma bindE_None: "m w = None \<Longrightarrow> bindE m f w = None"
  by (simp add: bindE_def)

lemma bindE_raise: "m w = Some (Inl e, w') \<Longrightarrow> bindE m f w = Some (Inl e, w')"
  by (simp add: bindE_def)

lemma bindE_return: "m w = Some (Inr a, w') \<Longrightarrow> bindE m f w = f a w'"
  by (simp add: bindE_def)

lemma bindE_Some_iff:
  "bindE m f w = Some (r, w') \<longleftrightarrow>
     (\<exists>e. m w = Some (Inl e, w') \<and> r = Inl e) \<or>
     (\<exists>a w1. m w = Some (Inr a, w1) \<and> f a w1 = Some (r, w'))"
  by (auto simp: bindE_def split: option.splits sum.splits)

lemma catchE_Some_iff:
  "catchE m h w = Some (r, w') \<longleftrightarrow>
     (\<exists>a. m w = Some (Inr a, w') \<and> r = Inr a) \<or>
     (\<exists>e w1. m w = Some (Inl e, w1) \<and> h e w1 = Some (r, w'))"
  by (auto simp: catchE_def split: option.splits sum.splits)

subsection \<open>Dictionaries\<close>

text \<open>
  A Python dictionary keeps its keys in insertion order; storing under a key that is present
  replaces the value and keeps the position. \<open>{**a, **b}\<close> is \<open>dict_union a b\<close>.
\<close>

type_synonym ('k, 'v) dict = "('k \<times> 'v) list"

abbreviation dict_get :: "('k, 'v) dict \<Rightarrow> 'k \<Rightarrow> 'v option" where
  "dict_get d k \<equiv> map_of d k"

fun dict_set :: "'k \<Rightarrow> 'v \<Rightarrow> ('k, 'v) dict \<Rightarrow> ('k, 'v) dict" where
  "dict_set k v [] = [(k, v)]"
| "dict_set k v ((k', v') # d) = (if k' = k then (k', v) # d else (k', v') # dict_set k v d)"

definition dict_union :: "('k, 'v) dict \<Rightarrow> ('k, 'v) dict \<Rightarrow> ('k, 'v) dict" where
  "dict_union a b = fold (\<lambda>(k, v) d. dict_set k v d) b a"

definition wf_dict :: "('k, 'v) dict \<Rightarrow> bool" where
  "wf_dict d \<longleftrightarrow> distinct (map fst d)"

text \<open>The interface the components rely on: what a lookup returns after a store or a merge.\<close>

locale dictionary =
  fixes empty :: "'d"
    and lookup :: "'d \<Rightarrow> 'k \<Rightarrow> 'v option"
    and store :: "'k \<Rightarrow> 'v \<Rightarrow> 'd \<Rightarrow> 'd"
    and merge :: "'d \<Rightarrow> 'd \<Rightarrow> 'd"
    and wf :: "'d \<Rightarrow> bool"
  assumes lookup_empty: "lookup empty k = None"
    and lookup_store: "lookup (store k v d) j = (if j = k then Some v else lookup d j)"
    and lookup_merge: "wf b \<Longrightarrow>
      lookup (merge a b) k = (case lookup b k of Some v \<Rightarrow> Some v | None \<Rightarrow> lookup a k)"
    and wf_empty: "wf empty"
    and wf_store: "wf d \<Longrightarrow> wf (store k v d)"
    and wf_merge: "wf a \<Longrightarrow> wf (merge a b)"
begin

lemma lookup_merge_right: "wf b \<Longrightarrow> lookup b k = Some v \<Longrightarrow> lookup (merge a b) k = Some v"
  by (simp add: lookup_merge)

lemma lookup_merge_left: "wf b \<Longrightarrow> lookup b k = None \<Longrightarrow> lookup (merge a b) k = lookup a k"
  by (simp add: lookup_merge)

lemma lookup_merge_None: "wf b \<Longrightarrow>
    lookup (merge a b) k = None \<longleftrightarrow> lookup a k = None \<and> lookup b k = None"
  by (auto simp: lookup_merge split: option.splits)

end

lemma map_of_dict_set [dict_simps]:
  "map_of (dict_set k v d) j = (if j = k then Some v else map_of d j)"
  by (induction d) auto

lemma keys_dict_set: "fst ` set (dict_set k v d) = insert k (fst ` set d)"
proof (induction d)
  case Nil
  then show ?case by simp
next
  case (Cons p d)
  then show ?case by (cases p) (simp add: insert_commute)
qed

lemma wf_dict_Nil [simp]: "wf_dict []"
  by (simp add: wf_dict_def)

lemma wf_dict_set: "wf_dict d \<Longrightarrow> wf_dict (dict_set k v d)"
proof (induction d)
  case Nil
  then show ?case by (simp add: wf_dict_def)
next
  case (Cons p d)
  then show ?case
    using keys_dict_set [of k v d] by (cases p) (auto simp: wf_dict_def)
qed

lemma dict_union_Nil [simp]: "dict_union a [] = a"
  by (simp add: dict_union_def)

lemma dict_union_Cons: "dict_union a ((k, v) # b) = dict_union (dict_set k v a) b"
  by (simp add: dict_union_def)

lemma map_of_dict_union:
  "wf_dict b \<Longrightarrow>
    map_of (dict_union a b) k = (case map_of b k of Some v \<Rightarrow> Some v | None \<Rightarrow> map_of a k)"
proof (induction b arbitrary: a)
  case Nil
  then show ?case by simp
next
  case (Cons p b)
  obtain j v where p: "p = (j, v)" by (cases p)
  from Cons.prems p have wf: "wf_dict b" and new: "map_of b j = None"
    by (auto simp: wf_dict_def map_of_eq_None_iff)
  show ?case
    using Cons.IH [OF wf, of "dict_set j v a"] new p
    by (auto simp: dict_union_Cons map_of_dict_set split: option.splits)
qed

lemma wf_dict_union: "wf_dict a \<Longrightarrow> wf_dict (dict_union a b)"
  by (induction b arbitrary: a) (auto simp: dict_union_Cons wf_dict_set)

lemma map_of_dict_union_None:
  "map_of a k = None \<Longrightarrow> k \<notin> fst ` set b \<Longrightarrow> map_of (dict_union a b) k = None"
  by (induction b arbitrary: a) (auto simp: dict_union_Cons map_of_dict_set)

interpretation py_dict: dictionary "[]" map_of dict_set dict_union wf_dict
  by unfold_locales
    (simp_all add: map_of_dict_set map_of_dict_union wf_dict_set wf_dict_union)

lemma dict_union_fresh:
  "wf_dict b \<Longrightarrow> fst ` set a \<inter> fst ` set b = {} \<Longrightarrow> dict_union a b = a @ b"
proof (induction b arbitrary: a)
  case Nil
  then show ?case by simp
next
  case (Cons p b)
  obtain j v where p: "p = (j, v)" by (cases p)
  have *: "j \<notin> fst ` set a \<Longrightarrow> dict_set j v a = a @ [(j, v)]" for a
    by (induction a) auto
  have "dict_union (a @ [(j, v)]) b = (a @ [(j, v)]) @ b"
    using Cons.prems p by (intro Cons.IH) (auto simp: wf_dict_def)
  then show ?case
    using * [of a] Cons.prems p by (simp add: dict_union_Cons)
qed

end
