(* ===== verification/PyFloat.thy ===== *)
theory PyFloat
  imports Prelude Complex_Main
begin

section \<open>Python floats\<close>

text \<open>
  The values of a Python \<^verbatim>\<open>float\<close>: NaN, the two infinities, negative zero, and the finite
  values (with \<open>Fin 0\<close> for positive zero) as exact rationals. Every IEEE-754 double is such
  a value, comparisons are exact, and arithmetic is exact up to overflow: a result whose
  magnitude rounds past the largest double becomes an infinity, or an \<open>OverflowError\<close> for
  the power operator, as in Python. Rounding of finite results and underflow are not modelled.
\<close>

datatype pyfloat = Nan | PInf | NInf | NegZero | Fin rat

definition overflow_bound :: rat where
  "overflow_bound = 2 ^ 1024 - 2 ^ 970"

definition f_fin :: "bool \<Rightarrow> rat \<Rightarrow> pyfloat" where
  "f_fin neg q =
     (if q = 0 then (if neg then NegZero else Fin 0)
      else if q \<ge> overflow_bound then PInf
      else if q \<le> - overflow_bound then NInf
      else Fin q)"

fun f_val :: "pyfloat \<Rightarrow> rat" where
  "f_val (Fin q) = q"
| "f_val _ = 0"

fun f_finite :: "pyfloat \<Rightarrow> bool" where
  "f_finite Nan = False"
| "f_finite PInf = False"
| "f_finite NInf = False"
| "f_finite _ = True"

text \<open>The sign bit, as \<^verbatim>\<open>math.copysign(1.0, x) < 0\<close> reads it.\<close>

fun f_negative :: "pyfloat \<Rightarrow> bool" where
  "f_negative (Fin q) = (q < 0)"
| "f_negative NegZero = True"
| "f_negative NInf = True"
| "f_negative _ = False"

definition f_truthy :: "pyfloat \<Rightarrow> bool" where
  "f_truthy x \<longleftrightarrow> x \<noteq> Fin 0 \<and> x \<noteq> NegZero"

subsection \<open>Comparison\<close>

definition f_less :: "pyfloat \<Rightarrow> pyfloat \<Rightarrow> bool" where
  "f_less x y =
     (if x = Nan \<or> y = Nan then False
      else if x = PInf \<or> y = NInf then False
      else if x = NInf \<or> y = PInf then True
      else f_val x < f_val y)"

definition f_le :: "pyfloat \<Rightarrow> pyfloat \<Rightarrow> bool" where
  "f_le x y =
     (if x = Nan \<or> y = Nan then False
      else if x = NInf \<or> y = PInf then True
      else if x = PInf \<or> y = NInf then False
      else f_val x \<le> f_val y)"

text \<open>Python's two-argument \<^verbatim>\<open>max\<close> and \<^verbatim>\<open>min\<close>: the first unless the second is strictly better.\<close>

definition py_max :: "pyfloat \<Rightarrow> pyfloat \<Rightarrow> pyfloat" where
  "py_max a b = (if f_less a b then b else a)"

definition py_min :: "pyfloat \<Rightarrow> pyfloat \<Rightarrow> pyfloat" where
  "py_min a b = (if f_less b a then b else a)"

lemma f_le_refl: "x \<noteq> Nan \<Longrightarrow> f_le x x"
  by (cases x) (auto simp: f_le_def)

lemma f_le_trans: "f_le x y \<Longrightarrow> f_le y z \<Longrightarrow> f_le x z"
  by (auto simp: f_le_def split: if_splits)

lemma f_less_imp_le: "f_less x y \<Longrightarrow> f_le x y"
  by (auto simp: f_le_def f_less_def split: if_splits)

lemma not_f_less: "x \<noteq> Nan \<Longrightarrow> y \<noteq> Nan \<Longrightarrow> \<not> f_less x y \<longleftrightarrow> f_le y x"
  by (auto simp: f_le_def f_less_def)

lemma f_le_Nan [simp]: "\<not> f_le Nan x" "\<not> f_le x Nan"
  by (simp_all add: f_le_def)

lemma f_less_Nan [simp]: "\<not> f_less Nan x" "\<not> f_less x Nan"
  by (simp_all add: f_less_def)

lemma f_le_Fin [simp]: "f_le (Fin p) (Fin q) \<longleftrightarrow> p \<le> q"
  by (simp add: f_le_def)

lemma f_less_Fin [simp]: "f_less (Fin p) (Fin q) \<longleftrightarrow> p < q"
  by (simp add: f_less_def)

lemma f_less_PInf [simp]: "\<not> f_less PInf x"
  by (simp add: f_less_def)

lemma f_le_NegZero [simp]: "f_le NegZero (Fin q) \<longleftrightarrow> 0 \<le> q" "f_le (Fin q) NegZero \<longleftrightarrow> q \<le> 0"
  by (simp_all add: f_le_def)

lemma f_less_NegZero [simp]: "f_less NegZero (Fin q) \<longleftrightarrow> 0 < q" "f_less (Fin q) NegZero \<longleftrightarrow> q < 0"
  by (simp_all add: f_less_def)

text \<open>Clamping at zero, as the code writes it (\<^verbatim>\<open>max(0.0, x)\<close>), also removes NaN and negative zero.\<close>

lemma max_zero_nonneg: "f_le (Fin 0) (py_max (Fin 0) x)"
  by (auto simp: py_max_def f_le_def f_less_def)

lemma max_zero_not_negative: "\<not> f_negative (py_max (Fin 0) x)"
  by (cases x) (auto simp: py_max_def f_less_def)

lemma py_min_le_left: "a \<noteq> Nan \<Longrightarrow> f_le (py_min a b) a"
  by (auto simp: py_min_def f_le_refl f_less_imp_le)

subsection \<open>Arithmetic\<close>

fun f_neg :: "pyfloat \<Rightarrow> pyfloat" where
  "f_neg Nan = Nan"
| "f_neg PInf = NInf"
| "f_neg NInf = PInf"
| "f_neg NegZero = Fin 0"
| "f_neg (Fin q) = (if q = 0 then NegZero else Fin (- q))"

definition f_add :: "pyfloat \<Rightarrow> pyfloat \<Rightarrow> pyfloat" where
  "f_add x y =
     (if x = Nan \<or> y = Nan then Nan
      else if x = PInf then (if y = NInf then Nan else PInf)
      else if x = NInf then (if y = PInf then Nan else NInf)
      else if y = PInf \<or> y = NInf then y
      else if x = NegZero \<and> y = NegZero then NegZero
      else f_fin False (f_val x + f_val y))"

definition f_sub :: "pyfloat \<Rightarrow> pyfloat \<Rightarrow> pyfloat" where
  "f_sub x y = f_add x (f_neg y)"

definition f_mul :: "pyfloat \<Rightarrow> pyfloat \<Rightarrow> pyfloat" where
  "f_mul x y =
     (if x = Nan \<or> y = Nan then Nan
      else if f_finite x \<and> f_finite y
        then f_fin (f_negative x \<noteq> f_negative y) (f_val x * f_val y)
      else if \<not> f_truthy x \<or> \<not> f_truthy y then Nan
      else if f_negative x \<noteq> f_negative y then NInf else PInf)"

text \<open>Division by a positive constant.\<close>

definition f_div_pos :: "pyfloat \<Rightarrow> rat \<Rightarrow> pyfloat" where
  "f_div_pos x d = (if f_finite x then f_fin (f_negative x) (f_val x / d) else x)"

text \<open>\<^verbatim>\<open>x ** n\<close> for a non-negative integer exponent: overflow of a finite base raises.\<close>

definition py_pow :: "pyfloat \<Rightarrow> nat \<Rightarrow> pyfloat res" where
  "py_pow x n =
     (if n = 0 then Inr (Fin 1)
      else case x of
        Nan \<Rightarrow> Inr Nan
      | PInf \<Rightarrow> Inr PInf
      | NInf \<Rightarrow> Inr (if even n then PInf else NInf)
      | NegZero \<Rightarrow> Inr (if even n then Fin 0 else NegZero)
      | Fin q \<Rightarrow>
          (if \<bar>q ^ n\<bar> \<ge> overflow_bound
           then Inl (OverflowError (S ''(34, 'Numerical result out of range')''))
           else Inr (Fin (q ^ n))))"

text \<open>\<^verbatim>\<open>int(x)\<close> truncates, and refuses NaN and the infinities with different exceptions.\<close>

definition py_int_of_float :: "pyfloat \<Rightarrow> int res" where
  "py_int_of_float x =
     (case x of
        Nan \<Rightarrow> Inl (ValueError (S ''cannot convert float NaN to integer''))
      | PInf \<Rightarrow> Inl (OverflowError (S ''cannot convert float infinity to integer''))
      | NInf \<Rightarrow> Inl (OverflowError (S ''cannot convert float infinity to integer''))
      | NegZero \<Rightarrow> Inr 0
      | Fin q \<Rightarrow> Inr (if q < 0 then - \<lfloor>- q\<rfloor> else \<lfloor>q\<rfloor>))"

lemma power_gap: "0 < n \<Longrightarrow> 0 < m \<Longrightarrow> (1::rat) < 2 ^ (m + n) - 2 ^ m"
proof -
  assume pos: "0 < n" "0 < m"
  then have n: "(2::rat) \<le> 2 ^ n" and m: "(2::rat) \<le> 2 ^ m"
    by (metis One_nat_def Suc_leI one_le_numeral power_increasing power_one_right)+
  have "(2::rat) * 1 \<le> 2 ^ m * (2 ^ n - 1)"
    by (rule mult_mono) (use n m in auto)
  then show ?thesis
    by (simp add: power_add right_diff_distrib)
qed

lemma overflow_bound_gt_1: "1 < overflow_bound"
proof -
  have "(970::nat) + 54 = 1024"
    by simp
  then show ?thesis
    using power_gap [of 54 970] unfolding overflow_bound_def by (simp only: zero_less_numeral simp_thms)
qed

text \<open>Small numbers are far below the bound.\<close>

lemma less_overflow_bound: "q \<le> 2 ^ 54 - 1 \<Longrightarrow> q < overflow_bound"
proof -
  have "(2::rat) ^ 1024 = 2 ^ 970 * 2 ^ 54"
    by (simp only: power_add [symmetric]) simp
  then have "overflow_bound = 2 ^ 970 * (2 ^ 54 - 1)"
    by (simp only: overflow_bound_def right_diff_distrib mult_1_right)
  moreover have "1 < (2::rat) ^ 970"
    by (rule one_less_power) simp_all
  then have "1 * (2 ^ 54 - 1) < (2::rat) ^ 970 * (2 ^ 54 - 1)"
    by (rule mult_strict_right_mono) simp
  ultimately show "q \<le> 2 ^ 54 - 1 \<Longrightarrow> q < overflow_bound"
    by simp
qed

lemma f_sub_Fin: "\<bar>p - q\<bar> < overflow_bound \<Longrightarrow> f_sub (Fin p) (Fin q) = Fin (p - q)"
  by (auto simp: f_sub_def f_add_def f_fin_def abs_less_iff)

lemma f_add_Fin: "\<bar>p + q\<bar> < overflow_bound \<Longrightarrow> f_add (Fin p) (Fin q) = Fin (p + q)"
  by (auto simp: f_add_def f_fin_def abs_less_iff)

lemma f_mul_Fin: "0 \<le> p \<Longrightarrow> 0 \<le> q \<Longrightarrow> p * q < overflow_bound \<Longrightarrow> f_mul (Fin p) (Fin q) = Fin (p * q)"
proof -
  assume *: "0 \<le> p" "0 \<le> q" "p * q < overflow_bound"
  then have "0 \<le> p * q"
    by simp
  moreover from this have "\<not> p * q \<le> - overflow_bound"
    using overflow_bound_gt_1 by linarith
  ultimately show ?thesis
    using * by (simp add: f_mul_def f_fin_def)
qed

end
