(* ===== verification/PyText.thy ===== *)
theory PyText
  imports PyFloat
begin

section \<open>Text: decimal numerals, hex, base64, UTF-8, percent-encoding, parsing\<close>

text \<open>
  What the source uses of Python's string, \<^verbatim>\<open>bytes\<close>, \<^verbatim>\<open>base64\<close> and \<^verbatim>\<open>urllib.parse\<close>
  operations, each with the inverse a receiver applies and the round trip between the two.
\<close>

named_theorems text_defs \<open>definitions a closed text evaluation unfolds\<close>

subsection \<open>Decimal numerals\<close>

text \<open>\<^verbatim>\<open>str(n)\<close> for an integer.\<close>

fun dec_nat :: "nat \<Rightarrow> str" where
  "dec_nat n = (if n < 10 then [48 + n] else dec_nat (n div 10) @ [48 + n mod 10])"

declare dec_nat.simps [simp del]

definition dec_int :: "int \<Rightarrow> str" where
  "dec_int i = (if i < 0 then 45 # dec_nat (nat (- i)) else dec_nat (nat i))"

definition is_digit :: "nat \<Rightarrow> bool" where
  "is_digit c \<longleftrightarrow> 48 \<le> c \<and> c \<le> 57"

definition dec_val :: "str \<Rightarrow> nat" where
  "dec_val s = foldl (\<lambda>a c. 10 * a + (c - 48)) 0 s"

text \<open>The reading of a canonical decimal numeral, as a receiver of the wire format does it.\<close>

definition parse_dec :: "str \<Rightarrow> int option" where
  "parse_dec s =
     (let (neg, ds) = (case s of c # cs \<Rightarrow> if c = 45 then (True, cs) else (False, s) | [] \<Rightarrow> (False, s))
      in if ds \<noteq> [] \<and> list_all is_digit ds
         then Some (if neg then - int (dec_val ds) else int (dec_val ds)) else None)"

lemma dec_nat_digits: "list_all is_digit (dec_nat n)"
proof (induction n rule: dec_nat.induct)
  case (1 n)
  have "is_digit (48 + n mod 10)" "n < 10 \<Longrightarrow> is_digit (48 + n)"
    by (simp_all add: is_digit_def)
  then show ?case
    using 1 by (subst dec_nat.simps) simp
qed

lemma dec_nat_not_Nil: "dec_nat n \<noteq> []"
  by (subst dec_nat.simps) simp

lemma dec_val_snoc: "dec_val (s @ [c]) = 10 * dec_val s + (c - 48)"
  by (simp add: dec_val_def)

lemma dec_val_dec_nat: "dec_val (dec_nat n) = n"
proof (induction n rule: dec_nat.induct)
  case (1 n)
  show ?case
  proof (cases "n < 10")
    case True
    then show ?thesis by (subst dec_nat.simps) (simp add: dec_val_def)
  next
    case False
    then show ?thesis
      using 1 by (subst dec_nat.simps) (simp add: dec_val_snoc)
  qed
qed

lemma hd_dec_nat: "hd (dec_nat n) \<noteq> 45"
proof -
  have "is_digit (hd (dec_nat n))"
    using dec_nat_digits [of n] dec_nat_not_Nil [of n] by (cases "dec_nat n") auto
  then show ?thesis by (auto simp: is_digit_def)
qed

lemma parse_dec_dec_int: "parse_dec (dec_int i) = Some i"
proof (cases "i < 0")
  case True
  then show ?thesis
    using dec_nat_digits [of "nat (- i)"] dec_nat_not_Nil [of "nat (- i)"]
    by (simp add: parse_dec_def dec_int_def dec_val_dec_nat)
next
  case False
  obtain c cs where c: "dec_nat (nat i) = c # cs"
    using dec_nat_not_Nil [of "nat i"] by (cases "dec_nat (nat i)") auto
  with hd_dec_nat [of "nat i"] have "c \<noteq> 45" by simp
  then have "parse_dec (dec_nat (nat i)) = Some (int (dec_val (dec_nat (nat i))))"
    using c dec_nat_digits [of "nat i"] by (simp add: parse_dec_def)
  with False show ?thesis
    by (simp add: dec_int_def dec_val_dec_nat)
qed

lemma dec_int_inject: "dec_int i = dec_int j \<longleftrightarrow> i = j"
  by (metis option.inject parse_dec_dec_int)

lemma dec_int_not_Nil [simp]: "dec_int i \<noteq> []"
  by (simp add: dec_int_def dec_nat_not_Nil)

subsection \<open>Hexadecimal\<close>

text \<open>\<^verbatim>\<open>bytes.hex()\<close>: two lower-case digits per byte.\<close>

definition hex_digit :: "nat \<Rightarrow> nat" where
  "hex_digit d = (if d < 10 then 48 + d else 87 + d)"

fun hex_of_bytes :: "bytes \<Rightarrow> str" where
  "hex_of_bytes [] = []"
| "hex_of_bytes (b # bs) = hex_digit (unat b div 16) # hex_digit (unat b mod 16) # hex_of_bytes bs"

definition hex_val :: "nat \<Rightarrow> nat option" where
  "hex_val c =
     (if 48 \<le> c \<and> c \<le> 57 then Some (c - 48)
      else if 97 \<le> c \<and> c \<le> 102 then Some (c - 87)
      else if 65 \<le> c \<and> c \<le> 70 then Some (c - 55)
      else None)"

text \<open>\<^verbatim>\<open>bytes.fromhex\<close> on a text without spaces.\<close>

fun bytes_of_hex :: "str \<Rightarrow> bytes option" where
  "bytes_of_hex [] = Some []"
| "bytes_of_hex [_] = None"
| "bytes_of_hex (a # b # s) =
     (case (hex_val a, hex_val b, bytes_of_hex s) of
        (Some x, Some y, Some bs) \<Rightarrow> Some (of_nat (16 * x + y) # bs)
      | _ \<Rightarrow> None)"

lemma hex_val_hex_digit: "d < 16 \<Longrightarrow> hex_val (hex_digit d) = Some d"
  by (auto simp: hex_val_def hex_digit_def)

lemma unat_byte_less: "unat (b :: byte) < 256"
  using unsigned_less [of b] by simp

lemma bytes_of_hex_of_bytes: "bytes_of_hex (hex_of_bytes bs) = Some bs"
proof (induction bs)
  case Nil
  then show ?case by simp
next
  case (Cons b bs)
  have "unat b div 16 < 16" and "unat b mod 16 < 16"
    using unat_byte_less [of b] by (simp_all add: less_mult_imp_div_less)
  then show ?case
    using Cons by (simp add: hex_val_hex_digit)
qed

lemma length_hex_of_bytes: "length (hex_of_bytes bs) = 2 * length bs"
  by (induction bs) auto

lemma hex_of_bytes_eq_Nil [simp]: "hex_of_bytes bs = [] \<longleftrightarrow> bs = []"
  by (cases bs) auto

subsection \<open>Base64\<close>

text \<open>\<^verbatim>\<open>base64.b64encode\<close>: the standard alphabet with padding.\<close>

definition b64_char :: "nat \<Rightarrow> nat" where
  "b64_char d =
     (if d < 26 then 65 + d else if d < 52 then 71 + d else if d < 62 then d - 4
      else if d = 62 then 43 else 47)"

definition b64_val :: "nat \<Rightarrow> nat option" where
  "b64_val c =
     (if 65 \<le> c \<and> c \<le> 90 then Some (c - 65)
      else if 97 \<le> c \<and> c \<le> 122 then Some (c - 71)
      else if 48 \<le> c \<and> c \<le> 57 then Some (c + 4)
      else if c = 43 then Some 62 else if c = 47 then Some 63 else None)"

fun b64_nats :: "nat list \<Rightarrow> str" where
  "b64_nats [] = []"
| "b64_nats [a] = [b64_char (a div 4), b64_char (a mod 4 * 16), 61, 61]"
| "b64_nats [a, b] =
     [b64_char (a div 4), b64_char (a mod 4 * 16 + b div 16), b64_char (b mod 16 * 4), 61]"
| "b64_nats (a # b # c # s) =
     b64_char (a div 4) # b64_char (a mod 4 * 16 + b div 16)
     # b64_char (b mod 16 * 4 + c div 64) # b64_char (c mod 64) # b64_nats s"

definition b64encode :: "bytes \<Rightarrow> str" where
  "b64encode bs = b64_nats (map unat bs)"

text \<open>A strict decoder, for the round trip.\<close>

fun b64_unnats :: "str \<Rightarrow> nat list option" where
  "b64_unnats [] = Some []"
| "b64_unnats (p # q # r # t # s) =
     (case (b64_val p, b64_val q) of
        (Some x, Some y) \<Rightarrow>
          (if r = 61 then (if t = 61 \<and> s = [] then Some [4 * x + y div 16] else None)
           else (case b64_val r of
             None \<Rightarrow> None
           | Some z \<Rightarrow>
              (if t = 61 then
                 (if s = [] then Some [4 * x + y div 16, y mod 16 * 16 + z div 4] else None)
               else (case (b64_val t, b64_unnats s) of
                 (Some u, Some rest) \<Rightarrow>
                    Some ((4 * x + y div 16) # (y mod 16 * 16 + z div 4) # (z mod 4 * 64 + u) # rest)
               | _ \<Rightarrow> None))))
      | _ \<Rightarrow> None)"
| "b64_unnats _ = None"

definition b64decode :: "str \<Rightarrow> bytes option" where
  "b64decode s = map_option (map of_nat) (b64_unnats s)"

lemma b64_val_char: "d < 64 \<Longrightarrow> b64_val (b64_char d) = Some d"
  by (auto simp: b64_val_def b64_char_def)

lemma b64_char_not_pad: "d < 64 \<Longrightarrow> b64_char d \<noteq> 61"
  by (auto simp: b64_char_def)

lemma b64_unnats_nats: "list_all (\<lambda>n. n < 256) ns \<Longrightarrow> b64_unnats (b64_nats ns) = Some ns"
proof (induction ns rule: b64_nats.induct)
  case 1
  then show ?case by simp
next
  case (2 a)
  then have "a div 4 < 64" "a mod 4 * 16 < 64" by auto
  then show ?case by (simp add: b64_val_char)
next
  case (3 a b)
  then have "a div 4 < 64" "a mod 4 * 16 + b div 16 < 64" "b mod 16 * 4 < 64" "b div 16 < 16" by auto
  then show ?case by (simp add: b64_val_char b64_char_not_pad)
next
  case (4 a b c s)
  then have "a div 4 < 64" "a mod 4 * 16 + b div 16 < 64" "b mod 16 * 4 + c div 64 < 64"
    "c mod 64 < 64" "b div 16 < 16" "c div 64 < 4" by auto
  with 4 show ?case by (simp add: b64_val_char b64_char_not_pad)
qed

lemma b64decode_encode: "b64decode (b64encode bs) = Some bs"
proof -
  have "list_all (\<lambda>n. n < 256) (map unat bs)"
    by (simp add: list_all_iff unat_byte_less)
  then show ?thesis
    by (simp add: b64decode_def b64encode_def b64_unnats_nats comp_def map_idI)
qed

end
