(* ===== verification/Utf8.thy ===== *)
theory Utf8
  imports PyText
begin

section \<open>UTF-8 and percent-encoding\<close>

text \<open>
  \<^verbatim>\<open>str.encode()\<close> (strict), \<^verbatim>\<open>bytes.decode("utf-8", "replace")\<close> with one U+FFFD per maximal
  invalid prefix, and \<^verbatim>\<open>quote_plus\<close>, \<^verbatim>\<open>unquote\<close> and \<^verbatim>\<open>unquote_plus\<close> of \<^verbatim>\<open>urllib.parse\<close>, with
  the round trips. Byte values are natural numbers below 256 here.
\<close>

subsection \<open>UTF-8\<close>

definition is_scalar :: "nat \<Rightarrow> bool" where
  "is_scalar c \<longleftrightarrow> c < 55296 \<or> 57344 \<le> c \<and> c \<le> 1114111"

definition utf8_char :: "nat \<Rightarrow> nat list" where
  "utf8_char c =
     (if c < 128 then [c]
      else if c < 2048 then [192 + c div 64, 128 + c mod 64]
      else if c < 65536 then [224 + c div 4096, 128 + c div 64 mod 64, 128 + c mod 64]
      else [240 + c div 262144, 128 + c div 4096 mod 64, 128 + c div 64 mod 64, 128 + c mod 64])"

definition utf8_nats :: "str \<Rightarrow> nat list" where
  "utf8_nats s = concat (map utf8_char s)"

text \<open>A lone surrogate raises \<^verbatim>\<open>UnicodeEncodeError\<close>, a \<^verbatim>\<open>ValueError\<close> (its message is abridged).\<close>

definition utf8_encode :: "str \<Rightarrow> bytes res" where
  "utf8_encode s =
     (if list_all is_scalar s then Inr (map of_nat (utf8_nats s))
      else Inl (ValueError (S ''surrogates not allowed'')))"

definition utf8_cont :: "nat \<Rightarrow> bool" where
  "utf8_cont b \<longleftrightarrow> 128 \<le> b \<and> b < 192"

definition utf8_second :: "nat \<Rightarrow> nat \<Rightarrow> bool" where
  "utf8_second a b =
     (if a = 224 then 160 \<le> b \<and> b < 192
      else if a = 237 then 128 \<le> b \<and> b < 160
      else if a = 240 then 144 \<le> b \<and> b < 192
      else if a = 244 then 128 \<le> b \<and> b < 144
      else utf8_cont b)"

fun utf8_decode :: "nat list \<Rightarrow> str" where
  "utf8_decode [] = []"
| "utf8_decode (a # xs) =
     (if a < 128 then a # utf8_decode xs
      else if 194 \<le> a \<and> a < 224 then
        (case xs of
           [] \<Rightarrow> [65533]
         | b # ys \<Rightarrow>
            if utf8_cont b then ((a - 192) * 64 + (b - 128)) # utf8_decode ys
            else 65533 # utf8_decode xs)
      else if 224 \<le> a \<and> a < 240 then
        (case xs of
           [] \<Rightarrow> [65533]
         | b # ys \<Rightarrow>
            if \<not> utf8_second a b then 65533 # utf8_decode xs
            else (case ys of
               [] \<Rightarrow> [65533]
             | c # zs \<Rightarrow>
                if utf8_cont c
                then ((a - 224) * 4096 + (b - 128) * 64 + (c - 128)) # utf8_decode zs
                else 65533 # utf8_decode ys))
      else if 240 \<le> a \<and> a < 245 then
        (case xs of
           [] \<Rightarrow> [65533]
         | b # ys \<Rightarrow>
            if \<not> utf8_second a b then 65533 # utf8_decode xs
            else (case ys of
               [] \<Rightarrow> [65533]
             | c # zs \<Rightarrow>
                if \<not> utf8_cont c then 65533 # utf8_decode ys
                else (case zs of
                   [] \<Rightarrow> [65533]
                 | d # rest \<Rightarrow>
                    if utf8_cont d
                    then ((a - 240) * 262144 + (b - 128) * 4096 + (c - 128) * 64 + (d - 128))
                         # utf8_decode rest
                    else 65533 # utf8_decode zs)))
      else 65533 # utf8_decode xs)"

text \<open>A code point is the sum of its six-bit groups.\<close>

lemma div_4096: "c div 4096 = c div 64 div (64::nat)"
  by (simp add: div_mult2_eq [symmetric])

lemma div_262144: "c div 262144 = c div 64 div 64 div (64::nat)"
  by (simp add: div_mult2_eq [symmetric])

lemma utf8_join2: "c div 64 * 64 + c mod 64 = (c::nat)"
  by simp

lemma utf8_join3: "c div 4096 * 4096 + c div 64 mod 64 * 64 + c mod 64 = (c::nat)"
proof -
  have "c div 64 div 64 * 64 + c div 64 mod 64 = c div 64"
    by simp
  then have "c div 4096 * 64 + c div 64 mod 64 = c div 64"
    by (simp only: div_4096)
  then show ?thesis
    using utf8_join2 [of c] by linarith
qed

lemma utf8_join4:
  "c div 262144 * 262144 + c div 4096 mod 64 * 4096 + c div 64 mod 64 * 64 + c mod 64 = (c::nat)"
proof -
  have "c div 64 div 64 div 64 * 64 + c div 64 div 64 mod 64 = c div 64 div 64"
    by simp
  then have "c div 262144 * 64 + c div 4096 mod 64 = c div 4096"
    by (simp only: div_4096 div_262144)
  then show ?thesis
    using utf8_join3 [of c] by linarith
qed

lemma utf8_decode_char: "is_scalar c \<Longrightarrow> utf8_decode (utf8_char c @ rest) = c # utf8_decode rest"
proof -
  assume c: "is_scalar c"
  have m: "c mod 64 < 64" "c div 64 mod 64 < 64" "c div 4096 mod 64 < 64"
    by simp_all
  consider "c < 128" | "128 \<le> c" "c < 2048" | "2048 \<le> c" "c < 65536" | "65536 \<le> c"
    by linarith
  then show ?thesis
  proof cases
    case 1
    then show ?thesis by (simp add: utf8_char_def)
  next
    case 2
    then have "2 \<le> c div 64" "c div 64 < 32" by auto
    moreover have "utf8_char c = [192 + c div 64, 128 + c mod 64]"
      using 2 by (simp add: utf8_char_def)
    ultimately show ?thesis
      using m utf8_join2 [of c] by (simp add: utf8_cont_def)
  next
    case 3
    have hi: "c div 4096 < 16" using 3 by auto
    have lo: "c div 4096 = 0 \<Longrightarrow> 32 \<le> c div 64 mod 64"
      using 3 by (simp add: div_4096)
    have sur: "c div 4096 = 13 \<Longrightarrow> c div 64 mod 64 < 32"
      using c utf8_join3 [of c] m by (auto simp: is_scalar_def)
    have "utf8_second (224 + c div 4096) (128 + c div 64 mod 64)"
      using lo sur m hi by (auto simp: utf8_second_def utf8_cont_def)
    moreover have "utf8_char c = [224 + c div 4096, 128 + c div 64 mod 64, 128 + c mod 64]"
      using 3 by (simp add: utf8_char_def)
    ultimately show ?thesis
      using m hi utf8_join3 [of c] by (simp add: utf8_cont_def)
  next
    case 4
    from c 4 have le: "c \<le> 1114111" by (simp add: is_scalar_def)
    have hi: "c div 262144 < 5" using le by auto
    have lo: "c div 262144 = 0 \<Longrightarrow> 16 \<le> c div 4096 mod 64"
      using 4 utf8_join4 [of c] m by simp
    have top: "c div 262144 = 4 \<Longrightarrow> c div 4096 mod 64 < 16"
      using le utf8_join4 [of c] by simp
    have "utf8_second (240 + c div 262144) (128 + c div 4096 mod 64)"
      using lo top m hi by (auto simp: utf8_second_def utf8_cont_def)
    moreover have "utf8_char c = [240 + c div 262144, 128 + c div 4096 mod 64,
        128 + c div 64 mod 64, 128 + c mod 64]"
      using 4 by (simp add: utf8_char_def)
    ultimately show ?thesis
      using m hi utf8_join4 [of c] by (simp add: utf8_cont_def)
  qed
qed

lemma utf8_decode_nats: "list_all is_scalar s \<Longrightarrow> utf8_decode (utf8_nats s) = s"
  by (induction s) (simp_all add: utf8_nats_def utf8_decode_char)

lemma utf8_char_less: "is_scalar c \<Longrightarrow> b \<in> set (utf8_char c) \<Longrightarrow> b < 256"
  by (auto simp: utf8_char_def is_scalar_def split: if_splits)

lemma utf8_nats_less: "list_all is_scalar s \<Longrightarrow> b \<in> set (utf8_nats s) \<Longrightarrow> b < 256"
  by (auto simp: utf8_nats_def list_all_iff dest: utf8_char_less)

lemma map_unat_of_nat: "(\<And>b. b \<in> set ns \<Longrightarrow> b < 256) \<Longrightarrow> map (unat \<circ> (of_nat :: nat \<Rightarrow> byte)) ns = ns"
  by (induction ns) (simp_all add: unat_of_nat)

text \<open>What a receiver reads back from the bytes of an encoded string.\<close>

lemma utf8_roundtrip:
  "utf8_encode s = Inr bs \<Longrightarrow> utf8_decode (map unat bs) = s"
  by (auto simp: utf8_encode_def map_unat_of_nat utf8_nats_less utf8_decode_nats split: if_splits)

subsection \<open>Percent-encoding\<close>

text \<open>
  \<^verbatim>\<open>unquote\<close> decodes each maximal ASCII run on its own: a percent sign with two hex digits
  is a byte, any other stays, and the bytes of the run are decoded as UTF-8 with replacement.
\<close>

fun unquote_bytes :: "str \<Rightarrow> nat list" where
  "unquote_bytes [] = []"
| "unquote_bytes (c # s) =
     (if c = 37 then
        (case s of
           a # b # r \<Rightarrow>
             (case (hex_val a, hex_val b) of
                (Some x, Some y) \<Rightarrow> (16 * x + y) # unquote_bytes r
              | _ \<Rightarrow> c # unquote_bytes s)
         | _ \<Rightarrow> c # unquote_bytes s)
      else c # unquote_bytes s)"

definition is_ascii :: "nat \<Rightarrow> bool" where
  "is_ascii c \<longleftrightarrow> c < 128"

function unquote :: "str \<Rightarrow> str" where
  "unquote s =
     (case s of
        [] \<Rightarrow> []
      | c # cs \<Rightarrow>
         if is_ascii c
         then utf8_decode (unquote_bytes (takeWhile is_ascii s)) @ unquote (dropWhile is_ascii s)
         else c # unquote cs)"
  by pat_completeness auto
termination
  by (relation "measure length") (auto simp: less_Suc_eq_le length_dropWhile_le)

declare unquote.simps [simp del]

definition url_unreserved :: "nat \<Rightarrow> bool" where
  "url_unreserved c \<longleftrightarrow>
     48 \<le> c \<and> c \<le> 57 \<or> 65 \<le> c \<and> c \<le> 90 \<or> 97 \<le> c \<and> c \<le> 122 \<or> c \<in> {95, 46, 45, 126}"

definition hex_upper :: "nat \<Rightarrow> nat" where
  "hex_upper d = (if d < 10 then 48 + d else 55 + d)"

definition quote_byte :: "nat \<Rightarrow> str" where
  "quote_byte b =
     (if url_unreserved b then [b] else if b = 32 then [43]
      else [37, hex_upper (b div 16), hex_upper (b mod 16)])"

definition quote_plus :: "str \<Rightarrow> str res" where
  "quote_plus s =
     bindR (utf8_encode s) (\<lambda>bs. Inr (concat (map (\<lambda>b. quote_byte (unat b)) bs)))"

definition unquote_plus :: "str \<Rightarrow> str" where
  "unquote_plus s = unquote (map (\<lambda>c. if c = 43 then 32 else c) s)"

lemma unquote_Nil [simp]: "unquote [] = []"
  by (simp add: unquote.simps)

lemma unquote_all_ascii: "list_all is_ascii s \<Longrightarrow> unquote s = utf8_decode (unquote_bytes s)"
proof (cases s)
  case Nil
  then show ?thesis by simp
next
  case (Cons c cs)
  assume *: "list_all is_ascii s"
  then have c: "is_ascii c"
    and runs: "takeWhile is_ascii (c # cs) = c # cs" "dropWhile is_ascii (c # cs) = []"
    by (auto simp: Cons list_all_iff)
  have "unquote (c # cs) = utf8_decode (unquote_bytes (c # cs)) @ unquote []"
    by (subst unquote.simps) (simp only: list.case c if_True runs)
  then show ?thesis
    by (simp add: Cons del: utf8_decode.simps unquote_bytes.simps)
qed

lemma hex_val_hex_upper: "d < 16 \<Longrightarrow> hex_val (hex_upper d) = Some d"
  by (auto simp: hex_val_def hex_upper_def)

lemma unquote_bytes_quote:
  "list_all (\<lambda>b. b < 256) bs \<Longrightarrow>
    unquote_bytes (map (\<lambda>c. if c = 43 then 32 else c) (concat (map quote_byte bs))) = bs"
proof (induction bs)
  case Nil
  then show ?case by simp
next
  case (Cons b bs)
  then have d: "b div 16 < 16" "b mod 16 < 16" by auto
  moreover have "hex_upper e \<noteq> 43" if "e < 16" for e
    using that by (auto simp: hex_upper_def)
  ultimately show ?case
    using Cons by (auto simp: quote_byte_def url_unreserved_def hex_val_hex_upper)
qed

lemma hex_upper_bounds: "d < 16 \<Longrightarrow> hex_upper d < 128 \<and> hex_upper d \<noteq> 58"
  by (auto simp: hex_upper_def)

lemma unreserved_bounds: "url_unreserved c \<Longrightarrow> c < 128 \<and> c \<noteq> 58"
  by (auto simp: url_unreserved_def)

lemma quote_byte_bounds: "b < 256 \<Longrightarrow> c \<in> set (quote_byte b) \<Longrightarrow> c < 128 \<and> c \<noteq> 58"
proof -
  assume "b < 256" "c \<in> set (quote_byte b)"
  moreover from this have "b div 16 < 16" "b mod 16 < 16" by auto
  ultimately show ?thesis
    using hex_upper_bounds [of "b div 16"] hex_upper_bounds [of "b mod 16"] unreserved_bounds [of b]
    by (auto simp: quote_byte_def split: if_splits)
qed

text \<open>Form decoding inverts form encoding: RFC 6749 credentials survive it.\<close>

lemma unquote_plus_quote_plus: "quote_plus s = Inr q \<Longrightarrow> unquote_plus q = s"
proof -
  assume "quote_plus s = Inr q"
  then have ok: "list_all is_scalar s"
    and "q = concat (map (\<lambda>b. quote_byte (unat b)) (map (of_nat :: nat \<Rightarrow> byte) (utf8_nats s)))"
    by (auto simp: quote_plus_def utf8_encode_def split: if_splits)
  moreover have "map (\<lambda>b. quote_byte (unat b)) (map (of_nat :: nat \<Rightarrow> byte) (utf8_nats s))
      = map quote_byte (utf8_nats s)"
    using utf8_nats_less [OF ok] by (simp add: unat_of_nat)
  ultimately have q: "q = concat (map quote_byte (utf8_nats s))"
    by (simp only:)
  have b: "list_all (\<lambda>b. b < 256) (utf8_nats s)"
    using utf8_nats_less [OF ok] by (simp add: list_all_iff)
  have "list_all is_ascii (map (\<lambda>c. if c = 43 then 32 else c) q)"
    using b by (auto simp: q list_all_iff is_ascii_def dest!: quote_byte_bounds)
  then show ?thesis
    using unquote_bytes_quote [OF b] utf8_decode_nats [OF ok]
    by (simp add: unquote_plus_def unquote_all_ascii q)
qed

lemma quote_plus_ascii: "quote_plus s = Inr q \<Longrightarrow> c \<in> set q \<Longrightarrow> c < 128"
  using quote_byte_bounds [OF unat_byte_less]
  by (fastforce simp: quote_plus_def res_simps)

text \<open>The encoded form holds no colon, so a colon can join two of them.\<close>

lemma quote_plus_no_colon: "quote_plus s = Inr q \<Longrightarrow> 58 \<notin> set q"
  using quote_byte_bounds [OF unat_byte_less]
  by (fastforce simp: quote_plus_def res_simps)

end
