(* ===== verification/Parsing.thy ===== *)
theory Parsing
  imports Utf8
begin

section \<open>Splitting, stripping and parsing\<close>

text \<open>
  \<^verbatim>\<open>str.strip\<close>, \<^verbatim>\<open>split\<close>, \<^verbatim>\<open>partition\<close>, \<^verbatim>\<open>rstrip\<close>, \<^verbatim>\<open>lower\<close> (on ASCII), \<^verbatim>\<open>repr\<close>, the numeral grammars of
  \<^verbatim>\<open>float\<close> and \<^verbatim>\<open>int\<close> (on ASCII digits), and \<^verbatim>\<open>urlparse\<close> with \<^verbatim>\<open>urlunparse\<close>.
\<close>

subsection \<open>White space, splitting, case\<close>

definition is_space :: "nat \<Rightarrow> bool" where
  "is_space c \<longleftrightarrow>
     9 \<le> c \<and> c \<le> 13 \<or> 28 \<le> c \<and> c \<le> 32 \<or> c = 133 \<or> c = 160 \<or> c = 5760 \<or>
     8192 \<le> c \<and> c \<le> 8202 \<or> c = 8232 \<or> c = 8233 \<or> c = 8239 \<or> c = 8287 \<or> c = 12288"

definition strip :: "str \<Rightarrow> str" where
  "strip s = rev (dropWhile is_space (rev (dropWhile is_space s)))"

definition rstrip_char :: "nat \<Rightarrow> str \<Rightarrow> str" where
  "rstrip_char c s = rev (dropWhile (\<lambda>x. x = c) (rev s))"

fun split_on :: "nat \<Rightarrow> str \<Rightarrow> str list" where
  "split_on c [] = [[]]"
| "split_on c (x # s) =
     (if x = c then [] # split_on c s
      else (case split_on c s of [] \<Rightarrow> [[x]] | p # ps \<Rightarrow> (x # p) # ps))"

text \<open>\<^verbatim>\<open>s.partition(c)\<close>: the part before, and the part after when the separator occurs.\<close>

definition partition_on :: "nat \<Rightarrow> str \<Rightarrow> str \<times> str option" where
  "partition_on c s =
     (takeWhile (\<lambda>x. x \<noteq> c) s,
      if c \<in> set s then Some (tl (dropWhile (\<lambda>x. x \<noteq> c) s)) else None)"

definition lower_char :: "nat \<Rightarrow> nat" where
  "lower_char c = (if 65 \<le> c \<and> c \<le> 90 then c + 32 else c)"

definition lower :: "str \<Rightarrow> str" where
  "lower s = map lower_char s"

lemma split_on_not_Nil [simp]: "split_on c s \<noteq> []"
  by (induction s) (auto split: list.splits)

lemma split_on_no_sep: "c \<notin> set s \<Longrightarrow> split_on c s = [s]"
  by (induction s) auto

lemma split_on_append: "c \<notin> set s \<Longrightarrow> split_on c (s @ c # t) = s # split_on c t"
  by (induction s) (auto split: list.splits)

lemma split_on_parts: "p \<in> set (split_on c s) \<Longrightarrow> c \<notin> set p"
  by (induction s arbitrary: p) (auto split: list.splits if_splits)

lemma partition_on_app: "c \<notin> set s \<Longrightarrow> partition_on c (s @ c # t) = (s, Some t)"
  by (induction s) (auto simp: partition_on_def)

lemma partition_on_none: "c \<notin> set s \<Longrightarrow> partition_on c s = (s, None)"
  by (auto simp: partition_on_def)

lemma dropWhile_none: "(\<And>x. x \<in> set s \<Longrightarrow> \<not> P x) \<Longrightarrow> dropWhile P s = s"
  by (cases s) auto

lemma strip_no_space: "(\<And>c. c \<in> set s \<Longrightarrow> \<not> is_space c) \<Longrightarrow> strip s = s"
proof -
  assume *: "\<And>c. c \<in> set s \<Longrightarrow> \<not> is_space c"
  have "dropWhile is_space s = s" "dropWhile is_space (rev s) = rev s"
    by (rule dropWhile_none, simp add: *)+
  then show ?thesis
    by (simp only: strip_def rev_rev_ident)
qed

lemma strip_Nil [simp]: "strip [] = []"
  by (simp add: strip_def)

lemma rstrip_char_no_end: "rstrip_char c s = s \<or> last s = c"
  by (cases s rule: rev_cases) (auto simp: rstrip_char_def)

lemma rstrip_char_last: "rstrip_char c s \<noteq> [] \<Longrightarrow> last (rstrip_char c s) \<noteq> c"
  using hd_dropWhile [of "\<lambda>x. x = c" "rev s"]
  by (auto simp: rstrip_char_def last_rev)

subsection \<open>repr\<close>

text \<open>
  \<^verbatim>\<open>repr\<close> of a string, as the error messages show a rejected value. Non-ASCII code points stay
  as they are (Python escapes the unprintable ones among them).
\<close>

definition repr_char :: "nat \<Rightarrow> nat \<Rightarrow> str" where
  "repr_char q c =
     (if c = 92 then [92, 92] else if c = q then [92, q]
      else if c = 10 then [92, 110] else if c = 13 then [92, 114] else if c = 9 then [92, 116]
      else if c < 32 \<or> c = 127 then [92, 120, hex_digit (c div 16), hex_digit (c mod 16)]
      else [c])"

definition repr_str :: "str \<Rightarrow> str" where
  "repr_str s =
     (let q = (if 39 \<in> set s \<and> 34 \<notin> set s then 34 else 39)
      in [q] @ concat (map (repr_char q) s) @ [q])"

subsection \<open>Numerals\<close>

text \<open>Underscores are allowed between two digits only, and then dropped.\<close>

fun underscores_ok :: "nat \<Rightarrow> str \<Rightarrow> bool" where
  "underscores_ok prev [] = (prev \<noteq> 95)"
| "underscores_ok prev (c # s) =
     ((c = 95 \<longrightarrow> is_digit prev) \<and> (prev = 95 \<longrightarrow> is_digit c) \<and> underscores_ok c s)"

definition drop_underscores :: "str \<Rightarrow> str option" where
  "drop_underscores s = (if underscores_ok 0 s then Some (filter (\<lambda>c. c \<noteq> 95) s) else None)"

definition take_sign :: "str \<Rightarrow> bool \<times> str" where
  "take_sign s = (case s of [] \<Rightarrow> (False, [])
     | c # cs \<Rightarrow> if c = 45 then (True, cs) else if c = 43 then (False, cs) else (False, s))"

text \<open>
  \<^verbatim>\<open>int\<close> and \<^verbatim>\<open>float\<close> strip less than \<^verbatim>\<open>str.strip\<close> does: the four ASCII separators stay, and are refused.
\<close>

definition num_space :: "nat \<Rightarrow> bool" where
  "num_space c \<longleftrightarrow> is_space c \<and> \<not> (28 \<le> c \<and> c \<le> 31)"

definition num_strip :: "str \<Rightarrow> str" where
  "num_strip s = rev (dropWhile num_space (rev (dropWhile num_space s)))"

lemma num_strip_ends:
  assumes "s \<noteq> [] \<Longrightarrow> \<not> is_space (hd s)" and "s \<noteq> [] \<Longrightarrow> \<not> is_space (last s)"
  shows "num_strip s = s"
proof (cases "s = []")
  case False
  have "dropWhile num_space s = s"
    using assms(1) False by (cases s) (auto simp: num_space_def)
  moreover have "dropWhile num_space (rev s) = rev s"
    using assms(2) False by (cases s rule: rev_cases) (auto simp: num_space_def)
  ultimately show ?thesis
    by (simp add: num_strip_def)
qed (simp add: num_strip_def)

lemma num_strip_Nil [simp]: "num_strip [] = []"
  by (simp add: num_strip_def)

lemma num_strip_Cons:
  assumes "\<not> is_space c"
  obtains t where "num_strip (c # s) = c # t"
proof
  have c: "\<not> num_space c"
    using assms by (simp add: num_space_def)
  then have "dropWhile num_space (rs @ [c]) = dropWhile num_space rs @ [c]" for rs
    by (induction rs) simp_all
  with c show "num_strip (c # s) = c # rev (dropWhile num_space (rev s))"
    by (simp add: num_strip_def)
qed

lemma num_strip_no_space: "(\<And>c. c \<in> set s \<Longrightarrow> \<not> is_space c) \<Longrightarrow> num_strip s = s"
  by (rule num_strip_ends) simp_all

text \<open>
  \<^verbatim>\<open>int(s)\<close> for a string of ASCII digits; the interpreter refuses more than 4300 of them.
\<close>

definition py_int_of_str :: "str \<Rightarrow> int option" where
  "py_int_of_str s =
     (case drop_underscores (num_strip s) of
        None \<Rightarrow> None
      | Some t \<Rightarrow>
          (let (neg, ds) = take_sign t
           in if ds \<noteq> [] \<and> list_all is_digit ds \<and> length ds \<le> 4300
              then Some (if neg then - int (dec_val ds) else int (dec_val ds)) else None))"

definition parse_exponent :: "str \<Rightarrow> int option" where
  "parse_exponent s =
     (case s of
        [] \<Rightarrow> Some 0
      | e # t \<Rightarrow>
          (let (neg, ds) = take_sign t
           in if (e = 101 \<or> e = 69) \<and> ds \<noteq> [] \<and> list_all is_digit ds
              then Some (if neg then - int (dec_val ds) else int (dec_val ds)) else None))"

definition scale10 :: "nat \<Rightarrow> int \<Rightarrow> rat" where
  "scale10 m e = (if 0 \<le> e then of_nat m * 10 ^ nat e else of_nat m / 10 ^ nat (- e))"

definition parse_decimal :: "bool \<Rightarrow> str \<Rightarrow> pyfloat option" where
  "parse_decimal neg s =
     (let ip = takeWhile is_digit s; r = dropWhile is_digit s;
          (fp, r') = (case r of c # t \<Rightarrow>
                        if c = 46 then (takeWhile is_digit t, dropWhile is_digit t) else ([], r)
                      | [] \<Rightarrow> ([], []))
      in if ip @ fp = [] then None
         else (case parse_exponent r' of
             None \<Rightarrow> None
           | Some e \<Rightarrow>
              let q = scale10 (dec_val (ip @ fp)) (e - int (length fp))
              in Some (f_fin neg (if neg then - q else q))))"

text \<open>\<^verbatim>\<open>float(s)\<close> for a string; \<open>None\<close> stands for the \<^verbatim>\<open>ValueError\<close>.\<close>

definition py_float_of_str :: "str \<Rightarrow> pyfloat option" where
  "py_float_of_str s =
     (case drop_underscores (num_strip s) of
        None \<Rightarrow> None
      | Some t \<Rightarrow>
          (let (neg, b) = take_sign t; l = lower b
           in if l = S ''inf'' \<or> l = S ''infinity'' then Some (if neg then NInf else PInf)
              else if l = S ''nan'' then Some Nan
              else parse_decimal neg b))"

lemma parse_decimal_digits:
  "ds \<noteq> [] \<Longrightarrow> list_all is_digit ds \<Longrightarrow>
    parse_decimal False ds = Some (f_fin False (of_nat (dec_val ds)))"
proof -
  assume *: "ds \<noteq> []" "list_all is_digit ds"
  then have runs: "takeWhile is_digit ds = ds" "dropWhile is_digit ds = []"
    by (auto simp: list_all_iff)
  show ?thesis
    using * by (simp add: parse_decimal_def runs parse_exponent_def scale10_def)
qed

lemma underscores_ok_digits:
  "list_all is_digit ds \<Longrightarrow> prev \<noteq> 95 \<Longrightarrow> underscores_ok prev ds"
  by (induction ds arbitrary: prev) (auto simp: is_digit_def)

text \<open>A plain decimal count reads back as itself.\<close>

lemma py_float_dec_nat: "py_float_of_str (dec_nat n) = Some (f_fin False (of_nat n))"
proof -
  let ?s = "dec_nat n"
  have d: "list_all is_digit ?s" and ne: "?s \<noteq> []"
    by (rule dec_nat_digits, rule dec_nat_not_Nil)
  have strip: "num_strip ?s = ?s"
    using d by (intro num_strip_no_space) (auto simp: list_all_iff is_digit_def is_space_def)
  have "filter (\<lambda>c. c \<noteq> 95) ?s = ?s"
    using d by (auto simp: list_all_iff is_digit_def filter_id_conv)
  then have du: "drop_underscores ?s = Some ?s"
    using underscores_ok_digits [OF d] by (simp add: drop_underscores_def)
  obtain c cs where c: "?s = c # cs" "is_digit c"
    using d ne by (cases ?s) auto
  then have sign: "take_sign ?s = (False, ?s)"
    by (auto simp: take_sign_def is_digit_def)
  have "lower ?s \<noteq> S ''inf''" "lower ?s \<noteq> S ''infinity''" "lower ?s \<noteq> S ''nan''"
    using c by (auto simp: lower_def lower_char_def is_digit_def str_simps)
  then show ?thesis
    using d ne by (simp add: py_float_of_str_def strip du sign parse_decimal_digits dec_val_dec_nat)
qed

subsection \<open>URLs\<close>

text \<open>
  \<^verbatim>\<open>urlparse\<close> and \<^verbatim>\<open>urlunparse\<close>. A host whose brackets do not pair raises \<^verbatim>\<open>ValueError\<close>; the
  checks of a bracketed host against the IP grammar and of a non-ASCII host under NFKC are
  not modelled.
\<close>

record url_parts =
  u_scheme :: str
  u_netloc :: str
  u_path :: str
  u_params :: str
  u_query :: str
  u_fragment :: str

definition url_schemes :: "string list" where
  "url_schemes = [[], ''ftp'', ''http'', ''imap'', ''https'', ''shttp'', ''rtsp'', ''rtsps'',
     ''rtspu'', ''mms'', ''sftp'', ''prospero'']"

definition uses_netloc :: "str list" where
  "uses_netloc = map S (url_schemes @ [''gopher'', ''nntp'', ''telnet'', ''wais'', ''file'',
     ''snews'', ''rsync'', ''svn'', ''svn+ssh'', ''nfs'', ''git'', ''git+ssh'', ''ws'', ''wss''])"

definition uses_params :: "str list" where
  "uses_params = map S (url_schemes @ [''hdl'', ''sip'', ''sips'', ''tel''])"

definition is_alpha :: "nat \<Rightarrow> bool" where
  "is_alpha c \<longleftrightarrow> 65 \<le> c \<and> c \<le> 90 \<or> 97 \<le> c \<and> c \<le> 122"

definition is_scheme_char :: "nat \<Rightarrow> bool" where
  "is_scheme_char c \<longleftrightarrow> is_alpha c \<or> is_digit c \<or> c \<in> {43, 45, 46}"

definition url_clean :: "str \<Rightarrow> str" where
  "url_clean s = filter (\<lambda>c. c \<notin> {9, 10, 13}) (dropWhile (\<lambda>c. c \<le> 32) s)"

definition split_scheme :: "str \<Rightarrow> str \<times> str" where
  "split_scheme s =
     (case partition_on 58 s of
        (pre, Some rest) \<Rightarrow>
          if pre \<noteq> [] \<and> is_alpha (hd pre) \<and> list_all is_scheme_char pre
          then (lower pre, rest) else ([], s)
      | (_, None) \<Rightarrow> ([], s))"

definition is_host_end :: "nat \<Rightarrow> bool" where
  "is_host_end c \<longleftrightarrow> c \<in> {47, 63, 35}"

definition split_netloc :: "str \<Rightarrow> str \<times> str" where
  "split_netloc s =
     (case s of
        a # b # r \<Rightarrow>
          if a = 47 \<and> b = 47
          then (takeWhile (\<lambda>c. \<not> is_host_end c) r, dropWhile (\<lambda>c. \<not> is_host_end c) r)
          else ([], s)
      | _ \<Rightarrow> ([], s))"

definition or_empty :: "str option \<Rightarrow> str" where
  "or_empty x = (case x of Some s \<Rightarrow> s | None \<Rightarrow> [])"

text \<open>\<^verbatim>\<open>_splitparams\<close>: the parameters start at the first semicolon of the last path segment.\<close>

definition split_params :: "str \<Rightarrow> str \<times> str" where
  "split_params p =
     (let seg = rev (takeWhile (\<lambda>c. c \<noteq> 47) (rev p));
          before = take (length p - length seg) p
      in case partition_on 59 seg of
           (a, Some b) \<Rightarrow> (before @ a, b)
         | (_, None) \<Rightarrow> (p, []))"

definition urlparse :: "str \<Rightarrow> url_parts res" where
  "urlparse url =
     (let (scheme, s1) = split_scheme (url_clean url);
          (netloc, s2) = split_netloc s1;
          (s3, frag) = partition_on 35 s2;
          (s4, query) = partition_on 63 s3;
          (path, params) = (if scheme \<in> set uses_params \<and> 59 \<in> set s4
                            then split_params s4 else (s4, []))
      in if (91 \<in> set netloc) \<noteq> (93 \<in> set netloc)
         then Inl (ValueError (S ''Invalid IPv6 URL''))
         else Inr \<lparr>u_scheme = scheme, u_netloc = netloc, u_path = path, u_params = params,
                   u_query = or_empty query, u_fragment = or_empty frag\<rparr>)"

definition urlunparse :: "url_parts \<Rightarrow> str" where
  "urlunparse u =
     (let p1 = (if u_params u = [] then u_path u else u_path u @ [59] @ u_params u);
          p2 = (if u_netloc u \<noteq> [] \<or> (u_scheme u \<noteq> [] \<and> u_scheme u \<in> set uses_netloc)
                   \<or> take 2 p1 = [47, 47]
                then [47, 47] @ u_netloc u @ (if p1 \<noteq> [] \<and> hd p1 \<noteq> 47 then 47 # p1 else p1)
                else p1);
          p3 = (if u_scheme u = [] then p2 else u_scheme u @ [58] @ p2);
          p4 = (if u_query u = [] then p3 else p3 @ [63] @ u_query u)
      in if u_fragment u = [] then p4 else p4 @ [35] @ u_fragment u)"

end
