(* ===== verification/Signals.thy ===== *)
theory Signals
  imports Parsing
begin

section \<open>Signals and export outcomes\<close>

text \<open>
  \<^verbatim>\<open>signals.py\<close> (the four signal kinds and their OTLP/HTTP paths) and \<^verbatim>\<open>outcomes.py\<close> (what one
  export attempt can come to).
\<close>

subsection \<open>Signals\<close>

datatype signal_kind = METRICS | LOGS | TRACES | PROFILES

instantiation signal_kind :: enum
begin

definition enum_signal_kind :: "signal_kind list" where
  "enum_signal_kind = [METRICS, LOGS, TRACES, PROFILES]"

definition enum_all_signal_kind :: "(signal_kind \<Rightarrow> bool) \<Rightarrow> bool" where
  "enum_all_signal_kind P \<longleftrightarrow> P METRICS \<and> P LOGS \<and> P TRACES \<and> P PROFILES"

definition enum_ex_signal_kind :: "(signal_kind \<Rightarrow> bool) \<Rightarrow> bool" where
  "enum_ex_signal_kind P \<longleftrightarrow> P METRICS \<or> P LOGS \<or> P TRACES \<or> P PROFILES"

instance
proof
  have univ: "(UNIV :: signal_kind set) = {METRICS, LOGS, TRACES, PROFILES}"
    using signal_kind.exhaust by auto
  show "(UNIV :: signal_kind set) = set enum_class.enum"
    by (simp add: univ enum_signal_kind_def)
  show "distinct (enum_class.enum :: signal_kind list)"
    by (simp add: enum_signal_kind_def)
  show "enum_class.enum_all P \<longleftrightarrow> Ball UNIV P" for P :: "signal_kind \<Rightarrow> bool"
    by (simp add: univ enum_all_signal_kind_def)
  show "enum_class.enum_ex P \<longleftrightarrow> Bex UNIV P" for P :: "signal_kind \<Rightarrow> bool"
    by (simp add: univ enum_ex_signal_kind_def)
qed

end

text \<open>The member's value, which is also how an f-string renders it.\<close>

fun kind_value :: "signal_kind \<Rightarrow> str" where
  "kind_value METRICS = S ''metrics''"
| "kind_value LOGS = S ''logs''"
| "kind_value TRACES = S ''traces''"
| "kind_value PROFILES = S ''profiles''"

fun http_path :: "signal_kind \<Rightarrow> str" where
  "http_path METRICS = S ''/v1/metrics''"
| "http_path LOGS = S ''/v1/logs''"
| "http_path TRACES = S ''/v1/traces''"
| "http_path PROFILES = S ''/v1development/profiles''"

lemma http_path_inj: "http_path k = http_path l \<longleftrightarrow> k = l"
  by (cases k; cases l) simp_all

lemma http_path_slash: "http_path k \<noteq> [] \<and> hd (http_path k) = 47"
  by (cases k) (simp_all add: str_simps)

subsection \<open>Outcomes\<close>

datatype outcome =
    Success
  | PartialSuccess (ps_rejected: int) (ps_message: str)
  | Retryable (rt_status: "int option") (rt_message: str) (rt_retry_after: "pyfloat option")
  | Permanent (pm_status: "int option") (pm_message: str)

fun is_credential_rejection :: "outcome \<Rightarrow> bool" where
  "is_credential_rejection (Permanent st _) = (st \<in> {Some 401, Some 403})"
| "is_credential_rejection _ = False"

fun is_retryable :: "outcome \<Rightarrow> bool" where
  "is_retryable (Retryable _ _ _) = True"
| "is_retryable _ = False"

fun is_permanent :: "outcome \<Rightarrow> bool" where
  "is_permanent (Permanent _ _) = True"
| "is_permanent _ = False"

text \<open>Accepted by the collector, wholly or in part: what an export may return.\<close>

fun is_delivered :: "outcome \<Rightarrow> bool" where
  "is_delivered Success = True"
| "is_delivered (PartialSuccess _ _) = True"
| "is_delivered _ = False"

lemma delivered_iff: "is_delivered r \<longleftrightarrow> \<not> is_retryable r \<and> \<not> is_permanent r"
  by (cases r) auto

end
