(* ===== verification/Model.thy ===== *)
theory Model
  imports Signals
begin

unbundle bit_operations_syntax

section \<open>The OTLP data model\<close>

text \<open>
  The dataclasses of \<^verbatim>\<open>model/common.py\<close>, \<^verbatim>\<open>model/logs.py\<close>, \<^verbatim>\<open>model/metrics.py\<close> and
  \<^verbatim>\<open>model/traces.py\<close> as records, the enumerations as datatypes with their integer values, and
  the builder functions. Python integers are \<open>int\<close>; the attribute mappings are dictionaries.
\<close>

subsection \<open>Attribute values\<close>

text \<open>
  \<open>AnyValue\<close>; \<open>VOther\<close> stands for an object of any other type, with the \<^verbatim>\<open>repr\<close> of that type.
  A metric value is an \<^verbatim>\<open>int\<close> or a \<^verbatim>\<open>float\<close>, but the type \<^verbatim>\<open>bool\<close> is a subclass of \<^verbatim>\<open>int\<close>, so
  \<open>NBool\<close> can be passed as well.
\<close>

datatype any_value =
    VBool bool
  | VInt int
  | VFloat pyfloat
  | VStr str
  | VBytes bytes
  | VMap "(str \<times> any_value) list"
  | VSeq "any_value list"
  | VOther str

datatype number = NBool bool | NInt int | NFloat pyfloat

type_synonym attributes = "(str, any_value) dict"

subsection \<open>Common\<close>

record resource =
  res_attributes :: attributes
  res_dropped :: int

record instrumentation_scope =
  scope_name :: str
  scope_version :: "str option"
  scope_attributes :: attributes

definition Resource :: resource where
  "Resource = \<lparr>res_attributes = [], res_dropped = 0\<rparr>"

subsection \<open>Logs\<close>

datatype severity_number =
  SN_UNSPECIFIED | SN_TRACE | SN_DEBUG | SN_INFO | SN_WARN | SN_ERROR | SN_FATAL

fun severity_int :: "severity_number \<Rightarrow> int" where
  "severity_int SN_UNSPECIFIED = 0"
| "severity_int SN_TRACE = 1"
| "severity_int SN_DEBUG = 5"
| "severity_int SN_INFO = 9"
| "severity_int SN_WARN = 13"
| "severity_int SN_ERROR = 17"
| "severity_int SN_FATAL = 21"

fun severity_name :: "severity_number \<Rightarrow> str" where
  "severity_name SN_UNSPECIFIED = S ''UNSPECIFIED''"
| "severity_name SN_TRACE = S ''TRACE''"
| "severity_name SN_DEBUG = S ''DEBUG''"
| "severity_name SN_INFO = S ''INFO''"
| "severity_name SN_WARN = S ''WARN''"
| "severity_name SN_ERROR = S ''ERROR''"
| "severity_name SN_FATAL = S ''FATAL''"

text \<open>An \<^verbatim>\<open>IntEnum\<close> compares by its integer value.\<close>

lemma severity_int_inj: "severity_int a = severity_int b \<longleftrightarrow> a = b"
  by (cases a; cases b) simp_all

instantiation severity_number :: linorder
begin

definition less_eq_severity_number :: "severity_number \<Rightarrow> severity_number \<Rightarrow> bool" where
  "a \<le> b \<longleftrightarrow> severity_int a \<le> severity_int b"

definition less_severity_number :: "severity_number \<Rightarrow> severity_number \<Rightarrow> bool" where
  "a < b \<longleftrightarrow> severity_int a < severity_int b"

instance
  by standard
    (auto simp: less_eq_severity_number_def less_severity_number_def severity_int_inj [symmetric])

end

record log_record =
  lr_time_unix_nano :: int
  lr_body :: any_value
  lr_observed_time_unix_nano :: int
  lr_severity_number :: severity_number
  lr_severity_text :: str
  lr_attributes :: attributes
  lr_trace_id :: "bytes option"
  lr_span_id :: "bytes option"
  lr_event_name :: str
  lr_flags :: int

record scope_logs =
  sl_scope :: instrumentation_scope
  sl_log_records :: "log_record list"

record resource_logs =
  rl_resource :: resource
  rl_scope_logs :: "scope_logs list"

text \<open>\<^verbatim>\<open>x or _EMPTY\<close> for an optional mapping.\<close>

definition or_empty_dict :: "attributes option \<Rightarrow> attributes" where
  "or_empty_dict a = (case a of None \<Rightarrow> [] | Some d \<Rightarrow> d)"

definition log_record_of ::
  "any_value \<Rightarrow> int \<Rightarrow> int option \<Rightarrow> severity_number \<Rightarrow> str option \<Rightarrow> attributes option \<Rightarrow>
   bytes option \<Rightarrow> bytes option \<Rightarrow> str \<Rightarrow> log_record" where
  "log_record_of body time observed severity severity_text attrs trace_id span_id event_name =
     \<lparr>lr_time_unix_nano = time,
      lr_body = body,
      lr_observed_time_unix_nano = (case observed of None \<Rightarrow> time | Some t \<Rightarrow> t),
      lr_severity_number = severity,
      lr_severity_text =
        (case severity_text of Some t \<Rightarrow> t
         | None \<Rightarrow> if severity = SN_UNSPECIFIED then [] else severity_name severity),
      lr_attributes = or_empty_dict attrs,
      lr_trace_id = trace_id,
      lr_span_id = span_id,
      lr_event_name = event_name,
      lr_flags = 0\<rparr>"

definition LOG_RECORD_FLAGS_TRACE_FLAGS_MASK :: int where
  "LOG_RECORD_FLAGS_TRACE_FLAGS_MASK = 0xFF"

subsection \<open>Metrics\<close>

datatype aggregation_temporality = AT_UNSPECIFIED | AT_DELTA | AT_CUMULATIVE

fun temporality_int :: "aggregation_temporality \<Rightarrow> int" where
  "temporality_int AT_UNSPECIFIED = 0"
| "temporality_int AT_DELTA = 1"
| "temporality_int AT_CUMULATIVE = 2"

definition DATA_POINT_FLAGS_NO_RECORDED_VALUE :: int where
  "DATA_POINT_FLAGS_NO_RECORDED_VALUE = 1"

record exemplar =
  ex_filtered_attributes :: attributes
  ex_time_unix_nano :: int
  ex_value :: number
  ex_span_id :: "bytes option"
  ex_trace_id :: "bytes option"

record number_data_point =
  np_time_unix_nano :: int
  np_value :: number
  np_attributes :: attributes
  np_start_time_unix_nano :: "int option"
  np_exemplars :: "exemplar list"
  np_flags :: int

record histogram_data_point =
  hp_time_unix_nano :: int
  hp_count :: int
  hp_bucket_counts :: "int list"
  hp_explicit_bounds :: "pyfloat list"
  hp_sum :: "pyfloat option"
  hp_attributes :: attributes
  hp_start_time_unix_nano :: "int option"
  hp_exemplars :: "exemplar list"
  hp_flags :: int
  hp_min :: "pyfloat option"
  hp_max :: "pyfloat option"

record buckets =
  bk_offset :: int
  bk_bucket_counts :: "int list"

record exponential_data_point =
  ep_time_unix_nano :: int
  ep_count :: int
  ep_scale :: int
  ep_zero_count :: int
  ep_positive :: buckets
  ep_negative :: buckets
  ep_sum :: "pyfloat option"
  ep_min :: "pyfloat option"
  ep_max :: "pyfloat option"
  ep_attributes :: attributes
  ep_start_time_unix_nano :: "int option"
  ep_flags :: int
  ep_exemplars :: "exemplar list"
  ep_zero_threshold :: pyfloat

record value_at_quantile =
  vq_quantile :: pyfloat
  vq_value :: pyfloat

record summary_data_point =
  sp_time_unix_nano :: int
  sp_count :: int
  sp_sum :: pyfloat
  sp_quantile_values :: "value_at_quantile list"
  sp_attributes :: attributes
  sp_start_time_unix_nano :: "int option"
  sp_flags :: int

datatype metric_data =
    Gauge "number_data_point list"
  | Sum "number_data_point list" aggregation_temporality bool
  | Histogram "histogram_data_point list" aggregation_temporality
  | ExponentialHistogram "exponential_data_point list" aggregation_temporality
  | Summary "summary_data_point list"

text \<open>The three dataclasses whose last fields have defaults; \<open>None\<close> is a field not given.\<close>

definition Sum_data ::
  "number_data_point list \<Rightarrow> aggregation_temporality option \<Rightarrow> bool option \<Rightarrow> metric_data" where
  "Sum_data points temporality monotonic =
     Sum points (case temporality of None \<Rightarrow> AT_CUMULATIVE | Some t \<Rightarrow> t)
       (case monotonic of None \<Rightarrow> True | Some m \<Rightarrow> m)"

definition Histogram_data ::
  "histogram_data_point list \<Rightarrow> aggregation_temporality option \<Rightarrow> metric_data" where
  "Histogram_data points temporality =
     Histogram points (case temporality of None \<Rightarrow> AT_CUMULATIVE | Some t \<Rightarrow> t)"

definition ExponentialHistogram_data ::
  "exponential_data_point list \<Rightarrow> aggregation_temporality option \<Rightarrow> metric_data" where
  "ExponentialHistogram_data points temporality =
     ExponentialHistogram points (case temporality of None \<Rightarrow> AT_CUMULATIVE | Some t \<Rightarrow> t)"

record metric =
  mt_name :: str
  mt_data :: metric_data
  mt_description :: str
  mt_unit :: str

record scope_metrics =
  sm_scope :: instrumentation_scope
  sm_metrics :: "metric list"

record resource_metrics =
  rm_resource :: resource
  rm_scope_metrics :: "scope_metrics list"

definition gauge_of :: "str \<Rightarrow> number \<Rightarrow> int \<Rightarrow> str \<Rightarrow> str \<Rightarrow> attributes option \<Rightarrow> metric" where
  "gauge_of name value time unit description attrs =
     (let point = \<lparr>np_time_unix_nano = time, np_value = value,
                   np_attributes = or_empty_dict attrs, np_start_time_unix_nano = None,
                   np_exemplars = [], np_flags = 0\<rparr>
      in \<lparr>mt_name = name, mt_data = Gauge [point], mt_description = description, mt_unit = unit\<rparr>)"

definition sum_of ::
  "str \<Rightarrow> number \<Rightarrow> int \<Rightarrow> int option \<Rightarrow> str \<Rightarrow> str \<Rightarrow> attributes option \<Rightarrow> bool \<Rightarrow>
   aggregation_temporality \<Rightarrow> metric" where
  "sum_of name value time start unit description attrs monotonic temporality =
     (let point = \<lparr>np_time_unix_nano = time, np_value = value,
                   np_attributes = or_empty_dict attrs, np_start_time_unix_nano = start,
                   np_exemplars = [], np_flags = 0\<rparr>
      in \<lparr>mt_name = name, mt_data = Sum [point] temporality monotonic,
          mt_description = description, mt_unit = unit\<rparr>)"

definition data_point_flags :: "bool \<Rightarrow> int" where
  "data_point_flags no_recorded_value =
     (if no_recorded_value then DATA_POINT_FLAGS_NO_RECORDED_VALUE else 0)"

subsection \<open>Traces\<close>

datatype span_kind = SK_UNSPECIFIED | SK_INTERNAL | SK_SERVER | SK_CLIENT | SK_PRODUCER | SK_CONSUMER

fun span_kind_int :: "span_kind \<Rightarrow> int" where
  "span_kind_int SK_UNSPECIFIED = 0"
| "span_kind_int SK_INTERNAL = 1"
| "span_kind_int SK_SERVER = 2"
| "span_kind_int SK_CLIENT = 3"
| "span_kind_int SK_PRODUCER = 4"
| "span_kind_int SK_CONSUMER = 5"

datatype status_code = SC_UNSET | SC_OK | SC_ERROR

fun status_code_int :: "status_code \<Rightarrow> int" where
  "status_code_int SC_UNSET = 0"
| "status_code_int SC_OK = 1"
| "status_code_int SC_ERROR = 2"

definition SPAN_FLAGS_TRACE_FLAGS_MASK :: int where
  "SPAN_FLAGS_TRACE_FLAGS_MASK = 0xFF"

definition SPAN_FLAGS_CONTEXT_HAS_IS_REMOTE :: int where
  "SPAN_FLAGS_CONTEXT_HAS_IS_REMOTE = 0x100"

definition SPAN_FLAGS_CONTEXT_IS_REMOTE :: int where
  "SPAN_FLAGS_CONTEXT_IS_REMOTE = 0x200"

record span_status =
  st_code :: status_code
  st_message :: str

record span_event =
  ev_time_unix_nano :: int
  ev_name :: str
  ev_attributes :: attributes

record span_link =
  ln_trace_id :: bytes
  ln_span_id :: bytes
  ln_trace_state :: str
  ln_attributes :: attributes
  ln_flags :: int

record span =
  sn_trace_id :: bytes
  sn_span_id :: bytes
  sn_name :: str
  sn_start_time_unix_nano :: int
  sn_end_time_unix_nano :: int
  sn_kind :: span_kind
  sn_parent_span_id :: "bytes option"
  sn_trace_state :: str
  sn_flags :: int
  sn_attributes :: attributes
  sn_events :: "span_event list"
  sn_links :: "span_link list"
  sn_status :: "span_status option"

record scope_spans =
  ss_scope :: instrumentation_scope
  ss_spans :: "span list"

record resource_spans =
  rs_resource :: resource
  rs_scope_spans :: "scope_spans list"

definition span_of ::
  "str \<Rightarrow> bytes \<Rightarrow> bytes \<Rightarrow> int \<Rightarrow> int \<Rightarrow> span_kind \<Rightarrow> bytes option \<Rightarrow> str \<Rightarrow> int \<Rightarrow>
   attributes option \<Rightarrow> span_event list \<Rightarrow> span_link list \<Rightarrow> status_code \<Rightarrow> str \<Rightarrow> span" where
  "span_of name trace_id span_id start end_time kind parent trace_state flags attrs events links
       status_code status_message =
     (let status = (if status_code = SC_UNSET \<and> status_message = [] then None
                    else Some \<lparr>st_code = status_code, st_message = status_message\<rparr>)
      in \<lparr>sn_trace_id = trace_id, sn_span_id = span_id, sn_name = name,
          sn_start_time_unix_nano = start, sn_end_time_unix_nano = end_time, sn_kind = kind,
          sn_parent_span_id = parent, sn_trace_state = trace_state, sn_flags = flags,
          sn_attributes = or_empty_dict attrs, sn_events = events, sn_links = links,
          sn_status = status\<rparr>)"

definition span_flags :: "bool \<Rightarrow> bool option \<Rightarrow> int" where
  "span_flags sampled is_remote =
     (let flags = (if sampled then 1 else 0)
      in case is_remote of
           None \<Rightarrow> flags
         | Some remote \<Rightarrow>
             (let flags = flags OR SPAN_FLAGS_CONTEXT_HAS_IS_REMOTE
              in if remote then flags OR SPAN_FLAGS_CONTEXT_IS_REMOTE else flags))"

text \<open>How a receiver reads the flags back.\<close>

definition flags_sampled :: "int \<Rightarrow> bool" where
  "flags_sampled f \<longleftrightarrow> f AND SPAN_FLAGS_TRACE_FLAGS_MASK AND 1 \<noteq> 0"

definition flags_is_remote :: "int \<Rightarrow> bool option" where
  "flags_is_remote f =
     (if f AND SPAN_FLAGS_CONTEXT_HAS_IS_REMOTE = 0 then None
      else Some (f AND SPAN_FLAGS_CONTEXT_IS_REMOTE \<noteq> 0))"

lemmas span_flag_defs = span_flags_def flags_sampled_def flags_is_remote_def
  SPAN_FLAGS_TRACE_FLAGS_MASK_def SPAN_FLAGS_CONTEXT_HAS_IS_REMOTE_def
  SPAN_FLAGS_CONTEXT_IS_REMOTE_def

text \<open>
  Span flags round-trip: the sampled bit and the three states of \<open>is_remote\<close> (unknown, known
  local, known remote) are all recovered from the flags the builder makes, and no bit outside
  the documented ones is set.
\<close>

theorem span_flags_roundtrip:
  "flags_sampled (span_flags sampled is_remote) = sampled \<and>
   flags_is_remote (span_flags sampled is_remote) = is_remote \<and>
   span_flags sampled is_remote AND NOT (0x1 OR 0x300) = 0"
  by (cases sampled; cases is_remote; cases "the is_remote") (simp_all add: span_flag_defs)

end
