(* ===== verification/Json.thy ===== *)
theory Json
  imports Model
begin

section \<open>JSON documents and the OTLP/JSON primitives\<close>

text \<open>
  The Python objects the JSON encoder builds (\<open>JNull\<close> is \<^verbatim>\<open>None\<close>), and the rules of
  \<^verbatim>\<open>encoding/primitives.py\<close>: 64-bit numbers as decimal strings, ids as hex, other bytes as
  base64, attribute values tagged by type, absent fields dropped. Each rule comes with the
  reading a receiver applies and the round trip.
\<close>

datatype json =
    JNull
  | JBool bool
  | JInt int
  | JFloat pyfloat
  | JStr str
  | JArr "json list"
  | JObj "(str \<times> json) list"

type_synonym jobj = "(str, json) dict"

subsection \<open>Scalars\<close>

definition u64 :: "int \<Rightarrow> str" where
  "u64 value = dec_int value"

definition hex_id :: "bytes \<Rightarrow> str" where
  "hex_id value = hex_of_bytes value"

definition b64 :: "bytes \<Rightarrow> str" where
  "b64 value = b64encode value"

text \<open>\<^verbatim>\<open>omit_empty\<close>: zero and \<^verbatim>\<open>False\<close> stay.\<close>

definition omit_empty :: "jobj \<Rightarrow> jobj" where
  "omit_empty obj =
     filter (\<lambda>(k, v). v \<noteq> JNull \<and> v \<noteq> JStr [] \<and> v \<noteq> JArr [] \<and> v \<noteq> JObj []) obj"

definition absent :: "json \<Rightarrow> bool" where
  "absent v \<longleftrightarrow> v \<in> {JNull, JStr [], JArr [], JObj []}"

lemma omit_empty_absent: "omit_empty obj = filter (\<lambda>(k, v). \<not> absent v) obj"
  by (simp add: omit_empty_def absent_def)

lemma omit_empty_Nil [simp]: "omit_empty [] = []"
  by (simp add: omit_empty_def)

lemma omit_empty_Cons [simp]:
  "omit_empty ((k, v) # obj) = (if absent v then omit_empty obj else (k, v) # omit_empty obj)"
  by (simp add: omit_empty_absent)

lemma omit_empty_append [simp]: "omit_empty (a @ b) = omit_empty a @ omit_empty b"
  by (simp add: omit_empty_def)

lemma absent_simps [simp]:
  "absent JNull" "\<not> absent (JBool b)" "\<not> absent (JInt i)" "\<not> absent (JFloat x)"
  "absent (JStr s) \<longleftrightarrow> s = []" "absent (JArr vs) \<longleftrightarrow> vs = []" "absent (JObj d) \<longleftrightarrow> d = []"
  by (simp_all add: absent_def)

lemma map_of_omit_empty:
  "wf_dict obj \<Longrightarrow>
    map_of (omit_empty obj) k =
      (case map_of obj k of None \<Rightarrow> None | Some v \<Rightarrow> if absent v then None else Some v)"
proof (induction obj)
  case Nil
  then show ?case by simp
next
  case (Cons p obj)
  obtain j v where p: "p = (j, v)" by (cases p)
  then have "wf_dict obj" and "map_of obj j = None"
    using Cons.prems by (auto simp: wf_dict_def map_of_eq_None_iff)
  then show ?case
    using Cons.IH p by auto
qed

lemma omit_empty_fields: "(k, v) \<in> set (omit_empty obj) \<longleftrightarrow> (k, v) \<in> set obj \<and> \<not> absent v"
  by (auto simp: omit_empty_absent)

subsection \<open>Attribute values\<close>

text \<open>
  \<^verbatim>\<open>isinstance\<close> on the types the encoders test, with Python's subclass relations: \<^verbatim>\<open>bool\<close> is an
  \<^verbatim>\<open>int\<close>; \<^verbatim>\<open>str\<close> and \<^verbatim>\<open>bytes\<close> are sequences. The order of the tests is the source's.
\<close>

datatype py_type = TyBool | TyInt | TyFloat | TyStr | TyBytes | TyMapping | TySequence

fun isinstance :: "any_value \<Rightarrow> py_type \<Rightarrow> bool" where
  "isinstance (VBool _) t = (t = TyBool \<or> t = TyInt)"
| "isinstance (VInt _) t = (t = TyInt)"
| "isinstance (VFloat _) t = (t = TyFloat)"
| "isinstance (VStr _) t = (t = TyStr \<or> t = TySequence)"
| "isinstance (VBytes _) t = (t = TyBytes \<or> t = TySequence)"
| "isinstance (VMap _) t = (t = TyMapping)"
| "isinstance (VSeq _) t = (t = TySequence)"
| "isinstance (VOther _) t = False"

fun json_scalar :: "any_value \<Rightarrow> json" where
  "json_scalar (VBool b) = JBool b"
| "json_scalar (VInt i) = JInt i"
| "json_scalar (VFloat x) = JFloat x"
| "json_scalar (VStr s) = JStr s"
| "json_scalar _ = JNull"

text \<open>\<^verbatim>\<open>str\<close> of an object that is an \<^verbatim>\<open>int\<close>; a \<^verbatim>\<open>bool\<close> prints its name.\<close>

fun u64_value :: "any_value \<Rightarrow> str" where
  "u64_value (VInt i) = u64 i"
| "u64_value (VBool b) = (if b then S ''True'' else S ''False'')"
| "u64_value _ = []"

fun bytes_value :: "any_value \<Rightarrow> bytes" where
  "bytes_value (VBytes b) = b"
| "bytes_value _ = []"

fun mapping_items :: "any_value \<Rightarrow> attributes" where
  "mapping_items (VMap kvs) = kvs"
| "mapping_items _ = []"

text \<open>Iterating a string yields its one-character strings, iterating bytes yields integers.\<close>

fun sequence_items :: "any_value \<Rightarrow> any_value list" where
  "sequence_items (VSeq vs) = vs"
| "sequence_items (VStr s) = map (\<lambda>c. VStr [c]) s"
| "sequence_items (VBytes b) = map (\<lambda>x. VInt (uint x)) b"
| "sequence_items _ = []"

fun other_type :: "any_value \<Rightarrow> str" where
  "other_type (VOther t) = t"
| "other_type _ = []"

lemma mapping_items_size:
  "isinstance v TyMapping \<Longrightarrow> size_list (\<lambda>p. size (snd p)) (mapping_items v) < size v"
  by (cases v) (auto simp: size_list_conv_sum_list intro!: le_imp_less_Suc sum_list_mono
      split: prod.splits)

lemma sequence_items_measure:
  "\<not> isinstance val TyStr \<Longrightarrow> \<not> isinstance val TyBytes \<Longrightarrow> x \<in> set (sequence_items val) \<Longrightarrow>
    (Inl x, Inl val) \<in> measure (case_sum size (size_list (\<lambda>p. size (snd p))))"
  by (cases val) (auto simp: less_Suc_eq_le size_list_estimation')

lemma attributes_measure:
  fixes attributes :: attributes
  shows "p \<in> set attributes \<Longrightarrow>
    (Inl (snd p), Inr attributes) \<in> measure (case_sum size (size_list (\<lambda>p. size (snd p))))"
  by (induction attributes) auto

function encode_any_value :: "any_value \<Rightarrow> json res"
  and encode_attributes :: "attributes \<Rightarrow> json list res" where
  "encode_any_value value =
     (if isinstance value TyBool then Inr (JObj [(S ''boolValue'', json_scalar value)])
      else if isinstance value TyInt then Inr (JObj [(S ''intValue'', JStr (u64_value value))])
      else if isinstance value TyFloat then Inr (JObj [(S ''doubleValue'', json_scalar value)])
      else if isinstance value TyStr then Inr (JObj [(S ''stringValue'', json_scalar value)])
      else if isinstance value TyBytes
        then Inr (JObj [(S ''bytesValue'', JStr (b64 (bytes_value value)))])
      else if isinstance value TyMapping
        then bindR (encode_attributes (mapping_items value))
          (\<lambda>vs. Inr (JObj [(S ''kvlistValue'', JObj [(S ''values'', JArr vs)])]))
      else if isinstance value TySequence
        then bindR (mapR encode_any_value (sequence_items value))
          (\<lambda>vs. Inr (JObj [(S ''arrayValue'', JObj [(S ''values'', JArr vs)])]))
      else Inl (TypeError (S ''unsupported attribute value type: '' @ other_type value)))"
| "encode_attributes attributes =
     mapR (\<lambda>p. bindR (encode_any_value (snd p))
       (\<lambda>j. Inr (JObj [(S ''key'', JStr (fst p)), (S ''value'', j)]))) attributes"
  by pat_completeness auto

termination
proof (relation "measure (case_sum size (size_list (\<lambda>p. size (snd p))))")
  show "wf (measure (case_sum size (size_list (\<lambda>p :: str \<times> any_value. size (snd p)))))"
    by simp
next
  fix val :: any_value
  assume "isinstance val TyMapping"
  then show "(Inr (mapping_items val), Inl val)
      \<in> measure (case_sum size (size_list (\<lambda>p. size (snd p))))"
    using mapping_items_size [of val] by simp
next
  fix val x
  assume "\<not> isinstance val TyStr" "\<not> isinstance val TyBytes" "x \<in> set (sequence_items val)"
  then show "(Inl x, Inl val) \<in> measure (case_sum size (size_list (\<lambda>p. size (snd p))))"
    by (rule sequence_items_measure)
next
  fix attributes :: attributes and p
  assume "p \<in> set attributes"
  then show "(Inl (snd p), Inr attributes)
      \<in> measure (case_sum size (size_list (\<lambda>p. size (snd p))))"
    by (rule attributes_measure)
qed

declare encode_any_value.simps [simp del] encode_attributes.simps [simp del]

lemma encode_any_value_cases [simp]:
  "encode_any_value (VBool b) = Inr (JObj [(S ''boolValue'', JBool b)])"
  "encode_any_value (VInt i) = Inr (JObj [(S ''intValue'', JStr (u64 i))])"
  "encode_any_value (VFloat x) = Inr (JObj [(S ''doubleValue'', JFloat x)])"
  "encode_any_value (VStr s) = Inr (JObj [(S ''stringValue'', JStr s)])"
  "encode_any_value (VBytes bs) = Inr (JObj [(S ''bytesValue'', JStr (b64 bs))])"
  "encode_any_value (VMap kvs) = bindR (encode_attributes kvs)
     (\<lambda>vs. Inr (JObj [(S ''kvlistValue'', JObj [(S ''values'', JArr vs)])]))"
  "encode_any_value (VSeq xs) = bindR (mapR encode_any_value xs)
     (\<lambda>vs. Inr (JObj [(S ''arrayValue'', JObj [(S ''values'', JArr vs)])]))"
  "encode_any_value (VOther t) = Inl (TypeError (S ''unsupported attribute value type: '' @ t))"
  by (subst encode_any_value.simps; simp)+

lemma encode_attributes_Nil [simp]: "encode_attributes [] = Inr []"
  by (simp add: encode_attributes.simps)

lemma encode_attributes_Cons [simp]:
  "encode_attributes ((k, v) # kvs) =
     bindR (encode_any_value v) (\<lambda>j. bindR (encode_attributes kvs)
       (\<lambda>js. Inr (JObj [(S ''key'', JStr k), (S ''value'', j)] # js)))"
  by (cases "encode_any_value v") (simp_all add: encode_attributes.simps)

text \<open>Induction on attribute values that also covers the lists inside them.\<close>

lemma any_value_induct [case_names Bool Int Float Str Bytes Map Seq Other]:
  assumes "\<And>b. P (VBool b)" "\<And>i. P (VInt i)" "\<And>x. P (VFloat x)" "\<And>s. P (VStr s)"
    "\<And>bs. P (VBytes bs)"
    "\<And>kvs. (\<And>k v. (k, v) \<in> set kvs \<Longrightarrow> P v) \<Longrightarrow> P (VMap kvs)"
    "\<And>vs. (\<And>v. v \<in> set vs \<Longrightarrow> P v) \<Longrightarrow> P (VSeq vs)"
    "\<And>t. P (VOther t)"
  shows "P v"
proof (induction v)
  case (VMap kvs)
  then show ?case
    by (intro assms(6)) (auto intro: snds.intros)
qed (use assms in auto)

lemma encode_attributes_Inr_iff:
  "encode_attributes kvs = Inr js \<longleftrightarrow>
     list_all2 (\<lambda>(k, v) j. \<exists>jv. encode_any_value v = Inr jv \<and>
        JObj [(S ''key'', JStr k), (S ''value'', jv)] = j) kvs js"
  by (simp add: encode_attributes.simps res_simps case_prod_unfold)

subsection \<open>Reading attribute values back\<close>

fun obj_entry :: "json \<Rightarrow> (str \<times> json) option" where
  "obj_entry (JObj [(k, v)]) = Some (k, v)"
| "obj_entry _ = None"

fun values_of :: "json \<Rightarrow> json list option" where
  "values_of (JObj [(k, JArr vs)]) = (if k = S ''values'' then Some vs else None)"
| "values_of _ = None"

fun str_of_json :: "json \<Rightarrow> str option" where
  "str_of_json (JStr s) = Some s"
| "str_of_json _ = None"

definition key_value :: "json \<Rightarrow> (str \<times> json) option" where
  "key_value j =
     (case j of
        JObj [(k1, JStr k), (k2, v)] \<Rightarrow> if k1 = S ''key'' \<and> k2 = S ''value'' then Some (k, v) else None
      | _ \<Rightarrow> None)"

lemma obj_entry_size: "obj_entry j = Some (k, x) \<Longrightarrow> size x < size j"
  by (cases j rule: obj_entry.cases) auto

lemma values_of_size: "values_of x = Some js \<Longrightarrow> j \<in> set js \<Longrightarrow> size j < size x"
  using size_list_estimation' [of j js "size j" size]
  by (cases x rule: values_of.cases) (auto split: if_splits)

lemma key_value_size: "key_value j = Some (k, v) \<Longrightarrow> size v < size j"
  by (auto simp: key_value_def split: json.splits list.splits prod.splits if_splits)

text \<open>What a collector reads from an encoded attribute value.\<close>

function decode_any_value :: "json \<Rightarrow> any_value option" where
  "decode_any_value j =
     (case obj_entry j of
        None \<Rightarrow> None
      | Some (k, x) \<Rightarrow>
         if k = S ''boolValue'' then (case x of JBool b \<Rightarrow> Some (VBool b) | _ \<Rightarrow> None)
         else if k = S ''intValue'' then Option.bind (str_of_json x) (\<lambda>s. map_option VInt (parse_dec s))
         else if k = S ''doubleValue'' then (case x of JFloat y \<Rightarrow> Some (VFloat y) | _ \<Rightarrow> None)
         else if k = S ''stringValue'' then map_option VStr (str_of_json x)
         else if k = S ''bytesValue''
           then Option.bind (str_of_json x) (\<lambda>s. map_option VBytes (b64decode s))
         else if k = S ''kvlistValue'' then
           (case values_of x of
              None \<Rightarrow> None
            | Some js \<Rightarrow> map_option VMap (those (map (\<lambda>j'.
                (case key_value j' of
                   None \<Rightarrow> None
                 | Some (key, v) \<Rightarrow> map_option (Pair key) (decode_any_value v))) js)))
         else if k = S ''arrayValue'' then
           (case values_of x of
              None \<Rightarrow> None
            | Some js \<Rightarrow> map_option VSeq (those (map decode_any_value js)))
         else None)"
  by pat_completeness auto
termination
proof (relation "measure size")
  show "wf (measure (size :: json \<Rightarrow> nat))"
    by simp
next
  fix j p k x js j' q key v
  assume "obj_entry j = Some p" "(k, x) = p" "values_of x = Some js" "j' \<in> set js"
    "key_value j' = Some q" "(key, v) = q"
  then show "(v, j) \<in> measure size"
    using obj_entry_size [of j k x] values_of_size [of x js j'] key_value_size [of j' key v] by simp
next
  fix j p k x js j'
  assume "obj_entry j = Some p" "(k, x) = p" "values_of x = Some js" "j' \<in> set js"
  then show "(j', j) \<in> measure size"
    using obj_entry_size [of j k x] values_of_size [of x js j'] by simp
qed

declare decode_any_value.simps [simp del]

lemma those_map_Some: "(\<And>x. x \<in> set xs \<Longrightarrow> f x = Some (g x)) \<Longrightarrow> those (map f xs) = Some (map g xs)"
  by (induction xs) auto

lemma those_list_all2: "list_all2 (\<lambda>x y. f y = Some x) xs ys \<Longrightarrow> those (map f ys) = Some xs"
  by (induction xs ys rule: list_all2_induct) auto

lemma those_Some_iff: "those zs = Some xs \<longleftrightarrow> zs = map Some xs"
  by (induction zs arbitrary: xs) (auto split: option.splits)

text \<open>Encoding loses nothing: the reading of an encoded value is the value.\<close>

lemma decode_encode_any_value: "encode_any_value v = Inr j \<Longrightarrow> decode_any_value j = Some v"
proof (induction v arbitrary: j rule: any_value_induct)
  case (Map kvs)
  from Map.prems obtain vs where vs: "encode_attributes kvs = Inr vs"
    and j: "j = JObj [(S ''kvlistValue'', JObj [(S ''values'', JArr vs)])]"
    by (auto simp: res_simps)
  let ?dec = "\<lambda>j'. case key_value j' of None \<Rightarrow> None
    | Some (key, v) \<Rightarrow> map_option (Pair key) (decode_any_value v)"
  have "list_all2 (\<lambda>p j'. ?dec j' = Some p) kvs vs"
    using vs unfolding encode_attributes_Inr_iff
    by (rule list.rel_mono_strong) (auto simp: key_value_def Map.IH)
  then have "those (map ?dec vs) = Some kvs"
    by (rule those_list_all2)
  then show ?case
    by (subst decode_any_value.simps) (simp add: j)
next
  case (Seq xs)
  then obtain vs where vs: "list_all2 (\<lambda>x y. encode_any_value x = Inr y) xs vs"
    and j: "j = JObj [(S ''arrayValue'', JObj [(S ''values'', JArr vs)])]"
    by (auto simp: res_simps)
  have "list_all2 (\<lambda>x y. decode_any_value y = Some x) xs vs"
    using vs by (rule list.rel_mono_strong) (rule Seq.IH)
  then have "those (map decode_any_value vs) = Some xs"
    by (rule those_list_all2)
  then show ?case
    by (subst decode_any_value.simps) (simp add: j)
qed (auto simp: decode_any_value.simps u64_def parse_dec_dec_int b64_def b64decode_encode)

subsection \<open>Which values can be encoded\<close>

fun supported :: "any_value \<Rightarrow> bool" where
  "supported (VMap kvs) = list_all (\<lambda>p. supported (snd p)) kvs"
| "supported (VSeq vs) = list_all supported vs"
| "supported (VOther _) = False"
| "supported _ = True"

definition supported_attributes :: "attributes \<Rightarrow> bool" where
  "supported_attributes kvs \<longleftrightarrow> list_all (\<lambda>p. supported (snd p)) kvs"

lemma encode_any_value_error: "encode_any_value v = Inl e \<Longrightarrow> \<exists>m. e = TypeError m"
proof (induction v rule: any_value_induct)
  case (Map kvs)
  then show ?case
    by (auto simp: encode_attributes.simps bindR_Inl_iff dest!: mapR_Inl_imp)
next
  case (Seq vs)
  then show ?case
    by (auto simp: bindR_Inl_iff dest!: mapR_Inl_imp)
qed auto

lemma mapR_ok_iff: "(\<exists>ys. mapR f xs = Inr ys) \<longleftrightarrow> (\<forall>x \<in> set xs. \<exists>y. f x = Inr y)"
  by (induction xs) (auto simp: res_simps)

lemma encode_any_value_ok_iff: "(\<exists>j. encode_any_value v = Inr j) \<longleftrightarrow> supported v"
proof (induction v rule: any_value_induct)
  case (Map kvs)
  have "(\<exists>j. encode_any_value (VMap kvs) = Inr j) \<longleftrightarrow> (\<exists>js. encode_attributes kvs = Inr js)"
    by (auto simp: res_simps)
  also have "\<dots> \<longleftrightarrow> (\<forall>p \<in> set kvs. \<exists>j. encode_any_value (snd p) = Inr j)"
    by (auto simp: encode_attributes.simps mapR_ok_iff bindR_Inr_iff)
  also have "\<dots> \<longleftrightarrow> supported (VMap kvs)"
    using Map.IH by (fastforce simp: list_all_iff)
  finally show ?case .
next
  case (Seq vs)
  have "(\<exists>j. encode_any_value (VSeq vs) = Inr j) \<longleftrightarrow> (\<exists>js. mapR encode_any_value vs = Inr js)"
    by (auto simp: bindR_Inr_iff)
  also have "\<dots> \<longleftrightarrow> supported (VSeq vs)"
    using Seq.IH by (auto simp: mapR_ok_iff list_all_iff)
  finally show ?case .
qed auto

lemma encode_attributes_ok_iff:
  "(\<exists>js. encode_attributes kvs = Inr js) \<longleftrightarrow> supported_attributes kvs"
  by (auto simp: encode_attributes.simps mapR_ok_iff bindR_Inr_iff supported_attributes_def
      list_all_iff encode_any_value_ok_iff [symmetric])

lemma encode_attributes_error: "encode_attributes kvs = Inl e \<Longrightarrow> \<exists>m. e = TypeError m"
  by (auto simp: encode_attributes.simps bindR_Inl_iff dest!: mapR_Inl_imp encode_any_value_error)

lemma encode_attributes_Nil_iff: "encode_attributes kvs = Inr [] \<longleftrightarrow> kvs = []"
  by (auto simp: encode_attributes_Inr_iff)

text \<open>Reading an encoded attribute list back.\<close>

definition decode_key_value :: "json \<Rightarrow> (str \<times> any_value) option" where
  "decode_key_value j =
     (case key_value j of None \<Rightarrow> None | Some (k, v) \<Rightarrow> map_option (Pair k) (decode_any_value v))"

definition decode_attributes :: "json list \<Rightarrow> attributes option" where
  "decode_attributes js = those (map decode_key_value js)"

lemma decode_encode_attributes: "encode_attributes kvs = Inr js \<Longrightarrow> decode_attributes js = Some kvs"
proof -
  assume "encode_attributes kvs = Inr js"
  then have "list_all2 (\<lambda>p j. decode_key_value j = Some p) kvs js"
    unfolding encode_attributes_Inr_iff
    by (rule list.rel_mono_strong)
      (auto simp: decode_key_value_def key_value_def decode_encode_any_value)
  then show ?thesis
    unfolding decode_attributes_def by (rule those_list_all2)
qed

text \<open>
  C35. Attributes survive the JSON encoding: whatever the encoder writes for an attribute mapping,
  with nested mappings, sequences and bytes, a receiver that follows the protocol's JSON rules
  reads back exactly the mapping, in order.
\<close>

theorem attributes_roundtrip:
  assumes "encode_attributes kvs = Inr js"
  shows "decode_attributes js = Some kvs"
  using assms by (rule decode_encode_attributes)

lemma attributes_roundtrip_witness:
  "\<exists>js. encode_attributes [(S ''a'', VSeq [VBool True, VBytes [255]]), (S ''b'', VMap [(S ''c'', VInt (- 1))])] = Inr js \<and>
     decode_attributes js = Some [(S ''a'', VSeq [VBool True, VBytes [255]]), (S ''b'', VMap [(S ''c'', VInt (- 1))])]"
proof -
  obtain js where js: "encode_attributes [(S ''a'', VSeq [VBool True, VBytes [255]]),
      (S ''b'', VMap [(S ''c'', VInt (- 1))])] = Inr js"
    by simp
  with attributes_roundtrip [OF js] show ?thesis by blast
qed

text \<open>
  The scalar rules are loss-free for every value: a 64-bit field's decimal string reads back as
  the number, an id's hex and other bytes' base64 read back as the bytes, and ids of the
  protocol's lengths have 32 and 16 hex digits.
\<close>

theorem primitive_roundtrips:
  "parse_dec (u64 i) = Some i \<and> bytes_of_hex (hex_id bs) = Some bs \<and> b64decode (b64 bs) = Some bs \<and>
   length (hex_id bs) = 2 * length bs"
  by (simp add: u64_def hex_id_def b64_def parse_dec_dec_int bytes_of_hex_of_bytes b64decode_encode
      length_hex_of_bytes)

text \<open>
  \<^verbatim>\<open>omit_empty\<close> drops a field exactly when its value is \<^verbatim>\<open>None\<close>, an empty string or an empty
  container; a zero, \<^verbatim>\<open>False\<close> or \<open>-0.0\<close> stays, and the fields that stay keep value and order.
\<close>

theorem omit_empty_exact:
  "(k, v) \<in> set (omit_empty obj) \<longleftrightarrow>
     (k, v) \<in> set obj \<and> v \<noteq> JNull \<and> v \<noteq> JStr [] \<and> v \<noteq> JArr [] \<and> v \<noteq> JObj []"
  by (auto simp: omit_empty_def)

end
