(* ===== verification/JsonEncoder.thy ===== *)
theory JsonEncoder
  imports Json
begin

section \<open>The OTLP/JSON encoder\<close>

text \<open>
  \<^verbatim>\<open>encoding/json.py\<close>: one definition per \<^verbatim>\<open>_encode_\<dots>\<close> function, with its fields in the source's
  order, then the methods of \<^verbatim>\<open>JSONEncoder\<close>. A function that may raise returns a \<open>res\<close>; the
  first exception met in the source's evaluation order is the result. The printer of
  the document (\<^verbatim>\<open>_dumps\<close>) is the argument \<open>dumps\<close> here and the parser the argument \<open>loads\<close>; \<open>JsonText\<close>
  models both for the standard library.
\<close>

subsection \<open>Optional fields\<close>

text \<open>\<^verbatim>\<open>x or None\<close> for a number.\<close>

definition int_or_none :: "int \<Rightarrow> json" where
  "int_or_none i = (if i = 0 then JNull else JInt i)"

definition opt_u64 :: "int option \<Rightarrow> json" where
  "opt_u64 t = (case t of None \<Rightarrow> JNull | Some i \<Rightarrow> JStr (u64 i))"

definition opt_float :: "pyfloat option \<Rightarrow> json" where
  "opt_float x = (case x of None \<Rightarrow> JNull | Some f \<Rightarrow> JFloat f)"

text \<open>\<^verbatim>\<open>hex_id(b) if b else None\<close>: an empty id counts as none.\<close>

definition opt_id :: "bytes option \<Rightarrow> json" where
  "opt_id b = (case b of None \<Rightarrow> JNull | Some bs \<Rightarrow> if bs = [] then JNull else JStr (hex_id bs))"

definition opt_str :: "str option \<Rightarrow> json" where
  "opt_str s = (case s of None \<Rightarrow> JNull | Some t \<Rightarrow> JStr t)"

text \<open>A float field with implicit presence: dropped at \<open>+0.0\<close>, kept at \<open>-0.0\<close>.\<close>

definition implicit_float :: "pyfloat \<Rightarrow> json" where
  "implicit_float x = (if f_truthy x \<or> f_negative x then JFloat x else JNull)"

definition u64_list :: "int list \<Rightarrow> json" where
  "u64_list cs = JArr (map (\<lambda>c. JStr (u64 c)) cs)"

subsection \<open>Resource and scope\<close>

definition encode_resource :: "resource \<Rightarrow> json res" where
  "encode_resource r =
     bindR (encode_attributes (res_attributes r)) (\<lambda>attrs.
     Inr (JObj (omit_empty
       [(S ''attributes'', JArr attrs),
        (S ''droppedAttributesCount'', int_or_none (res_dropped r))])))"

definition encode_scope :: "instrumentation_scope \<Rightarrow> json res" where
  "encode_scope sc =
     bindR (encode_attributes (scope_attributes sc)) (\<lambda>attrs.
     Inr (JObj (omit_empty
       [(S ''name'', JStr (scope_name sc)),
        (S ''version'', opt_str (scope_version sc)),
        (S ''attributes'', JArr attrs)])))"

subsection \<open>Metrics\<close>

text \<open>The \<^verbatim>\<open>asInt\<close>/\<^verbatim>\<open>asDouble\<close> choice; a boolean is refused with the caller's message.\<close>

definition value_field :: "str \<Rightarrow> number \<Rightarrow> (str \<times> json) res" where
  "value_field message v =
     (case v of NBool _ \<Rightarrow> Inl (TypeError message)
      | NInt i \<Rightarrow> Inr (S ''asInt'', JStr (u64 i))
      | NFloat x \<Rightarrow> Inr (S ''asDouble'', JFloat x))"

definition exemplar_not_bool :: str where
  "exemplar_not_bool = S ''exemplar values must be int or float, not bool''"

definition point_not_bool :: str where
  "point_not_bool = S ''metric data point values must be int or float, not bool''"

definition encode_exemplar :: "exemplar \<Rightarrow> json res" where
  "encode_exemplar e =
     bindR (value_field exemplar_not_bool (ex_value e)) (\<lambda>fld.
     bindR (encode_attributes (ex_filtered_attributes e)) (\<lambda>attrs.
     Inr (JObj (omit_empty
       [(S ''filteredAttributes'', JArr attrs),
        (S ''timeUnixNano'', JStr (u64 (ex_time_unix_nano e))),
        fld,
        (S ''spanId'', opt_id (ex_span_id e)),
        (S ''traceId'', opt_id (ex_trace_id e))]))))"

definition encode_number_point :: "number_data_point \<Rightarrow> json res" where
  "encode_number_point p =
     bindR (value_field point_not_bool (np_value p)) (\<lambda>fld.
     bindR (encode_attributes (np_attributes p)) (\<lambda>attrs.
     bindR (mapR encode_exemplar (np_exemplars p)) (\<lambda>exemplars.
     Inr (JObj (omit_empty
       [(S ''attributes'', JArr attrs),
        (S ''startTimeUnixNano'', opt_u64 (np_start_time_unix_nano p)),
        (S ''timeUnixNano'', JStr (u64 (np_time_unix_nano p))),
        (S ''flags'', int_or_none (np_flags p)),
        (S ''exemplars'', JArr exemplars),
        fld])))))"

definition encode_histogram_point :: "histogram_data_point \<Rightarrow> json res" where
  "encode_histogram_point p =
     bindR (encode_attributes (hp_attributes p)) (\<lambda>attrs.
     bindR (mapR encode_exemplar (hp_exemplars p)) (\<lambda>exemplars.
     Inr (JObj (omit_empty
       [(S ''attributes'', JArr attrs),
        (S ''startTimeUnixNano'', opt_u64 (hp_start_time_unix_nano p)),
        (S ''timeUnixNano'', JStr (u64 (hp_time_unix_nano p))),
        (S ''count'', JStr (u64 (hp_count p))),
        (S ''sum'', opt_float (hp_sum p)),
        (S ''bucketCounts'', u64_list (hp_bucket_counts p)),
        (S ''explicitBounds'', JArr (map JFloat (hp_explicit_bounds p))),
        (S ''flags'', int_or_none (hp_flags p)),
        (S ''exemplars'', JArr exemplars),
        (S ''min'', opt_float (hp_min p)),
        (S ''max'', opt_float (hp_max p))]))))"

definition encode_buckets :: "buckets \<Rightarrow> json" where
  "encode_buckets b = JObj (omit_empty
     [(S ''offset'', int_or_none (bk_offset b)),
      (S ''bucketCounts'', u64_list (bk_bucket_counts b))])"

definition encode_exponential_point :: "exponential_data_point \<Rightarrow> json res" where
  "encode_exponential_point p =
     bindR (encode_attributes (ep_attributes p)) (\<lambda>attrs.
     bindR (mapR encode_exemplar (ep_exemplars p)) (\<lambda>exemplars.
     Inr (JObj (omit_empty
       [(S ''attributes'', JArr attrs),
        (S ''startTimeUnixNano'', opt_u64 (ep_start_time_unix_nano p)),
        (S ''timeUnixNano'', JStr (u64 (ep_time_unix_nano p))),
        (S ''count'', JStr (u64 (ep_count p))),
        (S ''sum'', opt_float (ep_sum p)),
        (S ''scale'', int_or_none (ep_scale p)),
        (S ''zeroCount'', if ep_zero_count p \<noteq> 0 then JStr (u64 (ep_zero_count p)) else JNull),
        (S ''positive'', encode_buckets (ep_positive p)),
        (S ''negative'', encode_buckets (ep_negative p)),
        (S ''min'', opt_float (ep_min p)),
        (S ''max'', opt_float (ep_max p)),
        (S ''flags'', int_or_none (ep_flags p)),
        (S ''exemplars'', JArr exemplars),
        (S ''zeroThreshold'', implicit_float (ep_zero_threshold p))]))))"

definition encode_quantile :: "value_at_quantile \<Rightarrow> json" where
  "encode_quantile q =
     JObj [(S ''quantile'', JFloat (vq_quantile q)), (S ''value'', JFloat (vq_value q))]"

definition encode_summary_point :: "summary_data_point \<Rightarrow> json res" where
  "encode_summary_point p =
     bindR (encode_attributes (sp_attributes p)) (\<lambda>attrs.
     Inr (JObj (omit_empty
       [(S ''attributes'', JArr attrs),
        (S ''startTimeUnixNano'', opt_u64 (sp_start_time_unix_nano p)),
        (S ''timeUnixNano'', JStr (u64 (sp_time_unix_nano p))),
        (S ''count'', JStr (u64 (sp_count p))),
        (S ''sum'', implicit_float (sp_sum p)),
        (S ''quantileValues'', JArr (map encode_quantile (sp_quantile_values p))),
        (S ''flags'', int_or_none (sp_flags p))])))"

definition encode_metric_data :: "metric_data \<Rightarrow> (str \<times> json) res" where
  "encode_metric_data data =
     (case data of
        Gauge points \<Rightarrow> bindR (mapR encode_number_point points) (\<lambda>ps.
          Inr (S ''gauge'', JObj [(S ''dataPoints'', JArr ps)]))
      | Sum points temporality monotonic \<Rightarrow> bindR (mapR encode_number_point points) (\<lambda>ps.
          Inr (S ''sum'', JObj
            [(S ''dataPoints'', JArr ps),
             (S ''aggregationTemporality'', JInt (temporality_int temporality)),
             (S ''isMonotonic'', JBool monotonic)]))
      | Histogram points temporality \<Rightarrow> bindR (mapR encode_histogram_point points) (\<lambda>ps.
          Inr (S ''histogram'', JObj
            [(S ''dataPoints'', JArr ps),
             (S ''aggregationTemporality'', JInt (temporality_int temporality))]))
      | ExponentialHistogram points temporality \<Rightarrow>
          bindR (mapR encode_exponential_point points) (\<lambda>ps.
          Inr (S ''exponentialHistogram'', JObj
            [(S ''dataPoints'', JArr ps),
             (S ''aggregationTemporality'', JInt (temporality_int temporality))]))
      | Summary points \<Rightarrow> bindR (mapR encode_summary_point points) (\<lambda>ps.
          Inr (S ''summary'', JObj [(S ''dataPoints'', JArr ps)])))"

definition encode_metric :: "metric \<Rightarrow> json res" where
  "encode_metric m =
     bindR (encode_metric_data (mt_data m)) (\<lambda>body.
     Inr (JObj (omit_empty
       [(S ''name'', JStr (mt_name m)),
        (S ''description'', JStr (mt_description m)),
        (S ''unit'', JStr (mt_unit m)),
        body])))"

definition encode_scope_metrics :: "scope_metrics \<Rightarrow> json res" where
  "encode_scope_metrics sm =
     bindR (encode_scope (sm_scope sm)) (\<lambda>sc.
     bindR (mapR encode_metric (sm_metrics sm)) (\<lambda>ms.
     Inr (JObj (omit_empty [(S ''scope'', sc), (S ''metrics'', JArr ms)]))))"

definition encode_one_resource_metrics :: "resource_metrics \<Rightarrow> json res" where
  "encode_one_resource_metrics rm =
     bindR (encode_resource (rm_resource rm)) (\<lambda>r.
     bindR (mapR encode_scope_metrics (rm_scope_metrics rm)) (\<lambda>sms.
     Inr (JObj (omit_empty [(S ''resource'', r), (S ''scopeMetrics'', JArr sms)]))))"

definition encode_resource_metrics :: "resource_metrics list \<Rightarrow> json res" where
  "encode_resource_metrics data =
     bindR (mapR encode_one_resource_metrics data) (\<lambda>rms.
     Inr (JObj [(S ''resourceMetrics'', JArr rms)]))"

subsection \<open>Logs\<close>

definition encode_log_record :: "log_record \<Rightarrow> json res" where
  "encode_log_record r =
     bindR (encode_any_value (lr_body r)) (\<lambda>body.
     bindR (encode_attributes (lr_attributes r)) (\<lambda>attrs.
     Inr (JObj (omit_empty
       [(S ''timeUnixNano'', JStr (u64 (lr_time_unix_nano r))),
        (S ''observedTimeUnixNano'', JStr (u64 (lr_observed_time_unix_nano r))),
        (S ''severityNumber'', int_or_none (severity_int (lr_severity_number r))),
        (S ''severityText'', JStr (lr_severity_text r)),
        (S ''body'', body),
        (S ''attributes'', JArr attrs),
        (S ''traceId'', opt_id (lr_trace_id r)),
        (S ''spanId'', opt_id (lr_span_id r)),
        (S ''eventName'', JStr (lr_event_name r)),
        (S ''flags'', int_or_none (lr_flags r))]))))"

definition encode_scope_logs :: "scope_logs \<Rightarrow> json res" where
  "encode_scope_logs sl =
     bindR (encode_scope (sl_scope sl)) (\<lambda>sc.
     bindR (mapR encode_log_record (sl_log_records sl)) (\<lambda>rs.
     Inr (JObj (omit_empty [(S ''scope'', sc), (S ''logRecords'', JArr rs)]))))"

definition encode_one_resource_logs :: "resource_logs \<Rightarrow> json res" where
  "encode_one_resource_logs rl =
     bindR (encode_resource (rl_resource rl)) (\<lambda>r.
     bindR (mapR encode_scope_logs (rl_scope_logs rl)) (\<lambda>sls.
     Inr (JObj (omit_empty [(S ''resource'', r), (S ''scopeLogs'', JArr sls)]))))"

definition encode_resource_logs :: "resource_logs list \<Rightarrow> json res" where
  "encode_resource_logs data =
     bindR (mapR encode_one_resource_logs data) (\<lambda>rls.
     Inr (JObj [(S ''resourceLogs'', JArr rls)]))"

subsection \<open>Traces\<close>

definition encode_span_event :: "span_event \<Rightarrow> json res" where
  "encode_span_event e =
     bindR (encode_attributes (ev_attributes e)) (\<lambda>attrs.
     Inr (JObj (omit_empty
       [(S ''timeUnixNano'', JStr (u64 (ev_time_unix_nano e))),
        (S ''name'', JStr (ev_name e)),
        (S ''attributes'', JArr attrs)])))"

definition encode_span_link :: "span_link \<Rightarrow> json res" where
  "encode_span_link l =
     bindR (encode_attributes (ln_attributes l)) (\<lambda>attrs.
     Inr (JObj (omit_empty
       [(S ''traceId'', JStr (hex_id (ln_trace_id l))),
        (S ''spanId'', JStr (hex_id (ln_span_id l))),
        (S ''traceState'', JStr (ln_trace_state l)),
        (S ''flags'', int_or_none (ln_flags l)),
        (S ''attributes'', JArr attrs)])))"

definition encode_status :: "span_status option \<Rightarrow> json" where
  "encode_status status =
     (case status of None \<Rightarrow> JNull
      | Some s \<Rightarrow> JObj (omit_empty
          [(S ''code'', int_or_none (status_code_int (st_code s))),
           (S ''message'', JStr (st_message s))]))"

definition encode_span :: "span \<Rightarrow> json res" where
  "encode_span s =
     bindR (encode_attributes (sn_attributes s)) (\<lambda>attrs.
     bindR (mapR encode_span_event (sn_events s)) (\<lambda>events.
     bindR (mapR encode_span_link (sn_links s)) (\<lambda>links.
     Inr (JObj (omit_empty
       [(S ''traceId'', JStr (hex_id (sn_trace_id s))),
        (S ''spanId'', JStr (hex_id (sn_span_id s))),
        (S ''parentSpanId'', opt_id (sn_parent_span_id s)),
        (S ''name'', JStr (sn_name s)),
        (S ''kind'', int_or_none (span_kind_int (sn_kind s))),
        (S ''startTimeUnixNano'', JStr (u64 (sn_start_time_unix_nano s))),
        (S ''endTimeUnixNano'', JStr (u64 (sn_end_time_unix_nano s))),
        (S ''traceState'', JStr (sn_trace_state s)),
        (S ''flags'', int_or_none (sn_flags s)),
        (S ''attributes'', JArr attrs),
        (S ''events'', JArr events),
        (S ''links'', JArr links),
        (S ''status'', encode_status (sn_status s))])))))"

definition encode_scope_spans :: "scope_spans \<Rightarrow> json res" where
  "encode_scope_spans ss =
     bindR (encode_scope (ss_scope ss)) (\<lambda>sc.
     bindR (mapR encode_span (ss_spans ss)) (\<lambda>sps.
     Inr (JObj (omit_empty [(S ''scope'', sc), (S ''spans'', JArr sps)]))))"

definition encode_one_resource_spans :: "resource_spans \<Rightarrow> json res" where
  "encode_one_resource_spans rs =
     bindR (encode_resource (rs_resource rs)) (\<lambda>r.
     bindR (mapR encode_scope_spans (rs_scope_spans rs)) (\<lambda>sss.
     Inr (JObj (omit_empty [(S ''resource'', r), (S ''scopeSpans'', JArr sss)]))))"

definition encode_resource_spans :: "resource_spans list \<Rightarrow> json res" where
  "encode_resource_spans data =
     bindR (mapR encode_one_resource_spans data) (\<lambda>rss.
     Inr (JObj [(S ''resourceSpans'', JArr rss)]))"

subsection \<open>The encoder's methods\<close>

text \<open>
  The argument of \<^verbatim>\<open>encode\<close>: a sequence of the envelopes of one signal. Given the envelopes of
  another signal, the code encodes the first resource and then fails on the attribute the
  envelope does not have.
\<close>

datatype envelope =
    MetricsData "resource_metrics list"
  | LogsData "resource_logs list"
  | TracesData "resource_spans list"

definition no_attribute :: "str \<Rightarrow> str \<Rightarrow> exn" where
  "no_attribute cls attr = OtherException (S ''AttributeError'')
     (S [CHR 0x27] @ cls @ S [CHR 0x27] @ S '' object has no attribute '' @
      S [CHR 0x27] @ attr @ S [CHR 0x27])"

definition wrong_envelope :: "resource list \<Rightarrow> str \<Rightarrow> str \<Rightarrow> json \<Rightarrow> json res" where
  "wrong_envelope resources cls attr emptied =
     (case resources of [] \<Rightarrow> Inr emptied
      | r # _ \<Rightarrow> bindR (encode_resource r) (\<lambda>_. Inl (no_attribute cls attr)))"

definition metrics_document :: "envelope \<Rightarrow> json res" where
  "metrics_document data =
     (case data of
        MetricsData ms \<Rightarrow> encode_resource_metrics ms
      | LogsData ls \<Rightarrow> wrong_envelope (map rl_resource ls) (S ''ResourceLogs'')
          (S ''scope_metrics'') (JObj [(S ''resourceMetrics'', JArr [])])
      | TracesData ts \<Rightarrow> wrong_envelope (map rs_resource ts) (S ''ResourceSpans'')
          (S ''scope_metrics'') (JObj [(S ''resourceMetrics'', JArr [])]))"

definition logs_document :: "envelope \<Rightarrow> json res" where
  "logs_document data =
     (case data of
        MetricsData ms \<Rightarrow> wrong_envelope (map rm_resource ms) (S ''ResourceMetrics'')
          (S ''scope_logs'') (JObj [(S ''resourceLogs'', JArr [])])
      | LogsData ls \<Rightarrow> encode_resource_logs ls
      | TracesData ts \<Rightarrow> wrong_envelope (map rs_resource ts) (S ''ResourceSpans'')
          (S ''scope_logs'') (JObj [(S ''resourceLogs'', JArr [])]))"

definition traces_document :: "envelope \<Rightarrow> json res" where
  "traces_document data =
     (case data of
        MetricsData ms \<Rightarrow> wrong_envelope (map rm_resource ms) (S ''ResourceMetrics'')
          (S ''scope_spans'') (JObj [(S ''resourceSpans'', JArr [])])
      | LogsData ls \<Rightarrow> wrong_envelope (map rl_resource ls) (S ''ResourceLogs'')
          (S ''scope_spans'') (JObj [(S ''resourceSpans'', JArr [])])
      | TracesData ts \<Rightarrow> encode_resource_spans ts)"

definition profiles_unsupported :: str where
  "profiles_unsupported =
     S ''the profiles signal is still in development and is not encoded yet''"

definition json_document :: "signal_kind \<Rightarrow> envelope \<Rightarrow> json res" where
  "json_document kind data =
     (case kind of
        METRICS \<Rightarrow> metrics_document data
      | LOGS \<Rightarrow> logs_document data
      | TRACES \<Rightarrow> traces_document data
      | PROFILES \<Rightarrow> Inl (NotImplementedError profiles_unsupported))"

definition json_content_type :: str where
  "json_content_type = S ''application/json''"

definition json_encode :: "(json \<Rightarrow> bytes res) \<Rightarrow> signal_kind \<Rightarrow> envelope \<Rightarrow> bytes res" where
  "json_encode dumps kind data = bindR (json_document kind data) dumps"

subsection \<open>Reading a response\<close>

fun rejected_key :: "signal_kind \<Rightarrow> str" where
  "rejected_key METRICS = S ''rejectedDataPoints''"
| "rejected_key LOGS = S ''rejectedLogRecords''"
| "rejected_key TRACES = S ''rejectedSpans''"
| "rejected_key PROFILES = S ''rejectedProfiles''"

text \<open>\<^verbatim>\<open>int(x)\<close> of a parsed JSON value.\<close>

fun json_int :: "json \<Rightarrow> int res" where
  "json_int (JInt i) = Inr i"
| "json_int (JBool b) = Inr (if b then 1 else 0)"
| "json_int (JFloat x) = py_int_of_float x"
| "json_int (JStr s) =
     (case py_int_of_str s of Some i \<Rightarrow> Inr i
      | None \<Rightarrow> Inl (ValueError (S ''invalid literal for int() with base 10: '' @ repr_str s)))"
| "json_int _ = Inl (TypeError (S ''int() argument must be a string, a bytes-like object or a real number''))"

text \<open>\<^verbatim>\<open>str(x)\<close>; how a float or a container prints is the parameter \<open>show_other\<close>.\<close>

fun json_str :: "(json \<Rightarrow> str) \<Rightarrow> json \<Rightarrow> str" where
  "json_str show_other (JStr s) = s"
| "json_str show_other (JInt i) = dec_int i"
| "json_str show_other (JBool b) = (if b then S ''True'' else S ''False'')"
| "json_str show_other JNull = S ''None''"
| "json_str show_other j = show_other j"

definition dict_get_default :: "jobj \<Rightarrow> str \<Rightarrow> json \<Rightarrow> json" where
  "dict_get_default d k j = (case map_of d k of None \<Rightarrow> j | Some v \<Rightarrow> v)"

definition rejected_count :: "json \<Rightarrow> int res" where
  "rejected_count j =
     (case json_int j of
        Inl (TypeError _) \<Rightarrow> Inr 0
      | Inl (ValueError _) \<Rightarrow> Inr 0
      | r \<Rightarrow> r)"

definition json_decode_response ::
  "(bytes \<Rightarrow> json res) \<Rightarrow> (json \<Rightarrow> str) \<Rightarrow> signal_kind \<Rightarrow> bytes \<Rightarrow> outcome option res" where
  "json_decode_response loads show_other kind body =
     (if body = [] then Inr None
      else case loads body of
        Inl (ValueError _) \<Rightarrow> Inr None
      | Inl e \<Rightarrow> Inl e
      | Inr (JObj doc) \<Rightarrow>
          (case map_of doc (S ''partialSuccess'') of
             Some (JObj partial) \<Rightarrow>
               if partial = [] then Inr None
               else bindR (rejected_count (dict_get_default partial (rejected_key kind) (JInt 0)))
                 (\<lambda>rejected. Inr (Some (PartialSuccess rejected
                   (json_str show_other
                     (dict_get_default partial (S ''errorMessage'') (JStr []))))))
           | _ \<Rightarrow> Inr None)
      | Inr _ \<Rightarrow> Inr None)"

lemma json_decode_empty: "json_decode_response loads show_other kind [] = Inr None"
  by (simp add: json_decode_response_def)

lemma rejected_key_inj: "rejected_key k = rejected_key l \<longleftrightarrow> k = l"
  by (cases k; cases l) simp_all

lemma json_int_error: "json_int j = Inl e \<Longrightarrow> (\<exists>m. e = TypeError m) \<or> (\<exists>m. e = ValueError m) \<or>
    (j = JFloat PInf \<or> j = JFloat NInf) \<and> (\<exists>m. e = OverflowError m)"
  by (cases j rule: json_int.cases) (auto simp: py_int_of_float_def split: option.splits pyfloat.splits)

lemma rejected_count_error: "rejected_count j = Inl e \<longleftrightarrow> json_int j = Inl e \<and> (\<exists>m. e = OverflowError m)"
  using json_int_error [of j e] by (auto simp: rejected_count_def split: sum.splits exn.splits)

subsection \<open>Which envelopes can be encoded\<close>

text \<open>A measurement is not a boolean, and every attribute value is of a supported type.\<close>

fun is_measurement :: "number \<Rightarrow> bool" where
  "is_measurement (NBool _) = False"
| "is_measurement _ = True"

definition exemplar_ok :: "exemplar \<Rightarrow> bool" where
  "exemplar_ok e \<longleftrightarrow> is_measurement (ex_value e) \<and> supported_attributes (ex_filtered_attributes e)"

definition number_point_ok :: "number_data_point \<Rightarrow> bool" where
  "number_point_ok p \<longleftrightarrow> is_measurement (np_value p) \<and> supported_attributes (np_attributes p) \<and>
     list_all exemplar_ok (np_exemplars p)"

fun metric_data_ok :: "metric_data \<Rightarrow> bool" where
  "metric_data_ok (Gauge points) = list_all number_point_ok points"
| "metric_data_ok (Sum points _ _) = list_all number_point_ok points"
| "metric_data_ok (Histogram points _) = list_all (\<lambda>p.
     supported_attributes (hp_attributes p) \<and> list_all exemplar_ok (hp_exemplars p)) points"
| "metric_data_ok (ExponentialHistogram points _) = list_all (\<lambda>p.
     supported_attributes (ep_attributes p) \<and> list_all exemplar_ok (ep_exemplars p)) points"
| "metric_data_ok (Summary points) = list_all (\<lambda>p. supported_attributes (sp_attributes p)) points"

definition log_record_ok :: "log_record \<Rightarrow> bool" where
  "log_record_ok r \<longleftrightarrow> supported (lr_body r) \<and> supported_attributes (lr_attributes r)"

definition span_ok :: "span \<Rightarrow> bool" where
  "span_ok s \<longleftrightarrow> supported_attributes (sn_attributes s) \<and>
     list_all (\<lambda>e. supported_attributes (ev_attributes e)) (sn_events s) \<and>
     list_all (\<lambda>l. supported_attributes (ln_attributes l)) (sn_links s)"

fun envelope_ok :: "envelope \<Rightarrow> bool" where
  "envelope_ok (MetricsData ms) = list_all (\<lambda>rm. supported_attributes (res_attributes (rm_resource rm)) \<and>
     list_all (\<lambda>sm. supported_attributes (scope_attributes (sm_scope sm)) \<and>
       list_all (\<lambda>m. metric_data_ok (mt_data m)) (sm_metrics sm)) (rm_scope_metrics rm)) ms"
| "envelope_ok (LogsData ls) = list_all (\<lambda>rl. supported_attributes (res_attributes (rl_resource rl)) \<and>
     list_all (\<lambda>sl. supported_attributes (scope_attributes (sl_scope sl)) \<and>
       list_all log_record_ok (sl_log_records sl)) (rl_scope_logs rl)) ls"
| "envelope_ok (TracesData ts) = list_all (\<lambda>rs. supported_attributes (res_attributes (rs_resource rs)) \<and>
     list_all (\<lambda>ss. supported_attributes (scope_attributes (ss_scope ss)) \<and>
       list_all span_ok (ss_spans ss)) (rs_scope_spans rs)) ts"

fun envelope_kind :: "envelope \<Rightarrow> signal_kind" where
  "envelope_kind (MetricsData _) = METRICS"
| "envelope_kind (LogsData _) = LOGS"
| "envelope_kind (TracesData _) = TRACES"

definition returns :: "'a res \<Rightarrow> bool" where
  "returns r \<longleftrightarrow> (\<exists>a. r = Inr a)"

named_theorems returns_simps \<open>when an encoding function returns\<close>

lemma returns_Inr [returns_simps]: "returns (Inr a)" and returns_Inl [returns_simps]: "\<not> returns (Inl e)"
  by (simp_all add: returns_def)

lemma returns_mapR [returns_simps]: "returns (mapR f xs) \<longleftrightarrow> list_all (\<lambda>x. returns (f x)) xs"
  by (auto simp: returns_def mapR_ok_iff list_all_iff)

lemma returns_bindR: "(\<And>a. returns (f a)) \<Longrightarrow> returns (bindR m f) \<longleftrightarrow> returns m"
  by (cases m) (auto simp: returns_def)

lemma returns_bindR_const: "(\<And>a. returns (f a) \<longleftrightarrow> c) \<Longrightarrow> returns (bindR m f) \<longleftrightarrow> returns m \<and> c"
  by (cases m) (auto simp: returns_def)

lemma returns_attributes [returns_simps]: "returns (encode_attributes kvs) \<longleftrightarrow> supported_attributes kvs"
  by (simp add: returns_def encode_attributes_ok_iff)

lemma returns_any_value [returns_simps]: "returns (encode_any_value v) \<longleftrightarrow> supported v"
  by (simp add: returns_def encode_any_value_ok_iff)

lemma returns_value_field [returns_simps]: "returns (value_field msg v) \<longleftrightarrow> is_measurement v"
  by (cases v) (simp_all add: value_field_def returns_def)

lemma returns_resource [returns_simps]:
  "returns (encode_resource r) \<longleftrightarrow> supported_attributes (res_attributes r)"
  by (simp add: encode_resource_def returns_bindR returns_simps)

lemma returns_scope [returns_simps]:
  "returns (encode_scope sc) \<longleftrightarrow> supported_attributes (scope_attributes sc)"
  by (simp add: encode_scope_def returns_bindR returns_simps)

lemma returns_exemplar [returns_simps]: "returns (encode_exemplar e) \<longleftrightarrow> exemplar_ok e"
  by (simp add: encode_exemplar_def exemplar_ok_def returns_bindR returns_bindR_const returns_simps)

lemma returns_number_point [returns_simps]:
  "returns (encode_number_point p) \<longleftrightarrow> number_point_ok p"
  by (simp add: encode_number_point_def number_point_ok_def returns_bindR_const returns_simps)

lemma returns_histogram_point [returns_simps]:
  "returns (encode_histogram_point p) \<longleftrightarrow>
     supported_attributes (hp_attributes p) \<and> list_all exemplar_ok (hp_exemplars p)"
  by (simp add: encode_histogram_point_def returns_bindR_const returns_simps)

lemma returns_exponential_point [returns_simps]:
  "returns (encode_exponential_point p) \<longleftrightarrow>
     supported_attributes (ep_attributes p) \<and> list_all exemplar_ok (ep_exemplars p)"
  by (simp add: encode_exponential_point_def returns_bindR_const returns_simps)

lemma returns_summary_point [returns_simps]:
  "returns (encode_summary_point p) \<longleftrightarrow> supported_attributes (sp_attributes p)"
  by (simp add: encode_summary_point_def returns_bindR_const returns_simps)

lemma returns_metric [returns_simps]: "returns (encode_metric m) \<longleftrightarrow> metric_data_ok (mt_data m)"
  by (cases "mt_data m")
    (simp_all add: encode_metric_def encode_metric_data_def returns_bindR_const returns_simps)

lemma returns_log_record [returns_simps]: "returns (encode_log_record r) \<longleftrightarrow> log_record_ok r"
  by (simp add: encode_log_record_def log_record_ok_def returns_bindR_const returns_simps)

lemma returns_span [returns_simps]: "returns (encode_span s) \<longleftrightarrow> span_ok s"
  by (simp add: encode_span_def encode_span_event_def encode_span_link_def span_ok_def
      returns_bindR_const returns_simps)

lemmas encode_envelope_defs = encode_resource_metrics_def encode_one_resource_metrics_def
  encode_scope_metrics_def encode_resource_logs_def encode_one_resource_logs_def
  encode_scope_logs_def encode_resource_spans_def encode_one_resource_spans_def
  encode_scope_spans_def

text \<open>
  C25. An envelope of a signal's own kind is encoded exactly when every attribute value in it,
  at any depth, is of a supported type and no measurement is a boolean; the profiles signal is
  always refused with \<^verbatim>\<open>NotImplementedError\<close>.
\<close>

theorem json_document_returns_iff:
  "((\<exists>j. json_document (envelope_kind data) data = Inr j) \<longleftrightarrow> envelope_ok data) \<and>
   json_document PROFILES data = Inl (NotImplementedError profiles_unsupported)"
proof -
  have "returns (json_document (envelope_kind data) data) \<longleftrightarrow> envelope_ok data"
    by (cases data)
      (simp_all add: json_document_def metrics_document_def logs_document_def
        traces_document_def encode_envelope_defs returns_bindR_const returns_simps)
  then show ?thesis
    by (simp add: returns_def json_document_def)
qed

lemma rejected_count_infinite:
  "rejected_count j = Inl e \<Longrightarrow> (\<exists>m. e = OverflowError m) \<and> j \<in> {JFloat PInf, JFloat NInf}"
  using json_int_error [of j e] by (auto simp: rejected_count_error)

text \<open>
  Reading a response never fails on what the collector writes, with one exception: for a
  parser that raises only \<^verbatim>\<open>ValueError\<close>, the result is no partial success, or a partial success with
  the reported count and message, unless the count is an infinite float; then the conversion's
  \<^verbatim>\<open>OverflowError\<close> escapes.
\<close>

theorem json_decode_response_total:
  assumes "\<And>e. loads body = Inl e \<Longrightarrow> \<exists>m. e = ValueError m"
  shows "(case json_decode_response loads show_other kind body of
      Inr None \<Rightarrow> True
    | Inr (Some r) \<Rightarrow> body \<noteq> [] \<and> (\<exists>doc partial. loads body = Inr (JObj doc) \<and>
        map_of doc (S ''partialSuccess'') = Some (JObj partial) \<and> partial \<noteq> [] \<and>
        Inr (ps_rejected r) = rejected_count (dict_get_default partial (rejected_key kind) (JInt 0)) \<and>
        r = PartialSuccess (ps_rejected r)
          (json_str show_other (dict_get_default partial (S ''errorMessage'') (JStr []))))
    | Inl e \<Rightarrow> (\<exists>m. e = OverflowError m) \<and> (\<exists>doc partial. loads body = Inr (JObj doc) \<and>
        map_of doc (S ''partialSuccess'') = Some (JObj partial) \<and>
        map_of partial (rejected_key kind) \<in> {Some (JFloat PInf), Some (JFloat NInf)}))"
proof -
  consider "body = []" | e where "body \<noteq> []" "loads body = Inl e"
    | j where "body \<noteq> []" "loads body = Inr j" "\<nexists>doc partial. j = JObj doc \<and>
        map_of doc (S ''partialSuccess'') = Some (JObj partial) \<and> partial \<noteq> []"
    | doc partial where "body \<noteq> []" "loads body = Inr (JObj doc)"
        "map_of doc (S ''partialSuccess'') = Some (JObj partial)" "partial \<noteq> []"
    by (cases "loads body") auto
  then show ?thesis
  proof cases
    case 1
    then show ?thesis by (simp add: json_decode_response_def)
  next
    case 2
    then show ?thesis
      using assms [of e] by (auto simp: json_decode_response_def)
  next
    case 3
    then show ?thesis
      by (auto simp: json_decode_response_def split: json.split option.split)
  next
    case 4
    let ?count = "rejected_count (dict_get_default partial (rejected_key kind) (JInt 0))"
    show ?thesis
    proof (cases ?count)
      case (Inl e)
      with 4 rejected_count_infinite [OF Inl] show ?thesis
        by (auto simp: json_decode_response_def dict_get_default_def split: option.splits)
    next
      case (Inr n)
      with 4 show ?thesis
        by (simp add: json_decode_response_def)
    qed
  qed
qed

definition sample_partial_success :: jobj where
  "sample_partial_success = [(S ''partialSuccess'', JObj
     [(S ''rejectedSpans'', JInt 2), (S ''errorMessage'', JStr (S ''full''))])]"

lemma json_decode_response_total_witness:
  "json_decode_response (\<lambda>_. Inr (JObj sample_partial_success)) (\<lambda>_. []) TRACES [0] =
     Inr (Some (PartialSuccess 2 (S ''full'')))"
  using json_decode_response_total [where
    loads = "\<lambda>_. Inr (JObj sample_partial_success)" and body = "[0]" and show_other = "\<lambda>_. []"
    and kind = TRACES]
  by (simp add: json_decode_response_def sample_partial_success_def dict_get_default_def
      rejected_count_def)

subsection \<open>The encoder interface\<close>

text \<open>What the transports and the client rely on (\<^verbatim>\<open>encoding/base.py\<close>).\<close>

locale otlp_encoder =
  fixes encode :: "signal_kind \<Rightarrow> envelope \<Rightarrow> bytes res"
    and decode :: "signal_kind \<Rightarrow> bytes \<Rightarrow> outcome option res"
  assumes decode_empty: "decode kind [] = Inr None"
    and decode_partial: "decode kind body = Inr (Some r) \<Longrightarrow> \<exists>n m. r = PartialSuccess n m"
    and encode_profiles: "encode PROFILES data = Inl (NotImplementedError profiles_unsupported)"
begin

text \<open>\<^verbatim>\<open>decode_response(...) or Success()\<close>.\<close>

definition response_outcome :: "signal_kind \<Rightarrow> bytes \<Rightarrow> outcome res" where
  "response_outcome kind body =
     bindR (decode kind body) (\<lambda>r. Inr (case r of None \<Rightarrow> Success | Some p \<Rightarrow> p))"

lemma response_outcome_delivered: "response_outcome kind body = Inr r \<Longrightarrow> is_delivered r"
  using decode_partial [of kind body]
  by (cases "decode kind body"; cases "projr (decode kind body)")
    (auto simp: response_outcome_def)

lemma response_outcome_empty: "response_outcome kind [] = Inr Success"
  by (simp add: response_outcome_def decode_empty)

end

lemma json_decode_partial:
  "json_decode_response loads show_other kind body = Inr (Some r) \<Longrightarrow> \<exists>n m. r = PartialSuccess n m"
  by (auto simp: json_decode_response_def bindR_Inr_iff
      split: if_splits sum.splits exn.splits json.splits option.splits)

interpretation json_encoder: otlp_encoder "json_encode dumps" "json_decode_response loads show_other"
  for dumps loads show_other
  by unfold_locales
    (rule json_decode_empty, erule json_decode_partial, simp add: json_encode_def json_document_def)

end
