(* ===== verification/ProtoEncoder.thy ===== *)
theory ProtoEncoder
  imports JsonEncoder
begin

section \<open>The OTLP/protobuf encoder\<close>

text \<open>
  \<^verbatim>\<open>encoding/protobuf.py\<close>. The generated message classes are not part of the repository: a call
  of a constructor with keyword arguments is the tree \<open>PMsg\<close> of the message's name and the
  arguments in the source's order, and what the classes do with such a tree (range checks and
  serialisation, \<^verbatim>\<open>FromString\<close> of a response) is a parameter.
\<close>

datatype pb =
    PNone
  | PBool bool
  | PInt int
  | PFloat pyfloat
  | PStr str
  | PBytes bytes
  | PList "pb list"
  | PMsg str "(str \<times> pb) list"

subsection \<open>Attribute values\<close>

fun pb_scalar :: "any_value \<Rightarrow> pb" where
  "pb_scalar (VBool b) = PBool b"
| "pb_scalar (VInt i) = PInt i"
| "pb_scalar (VFloat x) = PFloat x"
| "pb_scalar (VStr s) = PStr s"
| "pb_scalar (VBytes b) = PBytes b"
| "pb_scalar _ = PNone"

function pb_any_value :: "any_value \<Rightarrow> pb res"
  and pb_key_values :: "attributes \<Rightarrow> pb list res" where
  "pb_any_value value =
     (if isinstance value TyBool
        then Inr (PMsg (S ''AnyValue'') [(S ''bool_value'', pb_scalar value)])
      else if isinstance value TyInt
        then Inr (PMsg (S ''AnyValue'') [(S ''int_value'', pb_scalar value)])
      else if isinstance value TyFloat
        then Inr (PMsg (S ''AnyValue'') [(S ''double_value'', pb_scalar value)])
      else if isinstance value TyStr
        then Inr (PMsg (S ''AnyValue'') [(S ''string_value'', pb_scalar value)])
      else if isinstance value TyBytes
        then Inr (PMsg (S ''AnyValue'') [(S ''bytes_value'', pb_scalar value)])
      else if isinstance value TyMapping
        then bindR (pb_key_values (mapping_items value)) (\<lambda>vs.
          Inr (PMsg (S ''AnyValue'')
            [(S ''kvlist_value'', PMsg (S ''KeyValueList'') [(S ''values'', PList vs)])]))
      else if isinstance value TySequence
        then bindR (mapR pb_any_value (sequence_items value)) (\<lambda>vs.
          Inr (PMsg (S ''AnyValue'')
            [(S ''array_value'', PMsg (S ''ArrayValue'') [(S ''values'', PList vs)])]))
      else Inl (TypeError (S ''unsupported attribute value type: '' @ other_type value)))"
| "pb_key_values attributes =
     mapR (\<lambda>p. bindR (pb_any_value (snd p)) (\<lambda>v.
       Inr (PMsg (S ''KeyValue'') [(S ''key'', PStr (fst p)), (S ''value'', v)]))) attributes"
  by pat_completeness auto

termination
proof (relation "measure (case_sum size (size_list (\<lambda>p. size (snd p))))")
  show "wf (measure (case_sum size (size_list (\<lambda>p :: str \<times> any_value. size (snd p)))))"
    by simp
next
  fix val :: any_value
  assume "isinstance val TyMapping"
  then show "(Inr (mapping_items val), Inl val)
      \<in> measure (case_sum size (size_list (\<lambda>p. size (snd p))))"
    using mapping_items_size [of val] by simp
next
  fix val x
  assume "\<not> isinstance val TyStr" "\<not> isinstance val TyBytes" "x \<in> set (sequence_items val)"
  then show "(Inl x, Inl val) \<in> measure (case_sum size (size_list (\<lambda>p. size (snd p))))"
    by (rule sequence_items_measure)
next
  fix attributes :: attributes and p
  assume "p \<in> set attributes"
  then show "(Inl (snd p), Inr attributes)
      \<in> measure (case_sum size (size_list (\<lambda>p. size (snd p))))"
    by (rule attributes_measure)
qed

declare pb_any_value.simps [simp del] pb_key_values.simps [simp del]

lemma pb_any_value_cases [simp]:
  "pb_any_value (VBool b) = Inr (PMsg (S ''AnyValue'') [(S ''bool_value'', PBool b)])"
  "pb_any_value (VInt i) = Inr (PMsg (S ''AnyValue'') [(S ''int_value'', PInt i)])"
  "pb_any_value (VFloat x) = Inr (PMsg (S ''AnyValue'') [(S ''double_value'', PFloat x)])"
  "pb_any_value (VStr s) = Inr (PMsg (S ''AnyValue'') [(S ''string_value'', PStr s)])"
  "pb_any_value (VBytes bs) = Inr (PMsg (S ''AnyValue'') [(S ''bytes_value'', PBytes bs)])"
  "pb_any_value (VMap kvs) = bindR (pb_key_values kvs) (\<lambda>vs.
     Inr (PMsg (S ''AnyValue'')
       [(S ''kvlist_value'', PMsg (S ''KeyValueList'') [(S ''values'', PList vs)])]))"
  "pb_any_value (VSeq xs) = bindR (mapR pb_any_value xs) (\<lambda>vs.
     Inr (PMsg (S ''AnyValue'')
       [(S ''array_value'', PMsg (S ''ArrayValue'') [(S ''values'', PList vs)])]))"
  "pb_any_value (VOther t) = Inl (TypeError (S ''unsupported attribute value type: '' @ t))"
  by (subst pb_any_value.simps; simp)+

lemma pb_key_values_Nil [simp]: "pb_key_values [] = Inr []"
  by (simp add: pb_key_values.simps)

subsection \<open>Resource and scope\<close>

definition resource_is_empty :: "resource \<Rightarrow> bool" where
  "resource_is_empty r \<longleftrightarrow> res_attributes r = [] \<and> res_dropped r = 0"

definition pb_resource :: "resource \<Rightarrow> pb res" where
  "pb_resource r =
     bindR (pb_key_values (res_attributes r)) (\<lambda>attrs.
     Inr (PMsg (S ''Resource'')
       [(S ''attributes'', PList attrs),
        (S ''dropped_attributes_count'', PInt (res_dropped r))]))"

definition str_or_empty :: "str option \<Rightarrow> str" where
  "str_or_empty s = (case s of None \<Rightarrow> [] | Some t \<Rightarrow> t)"

definition scope_is_empty :: "instrumentation_scope \<Rightarrow> bool" where
  "scope_is_empty sc \<longleftrightarrow>
     scope_name sc = [] \<and> str_or_empty (scope_version sc) = [] \<and> scope_attributes sc = []"

definition pb_scope :: "instrumentation_scope \<Rightarrow> pb res" where
  "pb_scope sc =
     bindR (pb_key_values (scope_attributes sc)) (\<lambda>attrs.
     Inr (PMsg (S ''InstrumentationScope'')
       [(S ''name'', PStr (scope_name sc)),
        (S ''version'', PStr (str_or_empty (scope_version sc))),
        (S ''attributes'', PList attrs)]))"

text \<open>\<^verbatim>\<open>None if \<dots>_is_empty(x) else build(x)\<close>.\<close>

definition resource_arg :: "resource \<Rightarrow> pb res" where
  "resource_arg r = (if resource_is_empty r then Inr PNone else pb_resource r)"

definition scope_arg :: "instrumentation_scope \<Rightarrow> pb res" where
  "scope_arg sc = (if scope_is_empty sc then Inr PNone else pb_scope sc)"

subsection \<open>Metrics\<close>

definition buckets_is_empty :: "buckets \<Rightarrow> bool" where
  "buckets_is_empty b \<longleftrightarrow> bk_offset b = 0 \<and> bk_bucket_counts b = []"

definition pb_buckets :: "buckets \<Rightarrow> pb" where
  "pb_buckets b = PMsg (S ''Buckets'')
     [(S ''offset'', PInt (bk_offset b)),
      (S ''bucket_counts'', PList (map PInt (bk_bucket_counts b)))]"

text \<open>\<^verbatim>\<open>x or b""\<close>, \<^verbatim>\<open>x or 0\<close>, and an argument that may be \<^verbatim>\<open>None\<close>.\<close>

definition bytes_or_empty :: "bytes option \<Rightarrow> pb" where
  "bytes_or_empty b = PBytes (case b of None \<Rightarrow> [] | Some bs \<Rightarrow> bs)"

definition int_or_zero :: "int option \<Rightarrow> pb" where
  "int_or_zero t = PInt (case t of None \<Rightarrow> 0 | Some i \<Rightarrow> i)"

definition float_arg :: "pyfloat option \<Rightarrow> pb" where
  "float_arg x = (case x of None \<Rightarrow> PNone | Some f \<Rightarrow> PFloat f)"

text \<open>The exemplar's boolean check comes first, the data point's after the other arguments.\<close>

definition value_arg :: "str \<Rightarrow> number \<Rightarrow> (str \<times> pb) res" where
  "value_arg message v =
     (case v of NBool _ \<Rightarrow> Inl (TypeError message)
      | NInt i \<Rightarrow> Inr (S ''as_int'', PInt i)
      | NFloat x \<Rightarrow> Inr (S ''as_double'', PFloat x))"

definition pb_exemplar :: "exemplar \<Rightarrow> pb res" where
  "pb_exemplar e =
     bindR (value_arg exemplar_not_bool (ex_value e)) (\<lambda>arg.
     bindR (pb_key_values (ex_filtered_attributes e)) (\<lambda>attrs.
     Inr (PMsg (S ''Exemplar'')
       [arg,
        (S ''filtered_attributes'', PList attrs),
        (S ''time_unix_nano'', PInt (ex_time_unix_nano e)),
        (S ''span_id'', bytes_or_empty (ex_span_id e)),
        (S ''trace_id'', bytes_or_empty (ex_trace_id e))])))"

definition pb_number_point :: "number_data_point \<Rightarrow> pb res" where
  "pb_number_point p =
     bindR (pb_key_values (np_attributes p)) (\<lambda>attrs.
     bindR (mapR pb_exemplar (np_exemplars p)) (\<lambda>exemplars.
     bindR (value_arg point_not_bool (np_value p)) (\<lambda>arg.
     Inr (PMsg (S ''NumberDataPoint'')
       [arg,
        (S ''attributes'', PList attrs),
        (S ''time_unix_nano'', PInt (np_time_unix_nano p)),
        (S ''start_time_unix_nano'', int_or_zero (np_start_time_unix_nano p)),
        (S ''flags'', PInt (np_flags p)),
        (S ''exemplars'', PList exemplars)]))))"

definition pb_histogram_point :: "histogram_data_point \<Rightarrow> pb res" where
  "pb_histogram_point p =
     bindR (pb_key_values (hp_attributes p)) (\<lambda>attrs.
     bindR (mapR pb_exemplar (hp_exemplars p)) (\<lambda>exemplars.
     Inr (PMsg (S ''HistogramDataPoint'')
       [(S ''attributes'', PList attrs),
        (S ''time_unix_nano'', PInt (hp_time_unix_nano p)),
        (S ''start_time_unix_nano'', int_or_zero (hp_start_time_unix_nano p)),
        (S ''count'', PInt (hp_count p)),
        (S ''sum'', float_arg (hp_sum p)),
        (S ''bucket_counts'', PList (map PInt (hp_bucket_counts p))),
        (S ''explicit_bounds'', PList (map PFloat (hp_explicit_bounds p))),
        (S ''flags'', PInt (hp_flags p)),
        (S ''min'', float_arg (hp_min p)),
        (S ''max'', float_arg (hp_max p)),
        (S ''exemplars'', PList exemplars)])))"

definition pb_exponential_point :: "exponential_data_point \<Rightarrow> pb res" where
  "pb_exponential_point p =
     bindR (pb_key_values (ep_attributes p)) (\<lambda>attrs.
     bindR (mapR pb_exemplar (ep_exemplars p)) (\<lambda>exemplars.
     Inr (PMsg (S ''ExponentialHistogramDataPoint'')
       ([(S ''attributes'', PList attrs),
         (S ''time_unix_nano'', PInt (ep_time_unix_nano p)),
         (S ''start_time_unix_nano'', int_or_zero (ep_start_time_unix_nano p)),
         (S ''count'', PInt (ep_count p)),
         (S ''sum'', float_arg (ep_sum p)),
         (S ''scale'', PInt (ep_scale p)),
         (S ''zero_count'', PInt (ep_zero_count p)),
         (S ''min'', float_arg (ep_min p)),
         (S ''max'', float_arg (ep_max p)),
         (S ''flags'', PInt (ep_flags p)),
         (S ''exemplars'', PList exemplars),
         (S ''zero_threshold'', PFloat (ep_zero_threshold p))] @
        (if buckets_is_empty (ep_positive p) then []
         else [(S ''positive'', pb_buckets (ep_positive p))]) @
        (if buckets_is_empty (ep_negative p) then []
         else [(S ''negative'', pb_buckets (ep_negative p))])))))"

definition pb_quantile :: "value_at_quantile \<Rightarrow> pb" where
  "pb_quantile q = PMsg (S ''ValueAtQuantile'')
     [(S ''quantile'', PFloat (vq_quantile q)), (S ''value'', PFloat (vq_value q))]"

definition pb_summary_point :: "summary_data_point \<Rightarrow> pb res" where
  "pb_summary_point p =
     bindR (pb_key_values (sp_attributes p)) (\<lambda>attrs.
     Inr (PMsg (S ''SummaryDataPoint'')
       [(S ''attributes'', PList attrs),
        (S ''time_unix_nano'', PInt (sp_time_unix_nano p)),
        (S ''start_time_unix_nano'', int_or_zero (sp_start_time_unix_nano p)),
        (S ''count'', PInt (sp_count p)),
        (S ''sum'', PFloat (sp_sum p)),
        (S ''quantile_values'', PList (map pb_quantile (sp_quantile_values p))),
        (S ''flags'', PInt (sp_flags p))]))"

definition pb_metric_data :: "metric_data \<Rightarrow> (str \<times> pb) res" where
  "pb_metric_data data =
     (case data of
        Gauge points \<Rightarrow> bindR (mapR pb_number_point points) (\<lambda>ps.
          Inr (S ''gauge'', PMsg (S ''Gauge'') [(S ''data_points'', PList ps)]))
      | Sum points temporality monotonic \<Rightarrow> bindR (mapR pb_number_point points) (\<lambda>ps.
          Inr (S ''sum'', PMsg (S ''Sum'')
            [(S ''data_points'', PList ps),
             (S ''aggregation_temporality'', PInt (temporality_int temporality)),
             (S ''is_monotonic'', PBool monotonic)]))
      | Histogram points temporality \<Rightarrow> bindR (mapR pb_histogram_point points) (\<lambda>ps.
          Inr (S ''histogram'', PMsg (S ''Histogram'')
            [(S ''aggregation_temporality'', PInt (temporality_int temporality)),
             (S ''data_points'', PList ps)]))
      | ExponentialHistogram points temporality \<Rightarrow>
          bindR (mapR pb_exponential_point points) (\<lambda>ps.
          Inr (S ''exponential_histogram'', PMsg (S ''ExponentialHistogram'')
            [(S ''aggregation_temporality'', PInt (temporality_int temporality)),
             (S ''data_points'', PList ps)]))
      | Summary points \<Rightarrow> bindR (mapR pb_summary_point points) (\<lambda>ps.
          Inr (S ''summary'', PMsg (S ''Summary'') [(S ''data_points'', PList ps)])))"

definition pb_metric :: "metric \<Rightarrow> pb res" where
  "pb_metric m =
     bindR (pb_metric_data (mt_data m)) (\<lambda>body.
     Inr (PMsg (S ''Metric'')
       [(S ''name'', PStr (mt_name m)),
        (S ''description'', PStr (mt_description m)),
        (S ''unit'', PStr (mt_unit m)),
        body]))"

definition pb_scope_metrics :: "scope_metrics \<Rightarrow> pb res" where
  "pb_scope_metrics sm =
     bindR (scope_arg (sm_scope sm)) (\<lambda>sc.
     bindR (mapR pb_metric (sm_metrics sm)) (\<lambda>ms.
     Inr (PMsg (S ''ScopeMetrics'') [(S ''scope'', sc), (S ''metrics'', PList ms)])))"

definition pb_resource_metrics :: "resource_metrics \<Rightarrow> pb res" where
  "pb_resource_metrics rm =
     bindR (resource_arg (rm_resource rm)) (\<lambda>r.
     bindR (mapR pb_scope_metrics (rm_scope_metrics rm)) (\<lambda>sms.
     Inr (PMsg (S ''ResourceMetrics'')
       [(S ''resource'', r), (S ''scope_metrics'', PList sms)])))"

definition pb_encode_metrics :: "resource_metrics list \<Rightarrow> pb res" where
  "pb_encode_metrics data =
     bindR (mapR pb_resource_metrics data) (\<lambda>rms.
     Inr (PMsg (S ''ExportMetricsServiceRequest'') [(S ''resource_metrics'', PList rms)]))"

subsection \<open>Logs\<close>

definition pb_log_record :: "log_record \<Rightarrow> pb res" where
  "pb_log_record r =
     bindR (pb_any_value (lr_body r)) (\<lambda>body.
     bindR (pb_key_values (lr_attributes r)) (\<lambda>attrs.
     Inr (PMsg (S ''LogRecord'')
       [(S ''time_unix_nano'', PInt (lr_time_unix_nano r)),
        (S ''observed_time_unix_nano'', PInt (lr_observed_time_unix_nano r)),
        (S ''severity_number'', PInt (severity_int (lr_severity_number r))),
        (S ''severity_text'', PStr (lr_severity_text r)),
        (S ''body'', body),
        (S ''attributes'', PList attrs),
        (S ''trace_id'', bytes_or_empty (lr_trace_id r)),
        (S ''span_id'', bytes_or_empty (lr_span_id r)),
        (S ''event_name'', PStr (lr_event_name r)),
        (S ''flags'', PInt (lr_flags r))])))"

definition pb_scope_logs :: "scope_logs \<Rightarrow> pb res" where
  "pb_scope_logs sl =
     bindR (scope_arg (sl_scope sl)) (\<lambda>sc.
     bindR (mapR pb_log_record (sl_log_records sl)) (\<lambda>rs.
     Inr (PMsg (S ''ScopeLogs'') [(S ''scope'', sc), (S ''log_records'', PList rs)])))"

definition pb_resource_logs :: "resource_logs \<Rightarrow> pb res" where
  "pb_resource_logs rl =
     bindR (resource_arg (rl_resource rl)) (\<lambda>r.
     bindR (mapR pb_scope_logs (rl_scope_logs rl)) (\<lambda>sls.
     Inr (PMsg (S ''ResourceLogs'') [(S ''resource'', r), (S ''scope_logs'', PList sls)])))"

definition pb_encode_logs :: "resource_logs list \<Rightarrow> pb res" where
  "pb_encode_logs data =
     bindR (mapR pb_resource_logs data) (\<lambda>rls.
     Inr (PMsg (S ''ExportLogsServiceRequest'') [(S ''resource_logs'', PList rls)]))"

subsection \<open>Traces\<close>

definition pb_span_event :: "span_event \<Rightarrow> pb res" where
  "pb_span_event e =
     bindR (pb_key_values (ev_attributes e)) (\<lambda>attrs.
     Inr (PMsg (S ''Event'')
       [(S ''time_unix_nano'', PInt (ev_time_unix_nano e)),
        (S ''name'', PStr (ev_name e)),
        (S ''attributes'', PList attrs)]))"

definition pb_span_link :: "span_link \<Rightarrow> pb res" where
  "pb_span_link l =
     bindR (pb_key_values (ln_attributes l)) (\<lambda>attrs.
     Inr (PMsg (S ''Link'')
       [(S ''trace_id'', PBytes (ln_trace_id l)),
        (S ''span_id'', PBytes (ln_span_id l)),
        (S ''trace_state'', PStr (ln_trace_state l)),
        (S ''attributes'', PList attrs),
        (S ''flags'', PInt (ln_flags l))]))"

text \<open>The status argument is given only when the status carries information.\<close>

definition status_kwargs :: "span_status option \<Rightarrow> (str \<times> pb) list" where
  "status_kwargs status =
     (case status of None \<Rightarrow> []
      | Some s \<Rightarrow>
          if st_code s \<noteq> SC_UNSET \<or> st_message s \<noteq> []
          then [(S ''status'', PMsg (S ''Status'')
            [(S ''code'', PInt (status_code_int (st_code s))),
             (S ''message'', PStr (st_message s))])]
          else [])"

definition pb_span :: "span \<Rightarrow> pb res" where
  "pb_span s =
     bindR (pb_key_values (sn_attributes s)) (\<lambda>attrs.
     bindR (mapR pb_span_event (sn_events s)) (\<lambda>events.
     bindR (mapR pb_span_link (sn_links s)) (\<lambda>links.
     Inr (PMsg (S ''Span'')
       ([(S ''trace_id'', PBytes (sn_trace_id s)),
         (S ''span_id'', PBytes (sn_span_id s)),
         (S ''parent_span_id'', bytes_or_empty (sn_parent_span_id s)),
         (S ''name'', PStr (sn_name s)),
         (S ''kind'', PInt (span_kind_int (sn_kind s))),
         (S ''start_time_unix_nano'', PInt (sn_start_time_unix_nano s)),
         (S ''end_time_unix_nano'', PInt (sn_end_time_unix_nano s)),
         (S ''trace_state'', PStr (sn_trace_state s)),
         (S ''flags'', PInt (sn_flags s)),
         (S ''attributes'', PList attrs),
         (S ''events'', PList events),
         (S ''links'', PList links)] @
        status_kwargs (sn_status s))))))"

definition pb_scope_spans :: "scope_spans \<Rightarrow> pb res" where
  "pb_scope_spans ss =
     bindR (scope_arg (ss_scope ss)) (\<lambda>sc.
     bindR (mapR pb_span (ss_spans ss)) (\<lambda>sps.
     Inr (PMsg (S ''ScopeSpans'') [(S ''scope'', sc), (S ''spans'', PList sps)])))"

definition pb_resource_spans :: "resource_spans \<Rightarrow> pb res" where
  "pb_resource_spans rs =
     bindR (resource_arg (rs_resource rs)) (\<lambda>r.
     bindR (mapR pb_scope_spans (rs_scope_spans rs)) (\<lambda>sss.
     Inr (PMsg (S ''ResourceSpans'') [(S ''resource'', r), (S ''scope_spans'', PList sss)])))"

definition pb_encode_traces :: "resource_spans list \<Rightarrow> pb res" where
  "pb_encode_traces data =
     bindR (mapR pb_resource_spans data) (\<lambda>rss.
     Inr (PMsg (S ''ExportTraceServiceRequest'') [(S ''resource_spans'', PList rss)]))"

subsection \<open>The encoder's methods\<close>

definition pb_wrong_envelope ::
  "resource list \<Rightarrow> str \<Rightarrow> str \<Rightarrow> pb \<Rightarrow> pb res" where
  "pb_wrong_envelope resources cls attr emptied =
     (case resources of [] \<Rightarrow> Inr emptied
      | r # _ \<Rightarrow> bindR (resource_arg r) (\<lambda>_. Inl (no_attribute cls attr)))"

definition pb_metrics_request :: "envelope \<Rightarrow> pb res" where
  "pb_metrics_request data =
     (let emptied = PMsg (S ''ExportMetricsServiceRequest'') [(S ''resource_metrics'', PList [])]
      in case data of
        MetricsData ms \<Rightarrow> pb_encode_metrics ms
      | LogsData ls \<Rightarrow> pb_wrong_envelope (map rl_resource ls) (S ''ResourceLogs'')
          (S ''scope_metrics'') emptied
      | TracesData ts \<Rightarrow> pb_wrong_envelope (map rs_resource ts) (S ''ResourceSpans'')
          (S ''scope_metrics'') emptied)"

definition pb_logs_request :: "envelope \<Rightarrow> pb res" where
  "pb_logs_request data =
     (let emptied = PMsg (S ''ExportLogsServiceRequest'') [(S ''resource_logs'', PList [])]
      in case data of
        MetricsData ms \<Rightarrow> pb_wrong_envelope (map rm_resource ms) (S ''ResourceMetrics'')
          (S ''scope_logs'') emptied
      | LogsData ls \<Rightarrow> pb_encode_logs ls
      | TracesData ts \<Rightarrow> pb_wrong_envelope (map rs_resource ts) (S ''ResourceSpans'')
          (S ''scope_logs'') emptied)"

definition pb_traces_request :: "envelope \<Rightarrow> pb res" where
  "pb_traces_request data =
     (let emptied = PMsg (S ''ExportTraceServiceRequest'') [(S ''resource_spans'', PList [])]
      in case data of
        MetricsData ms \<Rightarrow> pb_wrong_envelope (map rm_resource ms) (S ''ResourceMetrics'')
          (S ''scope_spans'') emptied
      | LogsData ls \<Rightarrow> pb_wrong_envelope (map rl_resource ls) (S ''ResourceLogs'')
          (S ''scope_spans'') emptied
      | TracesData ts \<Rightarrow> pb_encode_traces ts)"

definition pb_request :: "signal_kind \<Rightarrow> envelope \<Rightarrow> pb res" where
  "pb_request kind data =
     (case kind of
        METRICS \<Rightarrow> pb_metrics_request data
      | LOGS \<Rightarrow> pb_logs_request data
      | TRACES \<Rightarrow> pb_traces_request data
      | PROFILES \<Rightarrow> Inl (NotImplementedError profiles_unsupported))"

definition pb_content_type :: str where
  "pb_content_type = S ''application/x-protobuf''"

definition pb_encode :: "(pb \<Rightarrow> bytes res) \<Rightarrow> signal_kind \<Rightarrow> envelope \<Rightarrow> bytes res" where
  "pb_encode serialize kind data = bindR (pb_request kind data) serialize"

text \<open>
  \<open>build_protobuf_encoder\<close>: whether the extra is installed is \<open>available\<close>. A response is parsed
  by \<open>from_string\<close>, which gives the rejected count and the error message of
  \<^verbatim>\<open>partial_success\<close>, or \<open>None\<close> for \<^verbatim>\<open>DecodeError\<close>.
\<close>

definition protobuf_missing :: str where
  "protobuf_missing =
     S ''the protobuf encoder needs the optional extra: pip install '' @ S [CHR 0x27] @
     S ''asyncio-otlp-client[protobuf]'' @ S [CHR 0x27]"

definition build_protobuf_encoder :: "bool \<Rightarrow> unit res" where
  "build_protobuf_encoder available =
     (if available then Inr () else Inl (OTLPConfigError protobuf_missing))"

definition response_type :: "signal_kind \<Rightarrow> str res" where
  "response_type kind =
     (case kind of
        METRICS \<Rightarrow> Inr (S ''ExportMetricsServiceResponse'')
      | LOGS \<Rightarrow> Inr (S ''ExportLogsServiceResponse'')
      | TRACES \<Rightarrow> Inr (S ''ExportTraceServiceResponse'')
      | PROFILES \<Rightarrow> Inl (NotImplementedError (S ''no response type for '' @ kind_value kind)))"

definition pb_decode_response ::
  "(str \<Rightarrow> bytes \<Rightarrow> (int \<times> str) option) \<Rightarrow> signal_kind \<Rightarrow> bytes \<Rightarrow> outcome option res" where
  "pb_decode_response from_string kind body =
     (if body = [] then Inr None
      else bindR (response_type kind) (\<lambda>message_type.
        case from_string message_type body of
          None \<Rightarrow> Inr None
        | Some (rejected, error_message) \<Rightarrow>
            if rejected = 0 \<and> error_message = [] then Inr None
            else Inr (Some (PartialSuccess rejected error_message))))"

lemma pb_decode_partial:
  "pb_decode_response from_string kind body = Inr (Some r) \<Longrightarrow> \<exists>n m. r = PartialSuccess n m"
  by (auto simp: pb_decode_response_def bindR_Inr_iff split: if_splits option.splits)

interpretation protobuf_encoder: otlp_encoder "pb_encode serialize" "pb_decode_response from_string"
  for serialize from_string
  by unfold_locales
    (simp add: pb_decode_response_def, erule pb_decode_partial, simp add: pb_encode_def pb_request_def)

end
