(* ===== verification/Agreement.thy ===== *)
theory Agreement
  imports ProtoEncoder
begin

section \<open>The two encoders write the same request\<close>

text \<open>
  A relation between a JSON document and a protobuf message tree: the same fields under the
  two spellings of their names, numbers as text or as integers, bytes as hex (ids) or base64,
  and a field left out on one side only where the other side's value means ``not set''. Then
  each pair of encoding functions is shown to produce related results and to raise in the
  same cases.
\<close>

subsection \<open>Field names, bytes and presence\<close>

text \<open>A protobuf field's JSON name: the letter after an underscore becomes upper case.\<close>

fun camel :: "str \<Rightarrow> str" where
  "camel [] = []"
| "camel [c] = [c]"
| "camel (c # d # cs) =
     (if c = 95 then (if 97 \<le> d \<and> d \<le> 122 then d - 32 else d) # camel cs else c # camel (d # cs))"

definition id_fields :: "str list" where
  "id_fields = [S ''trace_id'', S ''span_id'', S ''parent_span_id'']"

definition bytes_text :: "str \<Rightarrow> bytes \<Rightarrow> str" where
  "bytes_text field b = (if field \<in> set id_fields then hex_id b else b64 b)"

text \<open>
  Which fields have explicit presence is a fact of the protocol's message definitions, the
  parameter \<open>expl\<close> (message, field). A field without it is not on the wire when it holds its
  type's default; \<open>-0.0\<close> is not the default of a float.
\<close>

definition unset :: "(str \<Rightarrow> str \<Rightarrow> bool) \<Rightarrow> str \<Rightarrow> str \<Rightarrow> pb \<Rightarrow> bool" where
  "unset expl m g v \<longleftrightarrow> v = PNone \<or> v = PList [] \<or>
     \<not> expl m g \<and> v \<in> {PInt 0, PStr [], PBytes [], PFloat (Fin 0), PBool False}"

inductive agree :: "(str \<Rightarrow> str \<Rightarrow> bool) \<Rightarrow> str \<Rightarrow> json \<Rightarrow> pb \<Rightarrow> bool"
  for expl :: "str \<Rightarrow> str \<Rightarrow> bool" where
  agree_bool: "agree expl f (JBool b) (PBool b)"
| agree_int: "agree expl f (JInt i) (PInt i)"
| agree_u64: "agree expl f (JStr (u64 i)) (PInt i)"
| agree_float: "agree expl f (JFloat x) (PFloat x)"
| agree_str: "agree expl f (JStr s) (PStr s)"
| agree_bytes: "agree expl f (JStr (bytes_text f b)) (PBytes b)"
| agree_list: "list_all2 (agree expl f) js ps \<Longrightarrow> agree expl f (JArr js) (PList ps)"
| agree_msg: "\<lbrakk>\<And>g v. (g, v) \<in> set kws \<Longrightarrow>
       (\<exists>j. map_of fs (camel g) = Some j \<and> agree expl g j v) \<or>
       (map_of fs (camel g) = None \<and> unset expl m g v);
     fst ` set fs \<subseteq> (\<lambda>p. camel (fst p)) ` set kws\<rbrakk>
   \<Longrightarrow> agree expl f (JObj fs) (PMsg m kws)"

inductive_cases agree_list_elim: "agree expl f (JArr js) (PList ps)"
inductive_cases agree_msg_elim: "agree expl f (JObj fs) (PMsg m kws)"
inductive_simps agree_scalar_simps:
  "agree expl f j (PBool b)" "agree expl f j (PFloat x)" "agree expl f j (PStr s)"
  "agree expl f j (PBytes bs)" "agree expl f j (PInt i)" "agree expl f j PNone"

text \<open>One field: absent from the JSON and unset in the message, or there with agreeing values.\<close>

definition field_agree :: "(str \<Rightarrow> str \<Rightarrow> bool) \<Rightarrow> str \<Rightarrow> str \<Rightarrow> json \<Rightarrow> pb \<Rightarrow> bool" where
  "field_agree expl m g j v \<longleftrightarrow> (if absent j then unset expl m g v else agree expl g j v)"

definition fields_agree ::
  "(str \<Rightarrow> str \<Rightarrow> bool) \<Rightarrow> str \<Rightarrow> jobj \<Rightarrow> (str \<times> pb) list \<Rightarrow> bool" where
  "fields_agree expl m fs kws \<longleftrightarrow>
     list_all (\<lambda>(g, v). \<exists>j. map_of fs (camel g) = Some j \<and> field_agree expl m g j v) kws \<and>
     list_all (\<lambda>(k, j). absent j \<or> k \<in> (\<lambda>p. camel (fst p)) ` set kws) fs"

lemma agree_omit_empty:
  assumes "wf_dict fs" and "fields_agree expl m fs kws"
  shows "agree expl f (JObj (omit_empty fs)) (PMsg m kws)"
proof (rule agree_msg)
  fix g v
  assume "(g, v) \<in> set kws"
  then obtain j where "map_of fs (camel g) = Some j" "field_agree expl m g j v"
    using assms(2) by (auto simp: fields_agree_def list_all_iff)
  then show "(\<exists>j. map_of (omit_empty fs) (camel g) = Some j \<and> agree expl g j v) \<or>
      (map_of (omit_empty fs) (camel g) = None \<and> unset expl m g v)"
    using assms(1) by (auto simp: map_of_omit_empty field_agree_def split: if_splits)
next
  show "fst ` set (omit_empty fs) \<subseteq> (\<lambda>p. camel (fst p)) ` set kws"
    using assms(2) by (auto simp: fields_agree_def list_all_iff omit_empty_fields)
qed

lemma u64_nonempty [simp]: "u64 i \<noteq> []"
  by (simp add: u64_def)

lemma hex_id_empty [simp]: "hex_id b = [] \<longleftrightarrow> b = []"
  using length_hex_of_bytes [of b] by (auto simp: hex_id_def simp flip: length_0_conv)

lemma b64_empty [simp]: "b64 b = [] \<longleftrightarrow> b = []"
  by (cases "map unat b" rule: b64_nats.cases) (auto simp: b64_def b64encode_def)

lemma camel_names [simp]:
  "camel (S ''bool_value'') = S ''boolValue''"
  "camel (S ''int_value'') = S ''intValue''"
  "camel (S ''double_value'') = S ''doubleValue''"
  "camel (S ''string_value'') = S ''stringValue''"
  "camel (S ''bytes_value'') = S ''bytesValue''"
  "camel (S ''kvlist_value'') = S ''kvlistValue''"
  "camel (S ''values'') = S ''values''"
  "camel (S ''array_value'') = S ''arrayValue''"
  "camel (S ''key'') = S ''key''"
  "camel (S ''value'') = S ''value''"
  "camel (S ''attributes'') = S ''attributes''"
  "camel (S ''dropped_attributes_count'') = S ''droppedAttributesCount''"
  "camel (S ''name'') = S ''name''"
  "camel (S ''version'') = S ''version''"
  "camel (S ''offset'') = S ''offset''"
  "camel (S ''bucket_counts'') = S ''bucketCounts''"
  "camel (S ''as_int'') = S ''asInt''"
  "camel (S ''as_double'') = S ''asDouble''"
  "camel (S ''filtered_attributes'') = S ''filteredAttributes''"
  "camel (S ''time_unix_nano'') = S ''timeUnixNano''"
  "camel (S ''span_id'') = S ''spanId''"
  "camel (S ''trace_id'') = S ''traceId''"
  "camel (S ''start_time_unix_nano'') = S ''startTimeUnixNano''"
  "camel (S ''flags'') = S ''flags''"
  "camel (S ''exemplars'') = S ''exemplars''"
  "camel (S ''count'') = S ''count''"
  "camel (S ''sum'') = S ''sum''"
  "camel (S ''explicit_bounds'') = S ''explicitBounds''"
  "camel (S ''min'') = S ''min''"
  "camel (S ''max'') = S ''max''"
  "camel (S ''scale'') = S ''scale''"
  "camel (S ''zero_count'') = S ''zeroCount''"
  "camel (S ''zero_threshold'') = S ''zeroThreshold''"
  "camel (S ''positive'') = S ''positive''"
  "camel (S ''negative'') = S ''negative''"
  "camel (S ''quantile'') = S ''quantile''"
  "camel (S ''quantile_values'') = S ''quantileValues''"
  "camel (S ''gauge'') = S ''gauge''"
  "camel (S ''data_points'') = S ''dataPoints''"
  "camel (S ''aggregation_temporality'') = S ''aggregationTemporality''"
  "camel (S ''is_monotonic'') = S ''isMonotonic''"
  "camel (S ''histogram'') = S ''histogram''"
  "camel (S ''exponential_histogram'') = S ''exponentialHistogram''"
  "camel (S ''summary'') = S ''summary''"
  "camel (S ''description'') = S ''description''"
  "camel (S ''unit'') = S ''unit''"
  "camel (S ''scope'') = S ''scope''"
  "camel (S ''metrics'') = S ''metrics''"
  "camel (S ''resource'') = S ''resource''"
  "camel (S ''scope_metrics'') = S ''scopeMetrics''"
  "camel (S ''resource_metrics'') = S ''resourceMetrics''"
  "camel (S ''observed_time_unix_nano'') = S ''observedTimeUnixNano''"
  "camel (S ''severity_number'') = S ''severityNumber''"
  "camel (S ''severity_text'') = S ''severityText''"
  "camel (S ''body'') = S ''body''"
  "camel (S ''event_name'') = S ''eventName''"
  "camel (S ''log_records'') = S ''logRecords''"
  "camel (S ''scope_logs'') = S ''scopeLogs''"
  "camel (S ''resource_logs'') = S ''resourceLogs''"
  "camel (S ''trace_state'') = S ''traceState''"
  "camel (S ''status'') = S ''status''"
  "camel (S ''code'') = S ''code''"
  "camel (S ''message'') = S ''message''"
  "camel (S ''parent_span_id'') = S ''parentSpanId''"
  "camel (S ''kind'') = S ''kind''"
  "camel (S ''end_time_unix_nano'') = S ''endTimeUnixNano''"
  "camel (S ''events'') = S ''events''"
  "camel (S ''links'') = S ''links''"
  "camel (S ''spans'') = S ''spans''"
  "camel (S ''scope_spans'') = S ''scopeSpans''"
  "camel (S ''resource_spans'') = S ''resourceSpans''"
  by (simp_all add: S_def)

lemma agree_plain:
  assumes "\<And>g v. (g, v) \<in> set kws \<Longrightarrow> \<exists>j. map_of fs (camel g) = Some j \<and> agree expl g j v"
    and "fst ` set fs \<subseteq> (\<lambda>p. camel (fst p)) ` set kws"
  shows "agree expl f (JObj fs) (PMsg m kws)"
  by (rule agree_msg) (use assms in auto)

lemma field_agree_present: "\<not> absent j \<Longrightarrow> agree expl g j v \<Longrightarrow> field_agree expl m g j v"
  by (simp add: field_agree_def)

lemma field_agree_absent: "absent j \<Longrightarrow> unset expl m g v \<Longrightarrow> field_agree expl m g j v"
  by (simp add: field_agree_def)

lemma field_agree_None [simp]: "field_agree expl m g JNull PNone"
  by (simp add: field_agree_def unset_def)

named_theorems agree_fields \<open>agreement of one field\<close>

lemma field_agree_u64 [agree_fields]: "field_agree expl m g (JStr (u64 i)) (PInt i)"
  by (rule field_agree_present) (simp_all add: agree_u64)

lemma field_agree_list [agree_fields]:
  "list_all2 (agree expl g) js ps \<Longrightarrow> field_agree expl m g (JArr js) (PList ps)"
  by (auto simp: field_agree_def unset_def intro: agree_list)

lemma field_agree_u64_list [agree_fields]:
  "field_agree expl m g (u64_list cs) (PList (map PInt cs))"
  unfolding u64_list_def by (rule field_agree_list) (simp add: list_all2_conv_all_nth agree_u64)

lemma field_agree_float_list [agree_fields]:
  "field_agree expl m g (JArr (map JFloat xs)) (PList (map PFloat xs))"
  by (rule field_agree_list) (simp add: list_all2_conv_all_nth agree_float)

lemma field_agree_opt_float [agree_fields]:
  "field_agree expl m g (opt_float x) (float_arg x)"
  by (cases x) (auto simp: opt_float_def float_arg_def intro: field_agree_present agree_float)

lemma field_agree_bytes [agree_fields]:
  "\<not> expl m g \<Longrightarrow> g \<in> set id_fields \<Longrightarrow> field_agree expl m g (JStr (hex_id b)) (PBytes b)"
  using agree_bytes [of expl g b] by (auto simp: field_agree_def unset_def bytes_text_def)

lemma field_agree_id [agree_fields]:
  "\<not> expl m g \<Longrightarrow> g \<in> set id_fields \<Longrightarrow> field_agree expl m g (opt_id b) (bytes_or_empty b)"
  using field_agree_bytes [of expl m g]
  by (cases b) (auto simp: opt_id_def bytes_or_empty_def field_agree_def unset_def)

lemma field_agree_int [agree_fields]:
  "\<not> expl m g \<Longrightarrow> field_agree expl m g (int_or_none i) (PInt i)"
  by (auto simp: int_or_none_def field_agree_def unset_def intro: agree_int)

lemma field_agree_opt_u64 [agree_fields]:
  "\<not> expl m g \<Longrightarrow> field_agree expl m g (opt_u64 t) (int_or_zero t)"
  by (cases t) (auto simp: opt_u64_def int_or_zero_def field_agree_def unset_def intro: agree_u64)

lemma field_agree_zero_count [agree_fields]:
  "\<not> expl m g \<Longrightarrow> field_agree expl m g (if i \<noteq> 0 then JStr (u64 i) else JNull) (PInt i)"
  by (auto simp: field_agree_def unset_def intro: agree_u64)

lemma field_agree_str [agree_fields]:
  "\<not> expl m g \<Longrightarrow> field_agree expl m g (JStr s) (PStr s)"
  by (auto simp: field_agree_def unset_def intro: agree_str)

lemma field_agree_opt_str [agree_fields]:
  "\<not> expl m g \<Longrightarrow> field_agree expl m g (opt_str s) (PStr (str_or_empty s))"
  by (cases s) (auto simp: opt_str_def str_or_empty_def field_agree_def unset_def intro: agree_str)

lemma implicit_float_absent: "absent (implicit_float x) \<longleftrightarrow> x = Fin 0"
  by (cases x) (auto simp: implicit_float_def f_truthy_def)

lemma field_agree_implicit_float [agree_fields]:
  "\<not> expl m g \<Longrightarrow> field_agree expl m g (implicit_float x) (PFloat x)"
  using implicit_float_absent [of x]
  by (auto simp: field_agree_def unset_def implicit_float_def intro: agree_float)

subsection \<open>Results that agree\<close>

text \<open>Both raise a \<^verbatim>\<open>TypeError\<close>, or both return, with related values.\<close>

definition both_type_errors :: "exn \<Rightarrow> exn \<Rightarrow> bool" where
  "both_type_errors e e' \<longleftrightarrow> (\<exists>m. e = TypeError m) \<and> (\<exists>m. e' = TypeError m)"

abbreviation res_agree :: "('a \<Rightarrow> 'b \<Rightarrow> bool) \<Rightarrow> 'a res \<Rightarrow> 'b res \<Rightarrow> bool" where
  "res_agree A \<equiv> rel_sum both_type_errors A"

lemma res_agree_bind:
  "res_agree A m m' \<Longrightarrow> (\<And>a a'. A a a' \<Longrightarrow> res_agree B (f a) (f' a')) \<Longrightarrow>
    res_agree B (bindR m f) (bindR m' f')"
  by (cases m; cases m') auto

lemma res_agree_map:
  "(\<And>x. x \<in> set xs \<Longrightarrow> res_agree A (f x) (g x)) \<Longrightarrow>
    res_agree (list_all2 A) (mapR f xs) (mapR g xs)"
proof (induction xs)
  case Nil
  then show ?case by simp
next
  case (Cons x xs)
  then show ?case
    by (auto intro!: res_agree_bind [where A = A] res_agree_bind [where A = "list_all2 A"])
qed

lemma res_agree_mono: "res_agree A m m' \<Longrightarrow> (\<And>a b. A a b \<Longrightarrow> B a b) \<Longrightarrow> res_agree B m m'"
  by (cases m; cases m') auto

lemma res_agree_same_case:
  "res_agree A m m' \<Longrightarrow> (\<exists>a. m = Inr a) \<longleftrightarrow> (\<exists>b. m' = Inr b)"
  by (cases m; cases m') auto

subsection \<open>The protocol's field presence\<close>

definition implicit_fields :: "(str \<times> str list) list" where
  "implicit_fields =
    [(S ''Resource'', [S ''dropped_attributes_count'']),
     (S ''InstrumentationScope'', [S ''name'', S ''version'']),
     (S ''Exemplar'', [S ''span_id'', S ''trace_id'']),
     (S ''NumberDataPoint'', [S ''start_time_unix_nano'', S ''flags'']),
     (S ''HistogramDataPoint'', [S ''start_time_unix_nano'', S ''flags'']),
     (S ''Buckets'', [S ''offset'']),
     (S ''ExponentialHistogramDataPoint'',
        [S ''start_time_unix_nano'', S ''scale'', S ''zero_count'', S ''flags'',
         S ''zero_threshold'']),
     (S ''SummaryDataPoint'', [S ''start_time_unix_nano'', S ''sum'', S ''flags'']),
     (S ''Metric'', [S ''name'', S ''description'', S ''unit'']),
     (S ''LogRecord'',
        [S ''severity_number'', S ''severity_text'', S ''trace_id'', S ''span_id'',
         S ''event_name'', S ''flags'']),
     (S ''Event'', [S ''name'']),
     (S ''Link'', [S ''trace_id'', S ''span_id'', S ''trace_state'', S ''flags'']),
     (S ''Status'', [S ''code'', S ''message'']),
     (S ''Span'',
        [S ''trace_id'', S ''span_id'', S ''parent_span_id'', S ''name'', S ''kind'',
         S ''trace_state'', S ''flags''])]"

definition explicit_fields :: "(str \<times> str list) list" where
  "explicit_fields =
    [(S ''AnyValue'',
        [S ''bool_value'', S ''int_value'', S ''double_value'', S ''string_value'',
         S ''bytes_value'', S ''array_value'', S ''kvlist_value'']),
     (S ''KeyValue'', [S ''value'']),
     (S ''Exemplar'', [S ''as_int'', S ''as_double'']),
     (S ''NumberDataPoint'', [S ''as_int'', S ''as_double'']),
     (S ''HistogramDataPoint'', [S ''sum'', S ''min'', S ''max'']),
     (S ''ExponentialHistogramDataPoint'',
        [S ''sum'', S ''min'', S ''max'', S ''positive'', S ''negative'']),
     (S ''Metric'',
        [S ''gauge'', S ''sum'', S ''histogram'', S ''exponential_histogram'', S ''summary'']),
     (S ''LogRecord'', [S ''body'']),
     (S ''Span'', [S ''status'']),
     (S ''ResourceMetrics'', [S ''resource'']),
     (S ''ResourceLogs'', [S ''resource'']),
     (S ''ResourceSpans'', [S ''resource'']),
     (S ''ScopeMetrics'', [S ''scope'']),
     (S ''ScopeLogs'', [S ''scope'']),
     (S ''ScopeSpans'', [S ''scope''])]"

definition listed :: "(str \<times> str list) list \<Rightarrow> str \<Rightarrow> str \<Rightarrow> bool" where
  "listed fs m g \<longleftrightarrow> list_ex (\<lambda>(m', gs). m' = m \<and> g \<in> set gs) fs"

definition body_fields :: "str set" where
  "body_fields = {S ''gauge'', S ''sum'', S ''histogram'', S ''exponential_histogram'', S ''summary''}"

locale presence_table =
  fixes expl :: "str \<Rightarrow> str \<Rightarrow> bool"
  assumes implicit_presence: "listed implicit_fields m g \<Longrightarrow> \<not> expl m g"
    and explicit_presence: "listed explicit_fields m g \<Longrightarrow> expl m g"
begin

declare implicit_presence [simp]

lemmas presence_simps = listed_def implicit_fields_def

lemma key_value_agree:
  "agree expl g j p \<Longrightarrow> (\<And>h. agree expl h j p) \<Longrightarrow>
    agree expl f (JObj [(S ''key'', JStr k), (S ''value'', j)])
      (PMsg (S ''KeyValue'') [(S ''key'', PStr k), (S ''value'', p)])"
  by (rule agree_plain) (auto intro: agree_str)

lemma attributes_agree_step:
  assumes "\<And>k v g. (k, v) \<in> set kvs \<Longrightarrow> res_agree (agree expl g) (encode_any_value v) (pb_any_value v)"
  shows "res_agree (list_all2 (agree expl f)) (encode_attributes kvs) (pb_key_values kvs)"
  unfolding encode_attributes.simps pb_key_values.simps
proof (rule res_agree_map)
  fix p
  assume "p \<in> set kvs"
  then have "(fst p, snd p) \<in> set kvs" by simp
  then have "res_agree (agree expl (S ''value'')) (encode_any_value (snd p)) (pb_any_value (snd p))"
    by (rule assms)
  then show "res_agree (agree expl f)
      (bindR (encode_any_value (snd p))
        (\<lambda>j. Inr (JObj [(S ''key'', JStr (fst p)), (S ''value'', j)])))
      (bindR (pb_any_value (snd p))
        (\<lambda>v. Inr (PMsg (S ''KeyValue'') [(S ''key'', PStr (fst p)), (S ''value'', v)])))"
    by (rule res_agree_bind) (auto intro!: agree_plain intro: agree_str)
qed

lemma one_field_agree:
  "camel g = k \<Longrightarrow> agree expl g j v \<Longrightarrow> agree expl f (JObj [(k, j)]) (PMsg m [(g, v)])"
  by (rule agree_plain) auto

lemma b64_agree: "g \<notin> set id_fields \<Longrightarrow> agree expl g (JStr (b64 b)) (PBytes b)"
  using agree_bytes [of expl g b] by (simp add: bytes_text_def)

lemma any_value_agree: "res_agree (agree expl f) (encode_any_value v) (pb_any_value v)"
proof (induction v arbitrary: f rule: any_value_induct)
  case (Map kvs)
  have "res_agree (list_all2 (agree expl (S ''values''))) (encode_attributes kvs) (pb_key_values kvs)"
    by (rule attributes_agree_step) (rule Map.IH)
  then show ?case
    by (auto intro!: res_agree_bind one_field_agree agree_list)
next
  case (Seq vs)
  have "res_agree (list_all2 (agree expl (S ''values''))) (mapR encode_any_value vs)
      (mapR pb_any_value vs)"
    by (rule res_agree_map) (rule Seq.IH)
  then show ?case
    by (auto intro!: res_agree_bind one_field_agree agree_list)
next
  case (Other t)
  then show ?case by (simp add: both_type_errors_def)
qed (auto intro!: one_field_agree b64_agree intro: agree.intros simp: id_fields_def)

lemma attributes_agree:
  "res_agree (list_all2 (agree expl f)) (encode_attributes kvs) (pb_key_values kvs)"
  by (rule attributes_agree_step) (rule any_value_agree)

lemmas attrs_agree = attributes_agree [of "S ''attributes''"]

lemma message_agree:
  "wf_dict fs \<Longrightarrow> fields_agree expl m fs kws \<Longrightarrow>
    res_agree (agree expl f) (Inr (JObj (omit_empty fs))) (Inr (PMsg m kws))"
  by (simp add: agree_omit_empty)

lemmas message_simps = fields_agree_def wf_dict_def presence_simps id_fields_def agree_fields

lemma resource_full_agree: "res_agree (agree expl f) (encode_resource r) (pb_resource r)"
  unfolding encode_resource_def pb_resource_def
  by (intro res_agree_bind [OF attrs_agree] message_agree) (simp_all add: message_simps)

lemma resource_agree:
  "res_agree (field_agree expl m f) (encode_resource r) (resource_arg r)"
proof (cases "resource_is_empty r")
  case True
  then show ?thesis
    by (simp add: resource_arg_def resource_is_empty_def encode_resource_def int_or_none_def
        field_agree_def unset_def)
next
  case False
  have "\<not> absent j" if "encode_resource r = Inr j" for j
    using that False
    by (auto simp: encode_resource_def resource_is_empty_def bindR_Inr_iff int_or_none_def
        encode_attributes_Nil_iff split: if_splits)
  with False resource_full_agree [of f r] show ?thesis
    by (cases "encode_resource r"; cases "pb_resource r")
      (auto simp: resource_arg_def intro: field_agree_present)
qed

lemma scope_full_agree: "res_agree (agree expl f) (encode_scope sc) (pb_scope sc)"
  unfolding encode_scope_def pb_scope_def
  by (intro res_agree_bind [OF attrs_agree] message_agree) (simp_all add: message_simps)

lemma scope_agree: "res_agree (field_agree expl m f) (encode_scope sc) (scope_arg sc)"
proof (cases "scope_is_empty sc")
  case True
  then show ?thesis
    by (auto simp: scope_arg_def scope_is_empty_def encode_scope_def opt_str_def str_or_empty_def
        field_agree_def unset_def split: option.splits)
next
  case False
  have "\<not> absent j" if "encode_scope sc = Inr j" for j
    using that False
    by (auto simp: encode_scope_def scope_is_empty_def bindR_Inr_iff opt_str_def str_or_empty_def
        encode_attributes_Nil_iff split: if_splits option.splits)
  with False scope_full_agree [of f sc] show ?thesis
    by (cases "encode_scope sc"; cases "pb_scope sc")
      (auto simp: scope_arg_def intro: field_agree_present)
qed

subsection \<open>Metrics\<close>

lemma exemplar_agree: "res_agree (agree expl f) (encode_exemplar e) (pb_exemplar e)"
proof (cases "ex_value e")
  case (NBool b)
  then show ?thesis
    by (simp add: encode_exemplar_def pb_exemplar_def value_field_def value_arg_def
        both_type_errors_def)
next
  case (NInt i)
  then show ?thesis
    unfolding encode_exemplar_def pb_exemplar_def value_field_def value_arg_def
    by (simp only: number.case bindR.simps,
        intro res_agree_bind [OF attributes_agree [of "S ''filtered_attributes''"]] message_agree)
      (simp_all add: message_simps)
next
  case (NFloat x)
  then show ?thesis
    unfolding encode_exemplar_def pb_exemplar_def value_field_def value_arg_def
    by (simp only: number.case bindR.simps,
        intro res_agree_bind [OF attributes_agree [of "S ''filtered_attributes''"]] message_agree)
      (simp_all add: message_simps field_agree_present agree_float)
qed

lemmas exemplars_agree = res_agree_map [OF exemplar_agree [of "S ''exemplars''"]]

lemma res_agree_raises: "res_agree A m m' \<Longrightarrow> m' = Inl e \<Longrightarrow> \<exists>msg. e = TypeError msg"
  by (cases m) (auto simp: both_type_errors_def)

lemma number_point_agree: "res_agree (agree expl f) (encode_number_point p) (pb_number_point p)"
proof (cases "np_value p")
  case (NBool b)
  have "\<exists>msg. pb_number_point p = Inl (TypeError msg)"
    using res_agree_raises [OF attrs_agree [of "np_attributes p"]]
      res_agree_raises [OF exemplars_agree [where xs = "np_exemplars p"]]
    by (cases "pb_key_values (np_attributes p)"; cases "mapR pb_exemplar (np_exemplars p)")
      (auto simp: pb_number_point_def value_arg_def NBool)
  then show ?thesis
    by (auto simp: encode_number_point_def value_field_def NBool both_type_errors_def)
next
  case (NInt i)
  then show ?thesis
    unfolding encode_number_point_def pb_number_point_def value_field_def value_arg_def
    by (simp only: number.case bindR.simps,
        intro res_agree_bind [OF attrs_agree] res_agree_bind [OF exemplars_agree] message_agree)
      (simp_all add: message_simps)
next
  case (NFloat x)
  then show ?thesis
    unfolding encode_number_point_def pb_number_point_def value_field_def value_arg_def
    by (simp only: number.case bindR.simps,
        intro res_agree_bind [OF attrs_agree] res_agree_bind [OF exemplars_agree] message_agree)
      (simp_all add: message_simps field_agree_present agree_float)
qed

lemma histogram_point_agree:
  "res_agree (agree expl f) (encode_histogram_point p) (pb_histogram_point p)"
  unfolding encode_histogram_point_def pb_histogram_point_def
  by (intro res_agree_bind [OF attrs_agree] res_agree_bind [OF exemplars_agree] message_agree)
    (simp_all add: message_simps)

lemma buckets_agree: "agree expl f (encode_buckets b) (pb_buckets b)"
  unfolding encode_buckets_def pb_buckets_def
  by (rule agree_omit_empty) (simp_all add: message_simps)

lemma buckets_absent: "absent (encode_buckets b) \<longleftrightarrow> buckets_is_empty b"
  by (auto simp: encode_buckets_def buckets_is_empty_def int_or_none_def u64_list_def)

lemma exponential_point_agree:
  "res_agree (agree expl f) (encode_exponential_point p) (pb_exponential_point p)"
  unfolding encode_exponential_point_def pb_exponential_point_def
  by (intro res_agree_bind [OF attrs_agree] res_agree_bind [OF exemplars_agree] message_agree)
    (simp_all add: message_simps field_agree_present buckets_agree buckets_absent)

lemma quantiles_agree:
  "list_all2 (agree expl f) (map encode_quantile qs) (map pb_quantile qs)"
proof -
  have "agree expl f (encode_quantile q) (pb_quantile q)" for q
    unfolding encode_quantile_def pb_quantile_def by (rule agree_plain) (auto intro: agree_float)
  then show ?thesis
    by (simp add: list_all2_conv_all_nth)
qed

lemma summary_point_agree:
  "res_agree (agree expl f) (encode_summary_point p) (pb_summary_point p)"
  unfolding encode_summary_point_def pb_summary_point_def
  by (intro res_agree_bind [OF attrs_agree] message_agree)
    (simp_all add: message_simps quantiles_agree)

lemma data_points_agree:
  "list_all2 (agree expl (S ''data_points'')) js ps \<Longrightarrow>
    agree expl (S ''data_points'') (JArr js) (PList ps)"
  by (rule agree_list)

lemma metric_data_agree:
  "res_agree (\<lambda>(k, j) (g, v). k = camel g \<and> \<not> absent j \<and> agree expl g j v \<and>
      g \<in> body_fields) (encode_metric_data d) (pb_metric_data d)"
proof (cases d)
  case (Gauge points)
  show ?thesis
    unfolding Gauge encode_metric_data_def pb_metric_data_def metric_data.case
    by (rule res_agree_bind [OF res_agree_map [OF number_point_agree [of "S ''data_points''"]]])
      (auto simp: body_fields_def intro!: agree_plain data_points_agree)
next
  case (Sum points temporality monotonic)
  show ?thesis
    unfolding Sum encode_metric_data_def pb_metric_data_def metric_data.case
    by (rule res_agree_bind [OF res_agree_map [OF number_point_agree [of "S ''data_points''"]]])
      (auto simp: body_fields_def intro!: agree_plain data_points_agree agree_int agree_bool)
next
  case (Histogram points temporality)
  show ?thesis
    unfolding Histogram encode_metric_data_def pb_metric_data_def metric_data.case
    by (rule res_agree_bind [OF res_agree_map [OF histogram_point_agree [of "S ''data_points''"]]])
      (auto simp: body_fields_def intro!: agree_plain data_points_agree agree_int)
next
  case (ExponentialHistogram points temporality)
  show ?thesis
    unfolding ExponentialHistogram encode_metric_data_def pb_metric_data_def metric_data.case
    by (rule res_agree_bind [OF res_agree_map [OF exponential_point_agree [of "S ''data_points''"]]])
      (auto simp: body_fields_def intro!: agree_plain data_points_agree agree_int)
next
  case (Summary points)
  show ?thesis
    unfolding Summary encode_metric_data_def pb_metric_data_def metric_data.case
    by (rule res_agree_bind [OF res_agree_map [OF summary_point_agree [of "S ''data_points''"]]])
      (auto simp: body_fields_def intro!: agree_plain data_points_agree)
qed

lemma metric_agree: "res_agree (agree expl f) (encode_metric m) (pb_metric m)"
  unfolding encode_metric_def pb_metric_def
  by (rule res_agree_bind [OF metric_data_agree], clarsimp simp del: omit_empty_Cons,
      rule agree_omit_empty)
    (auto simp: message_simps body_fields_def field_agree_present)

lemma scope_metrics_agree:
  "res_agree (agree expl f) (encode_scope_metrics sm) (pb_scope_metrics sm)"
  unfolding encode_scope_metrics_def pb_scope_metrics_def
  by (intro res_agree_bind [OF scope_agree [of "S ''ScopeMetrics''" "S ''scope''"]]
      res_agree_bind [OF res_agree_map [OF metric_agree [of "S ''metrics''"]]] message_agree)
    (simp_all add: message_simps)

lemma one_resource_metrics_agree:
  "res_agree (agree expl f) (encode_one_resource_metrics rm) (pb_resource_metrics rm)"
  unfolding encode_one_resource_metrics_def pb_resource_metrics_def
  by (intro res_agree_bind [OF resource_agree [of "S ''ResourceMetrics''" "S ''resource''"]]
      res_agree_bind [OF res_agree_map [OF scope_metrics_agree [of "S ''scope_metrics''"]]]
      message_agree)
    (simp_all add: message_simps)

lemma metrics_agree:
  "res_agree (agree expl f) (encode_resource_metrics data) (pb_encode_metrics data)"
  unfolding encode_resource_metrics_def pb_encode_metrics_def
  by (rule res_agree_bind [OF res_agree_map
        [OF one_resource_metrics_agree [of "S ''resource_metrics''"]]])
    (auto intro!: agree_plain agree_list)

subsection \<open>Logs\<close>

lemma body_present: "encode_any_value v = Inr j \<Longrightarrow> \<not> absent j"
  by (cases v) (auto simp: bindR_Inr_iff)

lemma res_agree_keep:
  "res_agree A m m' \<Longrightarrow> res_agree (\<lambda>a b. A a b \<and> m = Inr a) m m'"
  by (cases m; cases m') auto

lemma log_record_agree: "res_agree (agree expl f) (encode_log_record r) (pb_log_record r)"
  unfolding encode_log_record_def pb_log_record_def
  by (intro res_agree_bind [OF res_agree_keep [OF any_value_agree [of "S ''body''"]]]
      res_agree_bind [OF attrs_agree] message_agree)
    (auto simp: message_simps field_agree_present body_present)

lemma scope_logs_agree: "res_agree (agree expl f) (encode_scope_logs sl) (pb_scope_logs sl)"
  unfolding encode_scope_logs_def pb_scope_logs_def
  by (intro res_agree_bind [OF scope_agree [of "S ''ScopeLogs''" "S ''scope''"]]
      res_agree_bind [OF res_agree_map [OF log_record_agree [of "S ''log_records''"]]]
      message_agree)
    (simp_all add: message_simps)

lemma one_resource_logs_agree:
  "res_agree (agree expl f) (encode_one_resource_logs rl) (pb_resource_logs rl)"
  unfolding encode_one_resource_logs_def pb_resource_logs_def
  by (intro res_agree_bind [OF resource_agree [of "S ''ResourceLogs''" "S ''resource''"]]
      res_agree_bind [OF res_agree_map [OF scope_logs_agree [of "S ''scope_logs''"]]]
      message_agree)
    (simp_all add: message_simps)

lemma logs_agree:
  "res_agree (agree expl f) (encode_resource_logs data) (pb_encode_logs data)"
  unfolding encode_resource_logs_def pb_encode_logs_def
  by (rule res_agree_bind [OF res_agree_map [OF one_resource_logs_agree [of "S ''resource_logs''"]]])
    (auto intro!: agree_plain agree_list)

subsection \<open>Traces\<close>

lemma span_event_agree: "res_agree (agree expl f) (encode_span_event e) (pb_span_event e)"
  unfolding encode_span_event_def pb_span_event_def
  by (intro res_agree_bind [OF attrs_agree] message_agree) (simp_all add: message_simps)

lemma span_link_agree: "res_agree (agree expl f) (encode_span_link l) (pb_span_link l)"
  unfolding encode_span_link_def pb_span_link_def
  by (intro res_agree_bind [OF attrs_agree] message_agree) (simp_all add: message_simps)

lemma status_kwargs_cases:
  "absent (encode_status st) \<and> status_kwargs st = [] \<or>
   \<not> absent (encode_status st) \<and>
     (\<exists>v. status_kwargs st = [(S ''status'', v)] \<and> agree expl (S ''status'') (encode_status st) v)"
proof (cases st)
  case (Some s)
  let ?fs = "[(S ''code'', int_or_none (status_code_int (st_code s))),
    (S ''message'', JStr (st_message s))]"
  have agr: "agree expl (S ''status'') (JObj (omit_empty ?fs)) (PMsg (S ''Status'')
      [(S ''code'', PInt (status_code_int (st_code s))), (S ''message'', PStr (st_message s))])"
    by (rule agree_omit_empty) (simp_all add: message_simps)
  have "omit_empty ?fs = [] \<longleftrightarrow> st_code s = SC_UNSET \<and> st_message s = []"
    by (cases "st_code s") (auto simp: int_or_none_def)
  with agr show ?thesis
    by (simp add: Some encode_status_def status_kwargs_def del: omit_empty_Cons)
qed (simp add: encode_status_def status_kwargs_def)

lemma span_agree: "res_agree (agree expl f) (encode_span s) (pb_span s)"
  unfolding encode_span_def pb_span_def
  using status_kwargs_cases [of "sn_status s"]
  by (intro res_agree_bind [OF attrs_agree]
      res_agree_bind [OF res_agree_map [OF span_event_agree [of "S ''events''"]]]
      res_agree_bind [OF res_agree_map [OF span_link_agree [of "S ''links''"]]] message_agree)
    (auto simp: message_simps field_agree_present)

lemma scope_spans_agree: "res_agree (agree expl f) (encode_scope_spans ss) (pb_scope_spans ss)"
  unfolding encode_scope_spans_def pb_scope_spans_def
  by (intro res_agree_bind [OF scope_agree [of "S ''ScopeSpans''" "S ''scope''"]]
      res_agree_bind [OF res_agree_map [OF span_agree [of "S ''spans''"]]] message_agree)
    (simp_all add: message_simps)

lemma one_resource_spans_agree:
  "res_agree (agree expl f) (encode_one_resource_spans rs) (pb_resource_spans rs)"
  unfolding encode_one_resource_spans_def pb_resource_spans_def
  by (intro res_agree_bind [OF resource_agree [of "S ''ResourceSpans''" "S ''resource''"]]
      res_agree_bind [OF res_agree_map [OF scope_spans_agree [of "S ''scope_spans''"]]]
      message_agree)
    (simp_all add: message_simps)

lemma traces_agree:
  "res_agree (agree expl f) (encode_resource_spans data) (pb_encode_traces data)"
  unfolding encode_resource_spans_def pb_encode_traces_def
  by (rule res_agree_bind [OF res_agree_map
        [OF one_resource_spans_agree [of "S ''resource_spans''"]]])
    (auto intro!: agree_plain agree_list)

end

lemma implicit_table_disjoint:
  "list_all (\<lambda>(m, gs). list_all (\<lambda>g. \<not> listed explicit_fields m g) gs) implicit_fields"
  by (simp add: listed_def implicit_fields_def explicit_fields_def)

lemma explicit_not_implicit: "listed implicit_fields m g \<Longrightarrow> \<not> listed explicit_fields m g"
  using implicit_table_disjoint by (fastforce simp: listed_def [of implicit_fields] list_ex_iff list_all_iff)

interpretation otlp_presence: presence_table "listed explicit_fields"
  by unfold_locales (auto dest: explicit_not_implicit)

subsection \<open>The encoders\<close>

definition same_exception :: "exn \<Rightarrow> exn \<Rightarrow> bool" where
  "same_exception e e' \<longleftrightarrow> e = e' \<or> both_type_errors e e'"

lemma res_agree_same: "res_agree A m m' \<Longrightarrow> rel_sum same_exception A m m'"
  by (cases m; cases m') (auto simp: same_exception_def)

lemma wrong_envelope_agree:
  assumes "presence_table expl"
  shows "rel_sum same_exception (agree expl f)
    (wrong_envelope rs cls attr (JObj [(camel g, JArr [])]))
    (pb_wrong_envelope rs cls attr (PMsg m [(g, PList [])]))"
proof (cases rs)
  case Nil
  have "agree expl f (JObj [(camel g, JArr [])]) (PMsg m [(g, PList [])])"
    by (rule agree_plain) (auto intro: agree_list)
  then show ?thesis
    by (simp add: wrong_envelope_def pb_wrong_envelope_def Nil)
next
  case (Cons r rest)
  then show ?thesis
    using presence_table.resource_agree [OF assms, of m f r]
    by (cases "encode_resource r"; cases "resource_arg r")
      (auto simp: wrong_envelope_def pb_wrong_envelope_def same_exception_def)
qed

lemmas wrong_envelope_agrees =
  wrong_envelope_agree [of _ _ _ _ _ "S ''resource_metrics''", simplified]
  wrong_envelope_agree [of _ _ _ _ _ "S ''resource_logs''", simplified]
  wrong_envelope_agree [of _ _ _ _ _ "S ''resource_spans''", simplified]



text \<open>
  A float field with implicit presence is in the JSON exactly when protobuf puts it on the
  wire: a summary's \<^verbatim>\<open>sum\<close> and an exponential histogram's \<^verbatim>\<open>zeroThreshold\<close> are left out at
  \<open>+0.0\<close> only, and \<open>-0.0\<close>, infinities and NaN stay.
\<close>

theorem implicit_float_presence:
  "(case encode_summary_point p of
      Inr (JObj fs) \<Rightarrow> map_of fs (S ''sum'') = (if sp_sum p = Fin 0 then None else Some (JFloat (sp_sum p)))
    | Inr _ \<Rightarrow> False
    | Inl _ \<Rightarrow> True) \<and>
   (case encode_exponential_point q of
      Inr (JObj fs) \<Rightarrow> map_of fs (S ''zeroThreshold'') =
        (if ep_zero_threshold q = Fin 0 then None else Some (JFloat (ep_zero_threshold q)))
    | Inr _ \<Rightarrow> False
    | Inl _ \<Rightarrow> True)"
proof -
  have j: "implicit_float x = (if x = Fin 0 then JNull else JFloat x)" for x
    by (cases x) (auto simp: implicit_float_def f_truthy_def)
  show ?thesis
    by (cases "encode_attributes (sp_attributes p)"; cases "encode_attributes (ep_attributes q)";
        cases "mapR encode_exemplar (ep_exemplars q)")
      (simp_all add: encode_summary_point_def encode_exponential_point_def map_of_omit_empty
        wf_dict_def j del: omit_empty_Cons)
qed

end
