(* ===== verification/Config.thy ===== *)
theory Config
  imports Model
begin

section \<open>Configuration\<close>

text \<open>
  \<^verbatim>\<open>config.py\<close>: the configuration record with the checks of \<^verbatim>\<open>__post_init__\<close>, \<^verbatim>\<open>from_env\<close> with its
  parsers, and the resolution of the endpoint, headers, timeout and compression of a signal.
  The warning \<^verbatim>\<open>_parse_bool\<close> logs is not modelled. Letter case is folded on ASCII.
\<close>

datatype otlp_protocol = HTTP_JSON | HTTP_PROTOBUF | GRPC

datatype compression = NO_COMPRESSION | GZIP

fun protocol_value :: "otlp_protocol \<Rightarrow> str" where
  "protocol_value HTTP_JSON = S ''http/json''"
| "protocol_value HTTP_PROTOBUF = S ''http/protobuf''"
| "protocol_value GRPC = S ''grpc''"

definition protocol_of_str :: "str \<Rightarrow> otlp_protocol option" where
  "protocol_of_str s =
     (if s = protocol_value HTTP_JSON then Some HTTP_JSON
      else if s = protocol_value HTTP_PROTOBUF then Some HTTP_PROTOBUF
      else if s = protocol_value GRPC then Some GRPC else None)"

fun compression_value :: "compression \<Rightarrow> str" where
  "compression_value NO_COMPRESSION = S ''none''"
| "compression_value GZIP = S ''gzip''"

definition compression_of_str :: "str \<Rightarrow> compression option" where
  "compression_of_str s =
     (if s = compression_value NO_COMPRESSION then Some NO_COMPRESSION
      else if s = compression_value GZIP then Some GZIP else None)"

fun default_endpoint :: "otlp_protocol \<Rightarrow> str" where
  "default_endpoint HTTP_JSON = S ''http://localhost:4318''"
| "default_endpoint HTTP_PROTOBUF = S ''http://localhost:4318''"
| "default_endpoint GRPC = S ''http://localhost:4317''"

definition UNSUPPORTED_PER_SIGNAL :: "str list" where
  "UNSUPPORTED_PER_SIGNAL =
     [S ''PROTOCOL'', S ''INSECURE'', S ''CERTIFICATE'', S ''CLIENT_KEY'', S ''CLIENT_CERTIFICATE'']"

definition SIGNAL_PREFIXES :: "str list" where
  "SIGNAL_PREFIXES = [S ''TRACES'', S ''METRICS'', S ''LOGS'']"

type_synonym headers = "(str, str) dict"

record config =
  cfg_endpoint :: str
  cfg_protocol :: otlp_protocol
  cfg_headers :: headers
  cfg_timeout :: pyfloat
  cfg_compression :: compression
  cfg_gzip_threshold :: int
  cfg_resource :: "resource option"
  cfg_metrics_endpoint :: "str option"
  cfg_logs_endpoint :: "str option"
  cfg_traces_endpoint :: "str option"
  cfg_metrics_headers :: "headers option"
  cfg_logs_headers :: "headers option"
  cfg_traces_headers :: "headers option"
  cfg_metrics_timeout :: "pyfloat option"
  cfg_logs_timeout :: "pyfloat option"
  cfg_traces_timeout :: "pyfloat option"
  cfg_metrics_compression :: "compression option"
  cfg_logs_compression :: "compression option"
  cfg_traces_compression :: "compression option"
  cfg_insecure :: bool
  cfg_certificate_file :: "str option"
  cfg_client_certificate_file :: "str option"
  cfg_client_key_file :: "str option"
  cfg_insecure_skip_verify :: bool
  cfg_initial_backoff :: pyfloat
  cfg_max_backoff :: pyfloat
  cfg_backoff_multiplier :: pyfloat
  cfg_max_elapsed :: pyfloat

text \<open>A configuration with the dataclass defaults.\<close>

definition OTLPConfig :: "str \<Rightarrow> config" where
  "OTLPConfig ep =
     \<lparr>cfg_endpoint = ep, cfg_protocol = HTTP_JSON, cfg_headers = [], cfg_timeout = Fin 10,
      cfg_compression = NO_COMPRESSION, cfg_gzip_threshold = 32 * 1024, cfg_resource = None,
      cfg_metrics_endpoint = None, cfg_logs_endpoint = None, cfg_traces_endpoint = None,
      cfg_metrics_headers = None, cfg_logs_headers = None, cfg_traces_headers = None,
      cfg_metrics_timeout = None, cfg_logs_timeout = None, cfg_traces_timeout = None,
      cfg_metrics_compression = None, cfg_logs_compression = None, cfg_traces_compression = None,
      cfg_insecure = False, cfg_certificate_file = None, cfg_client_certificate_file = None,
      cfg_client_key_file = None, cfg_insecure_skip_verify = False,
      cfg_initial_backoff = Fin 1, cfg_max_backoff = Fin 30, cfg_backoff_multiplier = Fin (3 / 2),
      cfg_max_elapsed = Fin 90\<rparr>"

text \<open>\<^verbatim>\<open>x <= 0\<close> on a float; false for NaN.\<close>

definition not_positive :: "pyfloat \<Rightarrow> bool" where
  "not_positive x \<longleftrightarrow> f_le x (Fin 0)"

fun check_timeouts :: "(str \<times> pyfloat option) list \<Rightarrow> unit res" where
  "check_timeouts [] = Inr ()"
| "check_timeouts ((name, val) # rest) =
     (if (case val of None \<Rightarrow> False | Some v \<Rightarrow> not_positive v)
      then Inl (OTLPConfigError (name @ S '' must be greater than zero''))
      else check_timeouts rest)"

definition post_init :: "config \<Rightarrow> config res" where
  "post_init c =
     (if cfg_endpoint c = [] then Inl (OTLPConfigError (S ''endpoint must be a non-empty URL''))
      else if not_positive (cfg_timeout c)
        then Inl (OTLPConfigError (S ''timeout must be greater than zero''))
      else if not_positive (cfg_max_elapsed c)
        then Inl (OTLPConfigError (S ''max_elapsed must be greater than zero''))
      else bindR (check_timeouts
          [(S ''metrics_timeout'', cfg_metrics_timeout c), (S ''logs_timeout'', cfg_logs_timeout c),
           (S ''traces_timeout'', cfg_traces_timeout c)])
        (\<lambda>_. Inr c))"

subsection \<open>Parsing the environment\<close>

type_synonym env = "(str, str) dict"

definition env_get :: "env \<Rightarrow> str \<Rightarrow> str \<Rightarrow> str" where
  "env_get src name d = (case map_of src name of None \<Rightarrow> d | Some v \<Rightarrow> v)"

definition var :: "string \<Rightarrow> str" where
  "var name = S ''OTEL_EXPORTER_OTLP_'' @ S name"

definition parse_bool :: "str \<Rightarrow> bool" where
  "parse_bool raw = (lower (strip raw) = S ''true'')"

text \<open>The warning \<^verbatim>\<open>_parse_bool\<close> logs for a value it does not know.\<close>

definition parse_bool_warnings :: "str \<Rightarrow> str \<Rightarrow> str list" where
  "parse_bool_warnings raw name =
     (if lower (strip raw) \<in> {S ''true'', S ''false'', []} then []
      else [S ''ignoring unrecognised '' @ name @ S '' value '' @ repr_str raw @
        S '', falling back to false''])"

definition parse_timeout :: "str option \<Rightarrow> str \<Rightarrow> pyfloat option res" where
  "parse_timeout raw name =
     (case raw of
        None \<Rightarrow> Inr None
      | Some s \<Rightarrow>
          if s = [] then Inr None
          else (case py_float_of_str s of
              Some x \<Rightarrow> Inr (Some (f_div_pos x 1000))
            | None \<Rightarrow> Inl (OTLPConfigError
                (S ''invalid timeout in '' @ name @ S '': '' @ repr_str s))))"

definition parse_compression :: "str option \<Rightarrow> str \<Rightarrow> compression option res" where
  "parse_compression raw name =
     (case raw of
        None \<Rightarrow> Inr None
      | Some s \<Rightarrow>
          if s = [] then Inr None
          else (case compression_of_str s of
              Some c \<Rightarrow> Inr (Some c)
            | None \<Rightarrow> Inl (OTLPConfigError
                (S ''unknown compression in '' @ name @ S '': '' @ repr_str s))))"

fun parse_header_pairs :: "str list \<Rightarrow> headers \<Rightarrow> headers res" where
  "parse_header_pairs [] hs = Inr hs"
| "parse_header_pairs (pair # rest) hs =
     (if strip pair = [] then parse_header_pairs rest hs
      else (case partition_on 61 pair of
          (_, None) \<Rightarrow> Inl (OTLPConfigError
            (S ''malformed header entry '' @ repr_str pair @ S '', expected key=value''))
        | (key, Some val) \<Rightarrow>
            parse_header_pairs rest (dict_set (unquote (strip key)) (unquote (strip val)) hs)))"

definition parse_headers :: "str \<Rightarrow> headers res" where
  "parse_headers raw = parse_header_pairs (split_on 44 raw) []"

definition signal_headers :: "env \<Rightarrow> str \<Rightarrow> headers option res" where
  "signal_headers src signal =
     (case map_of src (S ''OTEL_EXPORTER_OTLP_'' @ signal @ S ''_HEADERS'') of
        None \<Rightarrow> Inr None
      | Some raw \<Rightarrow> bindR (parse_headers raw) (\<lambda>hs. Inr (Some hs)))"

definition unsupported_name :: "str \<Rightarrow> str \<Rightarrow> str" where
  "unsupported_name signal opt = S ''OTEL_EXPORTER_OTLP_'' @ signal @ S ''_'' @ opt"

definition unsupported_names :: "str list" where
  "unsupported_names =
     concat (map (\<lambda>signal. map (unsupported_name signal) UNSUPPORTED_PER_SIGNAL) SIGNAL_PREFIXES)"

fun reject_names :: "str list \<Rightarrow> env \<Rightarrow> unit res" where
  "reject_names [] src = Inr ()"
| "reject_names (name # rest) src =
     (if (case map_of src name of None \<Rightarrow> False | Some v \<Rightarrow> v \<noteq> [])
      then Inl (OTLPConfigError (name @ S '' is not supported: one OTLPClient holds a single encoder and transport, so this cannot vary per signal. Use separate OTLPClient instances, one per signal, each with its own config.''))
      else reject_names rest src)"

definition reject_unsupported_per_signal :: "env \<Rightarrow> unit res" where
  "reject_unsupported_per_signal src = reject_names unsupported_names src"

definition from_env :: "env \<Rightarrow> config res" where
  "from_env src =
     bindR (reject_unsupported_per_signal src) (\<lambda>_.
     (let raw_protocol = env_get src (var ''PROTOCOL'') (protocol_value HTTP_JSON)
      in case protocol_of_str raw_protocol of
        None \<Rightarrow> Inl (OTLPConfigError (S ''unknown protocol '' @ repr_str raw_protocol))
      | Some proto \<Rightarrow>
     bindR (parse_compression (map_of src (var ''COMPRESSION'')) (var ''COMPRESSION'')) (\<lambda>base_compression.
     bindR (parse_timeout (map_of src (var ''TIMEOUT'')) (var ''TIMEOUT'')) (\<lambda>base_timeout.
     bindR (parse_headers (env_get src (var ''HEADERS'') [])) (\<lambda>hs.
     bindR (signal_headers src (S ''METRICS'')) (\<lambda>metrics_hs.
     bindR (signal_headers src (S ''LOGS'')) (\<lambda>logs_hs.
     bindR (signal_headers src (S ''TRACES'')) (\<lambda>traces_hs.
     bindR (parse_timeout (map_of src (var ''METRICS_TIMEOUT'')) (var ''METRICS_TIMEOUT'')) (\<lambda>metrics_t.
     bindR (parse_timeout (map_of src (var ''LOGS_TIMEOUT'')) (var ''LOGS_TIMEOUT'')) (\<lambda>logs_t.
     bindR (parse_timeout (map_of src (var ''TRACES_TIMEOUT'')) (var ''TRACES_TIMEOUT'')) (\<lambda>traces_t.
     bindR (parse_compression (map_of src (var ''METRICS_COMPRESSION'')) (var ''METRICS_COMPRESSION'')) (\<lambda>metrics_c.
     bindR (parse_compression (map_of src (var ''LOGS_COMPRESSION'')) (var ''LOGS_COMPRESSION'')) (\<lambda>logs_c.
     bindR (parse_compression (map_of src (var ''TRACES_COMPRESSION'')) (var ''TRACES_COMPRESSION'')) (\<lambda>traces_c.
     post_init ((OTLPConfig (env_get src (var ''ENDPOINT'') (default_endpoint proto)))
       \<lparr>cfg_protocol := proto, cfg_headers := hs,
        cfg_insecure := parse_bool (env_get src (var ''INSECURE'') []),
        cfg_timeout := (case base_timeout of None \<Rightarrow> Fin 10 | Some t \<Rightarrow> t),
        cfg_compression := (case base_compression of None \<Rightarrow> NO_COMPRESSION | Some c \<Rightarrow> c),
        cfg_metrics_endpoint := map_of src (var ''METRICS_ENDPOINT''),
        cfg_logs_endpoint := map_of src (var ''LOGS_ENDPOINT''),
        cfg_traces_endpoint := map_of src (var ''TRACES_ENDPOINT''),
        cfg_metrics_headers := metrics_hs, cfg_logs_headers := logs_hs, cfg_traces_headers := traces_hs,
        cfg_metrics_timeout := metrics_t, cfg_logs_timeout := logs_t, cfg_traces_timeout := traces_t,
        cfg_metrics_compression := metrics_c, cfg_logs_compression := logs_c,
        cfg_traces_compression := traces_c,
        cfg_certificate_file := map_of src (var ''CERTIFICATE''),
        cfg_client_certificate_file := map_of src (var ''CLIENT_CERTIFICATE''),
        cfg_client_key_file := map_of src (var ''CLIENT_KEY'')\<rparr>)))))))))))))))"

text \<open>
  What \<^verbatim>\<open>from_env\<close> logs: \<^verbatim>\<open>_parse_bool\<close> runs after the checks and parses before it in the source, so an
  error in one of these leaves nothing logged, and one in a later parse comes after the warning.
\<close>

definition from_env_warnings :: "env \<Rightarrow> str list" where
  "from_env_warnings src =
     (case
       bindR (reject_unsupported_per_signal src) (\<lambda>_.
       case protocol_of_str (env_get src (var ''PROTOCOL'') (protocol_value HTTP_JSON)) of
         None \<Rightarrow> Inl (OTLPConfigError [])
       | Some _ \<Rightarrow>
       bindR (parse_compression (map_of src (var ''COMPRESSION'')) (var ''COMPRESSION'')) (\<lambda>_.
       bindR (parse_timeout (map_of src (var ''TIMEOUT'')) (var ''TIMEOUT'')) (\<lambda>_.
       parse_headers (env_get src (var ''HEADERS'') []))))
      of
        Inl _ \<Rightarrow> []
      | Inr _ \<Rightarrow> parse_bool_warnings (env_get src (var ''INSECURE'') []) (var ''INSECURE''))"

subsection \<open>Resolution per signal\<close>

fun endpoint_override :: "config \<Rightarrow> signal_kind \<Rightarrow> str option" where
  "endpoint_override c METRICS = cfg_metrics_endpoint c"
| "endpoint_override c LOGS = cfg_logs_endpoint c"
| "endpoint_override c TRACES = cfg_traces_endpoint c"
| "endpoint_override c PROFILES = None"

definition endpoint_for :: "config \<Rightarrow> signal_kind \<Rightarrow> str res" where
  "endpoint_for c kind =
     (case endpoint_override c kind of
        Some override \<Rightarrow>
          if override \<noteq> []
          then bindR (urlparse override) (\<lambda>parsed.
            if u_path parsed \<noteq> [] then Inr override
            else Inr (urlunparse (parsed\<lparr>u_path := S ''/''\<rparr>)))
          else Inr (rstrip_char 47 (cfg_endpoint c) @ http_path kind)
      | None \<Rightarrow> Inr (rstrip_char 47 (cfg_endpoint c) @ http_path kind))"

fun headers_override :: "config \<Rightarrow> signal_kind \<Rightarrow> headers option" where
  "headers_override c METRICS = cfg_metrics_headers c"
| "headers_override c LOGS = cfg_logs_headers c"
| "headers_override c TRACES = cfg_traces_headers c"
| "headers_override c PROFILES = None"

definition headers_for :: "config \<Rightarrow> signal_kind \<Rightarrow> headers" where
  "headers_for c kind = (case headers_override c kind of None \<Rightarrow> cfg_headers c | Some hs \<Rightarrow> hs)"

fun timeout_override :: "config \<Rightarrow> signal_kind \<Rightarrow> pyfloat option" where
  "timeout_override c METRICS = cfg_metrics_timeout c"
| "timeout_override c LOGS = cfg_logs_timeout c"
| "timeout_override c TRACES = cfg_traces_timeout c"
| "timeout_override c PROFILES = None"

definition timeout_for :: "config \<Rightarrow> signal_kind \<Rightarrow> pyfloat" where
  "timeout_for c kind = (case timeout_override c kind of None \<Rightarrow> cfg_timeout c | Some t \<Rightarrow> t)"

fun compression_override :: "config \<Rightarrow> signal_kind \<Rightarrow> compression option" where
  "compression_override c METRICS = cfg_metrics_compression c"
| "compression_override c LOGS = cfg_logs_compression c"
| "compression_override c TRACES = cfg_traces_compression c"
| "compression_override c PROFILES = None"

definition compression_for :: "config \<Rightarrow> signal_kind \<Rightarrow> compression" where
  "compression_for c kind =
     (case compression_override c kind of None \<Rightarrow> cfg_compression c | Some z \<Rightarrow> z)"

subsection \<open>What validation guarantees\<close>

definition validated :: "config \<Rightarrow> bool" where
  "validated c \<longleftrightarrow> cfg_endpoint c \<noteq> [] \<and> \<not> not_positive (cfg_max_elapsed c) \<and>
     list_all (\<lambda>kind. \<not> not_positive (timeout_for c kind)) enum_class.enum"

lemma check_timeouts_ok:
  "check_timeouts nvs = Inr u \<longleftrightarrow>
     list_all (\<lambda>(n, v). case v of None \<Rightarrow> True | Some x \<Rightarrow> \<not> not_positive x) nvs"
  by (induction nvs rule: check_timeouts.induct) (auto split: option.splits)

lemma check_timeouts_error: "check_timeouts nvs = Inl e \<Longrightarrow> \<exists>m. e = OTLPConfigError m"
  by (induction nvs rule: check_timeouts.induct) (auto split: if_splits)

lemma post_init_cases:
  "case post_init c of Inl e \<Rightarrow> \<exists>m. e = OTLPConfigError m | Inr c' \<Rightarrow> c' = c \<and> validated c"
proof (cases "check_timeouts [(S ''metrics_timeout'', cfg_metrics_timeout c),
    (S ''logs_timeout'', cfg_logs_timeout c), (S ''traces_timeout'', cfg_traces_timeout c)]")
  case (Inl e)
  with check_timeouts_error [OF Inl] show ?thesis
    by (auto simp: post_init_def)
next
  case (Inr u)
  then show ?thesis
    unfolding check_timeouts_ok
    by (auto simp: post_init_def Inr validated_def enum_signal_kind_def timeout_for_def
        split: option.splits)
qed

lemma parse_timeout_error: "parse_timeout raw n = Inl e \<Longrightarrow> \<exists>m. e = OTLPConfigError m"
  by (auto simp: parse_timeout_def split: option.splits if_splits)

lemma parse_compression_error: "parse_compression raw n = Inl e \<Longrightarrow> \<exists>m. e = OTLPConfigError m"
  by (auto simp: parse_compression_def split: option.splits if_splits)

lemma parse_header_pairs_error: "parse_header_pairs ps hs = Inl e \<Longrightarrow> \<exists>m. e = OTLPConfigError m"
  by (induction ps arbitrary: hs) (auto split: if_splits prod.splits option.splits)

lemma parse_headers_error: "parse_headers raw = Inl e \<Longrightarrow> \<exists>m. e = OTLPConfigError m"
  unfolding parse_headers_def by (rule parse_header_pairs_error)

lemma signal_headers_error: "signal_headers src sig = Inl e \<Longrightarrow> \<exists>m. e = OTLPConfigError m"
  by (auto simp: signal_headers_def bindR_Inl_iff dest: parse_headers_error split: option.splits)

lemma reject_names_ok:
  "reject_names ns src = Inr u \<longleftrightarrow> list_all (\<lambda>n. map_of src n = None \<or> map_of src n = Some []) ns"
  by (induction ns) (auto split: option.splits)

lemma reject_names_error: "reject_names ns src = Inl e \<Longrightarrow> \<exists>m. e = OTLPConfigError m"
  by (induction ns) (auto split: if_splits)

lemma reject_unsupported_error:
  "reject_unsupported_per_signal src = Inl e \<Longrightarrow> \<exists>m. e = OTLPConfigError m"
  unfolding reject_unsupported_per_signal_def by (rule reject_names_error)

lemmas env_errors = parse_timeout_error parse_compression_error parse_headers_error
  signal_headers_error reject_unsupported_error

definition config_error_or :: "(config \<Rightarrow> bool) \<Rightarrow> config res \<Rightarrow> bool" where
  "config_error_or P r = (case r of Inl e \<Rightarrow> \<exists>m. e = OTLPConfigError m | Inr c \<Rightarrow> P c)"

lemma config_error_or_bind:
  "(\<And>e. m = Inl e \<Longrightarrow> \<exists>msg. e = OTLPConfigError msg) \<Longrightarrow>
    (\<And>a. m = Inr a \<Longrightarrow> config_error_or P (f a)) \<Longrightarrow> config_error_or P (bindR m f)"
  by (cases m) (auto simp: config_error_or_def)

lemma config_error_or_raise: "config_error_or P (Inl (OTLPConfigError m))"
  by (simp add: config_error_or_def)

lemma config_error_or_post_init: "config_error_or validated (post_init c)"
  using post_init_cases [of c] by (auto simp: config_error_or_def split: sum.splits)

lemma from_env_validated: "config_error_or validated (from_env src)"
  unfolding from_env_def Let_def
  by (auto intro!: config_error_or_bind config_error_or_raise config_error_or_post_init
      dest: env_errors split: option.split)

text \<open>
  C10. Reading the environment is safe: whatever the variables hold, \<^verbatim>\<open>from_env\<close> either raises
  \<^verbatim>\<open>OTLPConfigError\<close> (and nothing else), or gives a configuration with a non-empty endpoint and
  no zero or negative budget or timeout for any signal, and then none of the fifteen per-signal
  variables it cannot honour was set.
\<close>

theorem from_env_safe:
  "case from_env src of
     Inl e \<Rightarrow> \<exists>m. e = OTLPConfigError m
   | Inr c \<Rightarrow> validated c \<and>
       list_all (\<lambda>n. map_of src n = None \<or> map_of src n = Some []) unsupported_names"
proof (cases "from_env src")
  case (Inl e)
  then show ?thesis
    using from_env_validated [of src] by (simp add: config_error_or_def)
next
  case (Inr c)
  then have "reject_unsupported_per_signal src = Inr ()"
    by (auto simp: from_env_def bindR_Inr_iff)
  then show ?thesis
    using from_env_validated [of src]
    by (simp add: Inr config_error_or_def reject_unsupported_per_signal_def reject_names_ok)
qed

text \<open>
  What each signal reads from its own variables, once the environment is accepted.
\<close>

lemma post_init_Inr: "post_init c = Inr c' \<Longrightarrow> c' = c"
  using post_init_cases [of c] by simp

lemma from_env_all:
  assumes "from_env src = Inr c"
  shows "parse_headers (env_get src (var ''HEADERS'') []) = Inr (cfg_headers c) \<and>
    signal_headers src (S ''METRICS'') = Inr (cfg_metrics_headers c) \<and>
    signal_headers src (S ''LOGS'') = Inr (cfg_logs_headers c) \<and>
    signal_headers src (S ''TRACES'') = Inr (cfg_traces_headers c) \<and>
    parse_timeout (map_of src (var ''METRICS_TIMEOUT'')) (var ''METRICS_TIMEOUT'') =
      Inr (cfg_metrics_timeout c) \<and>
    parse_timeout (map_of src (var ''LOGS_TIMEOUT'')) (var ''LOGS_TIMEOUT'') =
      Inr (cfg_logs_timeout c) \<and>
    parse_timeout (map_of src (var ''TRACES_TIMEOUT'')) (var ''TRACES_TIMEOUT'') =
      Inr (cfg_traces_timeout c)"
proof (cases "protocol_of_str (env_get src (var ''PROTOCOL'') (protocol_value HTTP_JSON))")
  case None
  with assms show ?thesis
    by (simp add: from_env_def bindR_Inr_iff del: protocol_value.simps)
next
  case (Some proto)
  show ?thesis
    using assms unfolding from_env_def Let_def Some option.case bindR_Inr_iff
    by (elim exE conjE) (drule post_init_Inr, simp add: OTLPConfig_def)
qed

lemmas from_env_fields = from_env_all [THEN conjunct1]
  from_env_all [THEN conjunct2, THEN conjunct1]
  from_env_all [THEN conjunct2, THEN conjunct2, THEN conjunct1]
  from_env_all [THEN conjunct2, THEN conjunct2, THEN conjunct2, THEN conjunct1]
lemmas from_env_timeouts = from_env_all [THEN conjunct2, THEN conjunct2, THEN conjunct2, THEN conjunct2]

fun signal_prefix :: "signal_kind \<Rightarrow> string" where
  "signal_prefix METRICS = ''METRICS''"
| "signal_prefix LOGS = ''LOGS''"
| "signal_prefix TRACES = ''TRACES''"
| "signal_prefix PROFILES = ''PROFILES''"

text \<open>
  A signal's own headers variable replaces the general one instead of merging with it: when
  it is set, even to the empty string, the signal sends exactly the headers parsed from it, and
  otherwise exactly the general ones.
\<close>

theorem from_env_headers:
  assumes "from_env src = Inr c" and "kind \<noteq> PROFILES"
  shows "Inr (headers_for c kind) =
    (case map_of src (var (signal_prefix kind @ ''_HEADERS'')) of
       None \<Rightarrow> parse_headers (env_get src (var ''HEADERS'') [])
     | Some raw \<Rightarrow> parse_headers raw)"
  using assms(2) from_env_fields [OF assms(1)]
  by (cases kind)
    (auto simp: headers_for_def signal_headers_def var_def bindR_Inr_iff split: option.splits)

definition sample_env :: env where
  "sample_env = [(var ''METRICS_HEADERS'', []), (var ''LOGS_TIMEOUT'', dec_nat 1)]"

lemma parse_headers_Nil [simp]: "parse_headers [] = Inr []"
  by (simp add: parse_headers_def)

lemma sample_env_accepted: "\<exists>c. from_env sample_env = Inr c"
proof -
  have float: "parse_timeout (Some (dec_nat 1)) n = Inr (Some (f_div_pos (f_fin False 1) 1000))" for n
    using py_float_dec_nat [of 1] by (simp add: parse_timeout_def dec_nat_not_Nil)
  have "f_div_pos (f_fin False 1) 1000 = Fin (1 / 1000)"
    using overflow_bound_gt_1 by (simp add: f_div_pos_def f_fin_def)
  moreover have "reject_unsupported_per_signal sample_env = Inr ()"
    by (simp add: reject_unsupported_per_signal_def reject_names_ok unsupported_names_def
        unsupported_name_def UNSUPPORTED_PER_SIGNAL_def SIGNAL_PREFIXES_def sample_env_def var_def)
  ultimately show ?thesis
    by (simp add: from_env_def sample_env_def var_def env_get_def protocol_of_str_def
        parse_compression_def float signal_headers_def parse_timeout_def [of None] post_init_def OTLPConfig_def not_positive_def del: One_nat_def)
qed

lemma from_env_headers_witness:
  "\<exists>c. from_env sample_env = Inr c \<and> Inr (headers_for c METRICS) = parse_headers []"
proof -
  obtain c where c: "from_env sample_env = Inr c"
    using sample_env_accepted by auto
  moreover have "Inr (headers_for c METRICS) = parse_headers []"
    using from_env_headers [OF c, of METRICS] by (simp add: sample_env_def var_def)
  ultimately show ?thesis by blast
qed

text \<open>
  A timeout variable counts milliseconds: a signal whose own variable holds the decimal count
  \<open>n\<close> waits exactly \<open>n/1000\<close> seconds (and a zero count never gets this far).
\<close>

theorem from_env_timeout_milliseconds:
  assumes "from_env src = Inr c" and "kind \<noteq> PROFILES"
    and "map_of src (var (signal_prefix kind @ ''_TIMEOUT'')) = Some (dec_nat n)"
    and "of_nat n < overflow_bound"
  shows "timeout_for c kind = Fin (of_nat n / 1000) \<and> 0 < n"
proof -
  have div: "f_div_pos (f_fin False (of_nat n)) 1000 = Fin (of_nat n / 1000)"
  proof -
    have "(of_nat n / 1000 :: rat) < overflow_bound" "- overflow_bound < (of_nat n / 1000 :: rat)"
      "- overflow_bound < (of_nat n :: rat)"
      using assms(4) overflow_bound_gt_1
      by (auto intro: le_less_trans [of _ "of_nat n"] less_le_trans [of _ 0])
    with assms(4) show ?thesis
      by (auto simp: f_div_pos_def f_fin_def)
  qed
  have "parse_timeout (Some (dec_nat n)) v = Inr (Some (Fin (of_nat n / 1000)))" for v
    using div by (simp add: parse_timeout_def py_float_dec_nat dec_nat_not_Nil)
  with assms(2,3) from_env_timeouts [OF assms(1)]
  have "Some (Fin (of_nat n / 1000)) = timeout_override c kind"
    by (cases kind) (auto simp: var_def)
  then have t: "timeout_for c kind = Fin (of_nat n / 1000)"
    by (auto simp: timeout_for_def split: option.splits)
  have "\<not> not_positive (timeout_for c kind)"
    using from_env_validated [of src] assms(1,2)
    by (cases kind) (auto simp: config_error_or_def validated_def enum_signal_kind_def)
  with t show ?thesis
    by (cases n) (auto simp: not_positive_def)
qed

lemma from_env_timeout_milliseconds_witness:
  "\<exists>c. from_env sample_env = Inr c \<and> timeout_for c LOGS = Fin (1 / 1000)"
proof -
  obtain c where c: "from_env sample_env = Inr c"
    using sample_env_accepted by auto
  moreover have "timeout_for c LOGS = Fin (1 / 1000)"
    using from_env_timeout_milliseconds [OF c, of LOGS 1] overflow_bound_gt_1
    by (simp add: sample_env_def var_def del: One_nat_def)
  ultimately show ?thesis by blast
qed

subsection \<open>Round trips and resolution\<close>

text \<open>How a sender writes one half of a header entry: every UTF-8 byte as a percent escape.\<close>

definition percent_encode :: "str \<Rightarrow> str" where
  "percent_encode s = concat (map (\<lambda>b. [37, hex_upper (b div 16), hex_upper (b mod 16)]) (utf8_nats s))"

fun join_on :: "nat \<Rightarrow> str list \<Rightarrow> str" where
  "join_on c [] = []"
| "join_on c [s] = s"
| "join_on c (s # t # r) = s @ [c] @ join_on c (t # r)"

definition header_entry :: "str \<times> str \<Rightarrow> str" where
  "header_entry p = percent_encode (fst p) @ [61] @ percent_encode (snd p)"

definition render_headers :: "headers \<Rightarrow> str" where
  "render_headers hs = join_on 44 (map header_entry hs)"

lemma unquote_bytes_percent:
  "list_all (\<lambda>b. b < 256) bs \<Longrightarrow>
    unquote_bytes (concat (map (\<lambda>b. [37, hex_upper (b div 16), hex_upper (b mod 16)]) bs)) = bs"
proof (induction bs)
  case (Cons b bs)
  then have "b div 16 < 16" "b mod 16 < 16" by auto
  with Cons show ?case by (simp add: hex_val_hex_upper)
qed simp

lemma percent_encode_chars:
  assumes "list_all is_scalar s" "c \<in> set (percent_encode s)"
  shows "is_ascii c \<and> \<not> is_space c \<and> c \<noteq> 44 \<and> c \<noteq> 61"
proof -
  obtain b where b: "b \<in> set (utf8_nats s)" "c \<in> {37, hex_upper (b div 16), hex_upper (b mod 16)}"
    using assms(2) unfolding percent_encode_def set_concat set_map by fastforce
  have "b < 256"
    using utf8_nats_less [OF assms(1)] b(1) by auto
  then have "b div 16 < 16" "b mod 16 < 16" by auto
  moreover have "48 \<le> hex_upper d \<and> hex_upper d \<le> 57 \<or> 65 \<le> hex_upper d \<and> hex_upper d \<le> 70"
    if "d < 16" for d
    using that by (auto simp: hex_upper_def)
  ultimately have "c = 37 \<or> 48 \<le> c \<and> c \<le> 57 \<or> 65 \<le> c \<and> c \<le> 70"
    using b(2) by blast
  then show ?thesis
    by (auto simp: is_ascii_def is_space_def)
qed

lemma unquote_percent_encode: "list_all is_scalar s \<Longrightarrow> unquote (percent_encode s) = s"
proof -
  assume ok: "list_all is_scalar s"
  have "list_all is_ascii (percent_encode s)"
    using percent_encode_chars [OF ok] by (simp add: list_all_iff)
  moreover have "list_all (\<lambda>b. b < 256) (utf8_nats s)"
    using utf8_nats_less [OF ok] by (simp add: list_all_iff)
  ultimately show ?thesis
    using utf8_decode_nats [OF ok]
    by (simp add: unquote_all_ascii percent_encode_def unquote_bytes_percent
        del: utf8_decode.simps unquote_bytes.simps)
qed

lemma strip_percent_encode: "list_all is_scalar s \<Longrightarrow> strip (percent_encode s) = percent_encode s"
  by (rule strip_no_space) (auto dest: percent_encode_chars)

lemma split_join:
  "xs \<noteq> [] \<Longrightarrow> (\<And>x. x \<in> set xs \<Longrightarrow> c \<notin> set x) \<Longrightarrow> split_on c (join_on c xs) = xs"
  by (induction c xs rule: join_on.induct) (auto simp: split_on_no_sep split_on_append)

lemma parse_header_pairs_entries:
  assumes "list_all (\<lambda>(k, v). list_all is_scalar k \<and> list_all is_scalar v) ps"
  shows "parse_header_pairs (map header_entry ps) hs = Inr (dict_union hs ps)"
  using assms
proof (induction ps arbitrary: hs)
  case (Cons p ps)
  obtain k v where p: "p = (k, v)" by (cases p)
  then have k: "list_all is_scalar k" and v: "list_all is_scalar v"
    using Cons.prems by auto
  have "61 \<notin> set (percent_encode k)"
    using percent_encode_chars [OF k] by auto
  then have part: "partition_on 61 (header_entry (k, v)) = (percent_encode k, Some (percent_encode v))"
    by (simp add: header_entry_def partition_on_app)
  have "\<not> is_space c" if "c \<in> set (header_entry p)" for c
    using that percent_encode_chars [OF k] percent_encode_chars [OF v]
    by (auto simp: header_entry_def p is_space_def)
  then have "strip (header_entry p) = header_entry p"
    by (rule strip_no_space)
  then have "strip (header_entry p) \<noteq> []"
    by (simp add: header_entry_def)
  with Cons k v show ?case
    by (simp add: part p strip_percent_encode unquote_percent_encode dict_union_Cons)
qed simp

text \<open>
  A headers variable round-trips: for any headers, with commas, equals signs, percent signs,
  spaces or non-ASCII text in them, percent-encoding both halves, joining them as \<^verbatim>\<open>key=value\<close> with
  commas and parsing the result gives the headers back, in order.
\<close>

theorem parse_headers_roundtrip:
  assumes "wf_dict hs" and "list_all (\<lambda>(k, v). list_all is_scalar k \<and> list_all is_scalar v) hs"
  shows "parse_headers (render_headers hs) = Inr hs"
proof (cases "hs = []")
  case True
  then show ?thesis by (simp add: render_headers_def)
next
  case False
  have "44 \<notin> set x" if "x \<in> set (map header_entry hs)" for x
    using that assms(2) percent_encode_chars [of _ 44] by (fastforce simp: header_entry_def list_all_iff)
  then have "split_on 44 (join_on 44 (map header_entry hs)) = map header_entry hs"
    using False by (intro split_join) auto
  then show ?thesis
    using parse_header_pairs_entries [OF assms(2), of "[]"] dict_union_fresh [OF assms(1), of "[]"]
    by (simp add: parse_headers_def render_headers_def)
qed

lemma parse_headers_roundtrip_witness:
  "parse_headers (render_headers [(S ''a,b'', [8364, 32]), (S ''x'', [])]) =
     Inr [(S ''a,b'', [8364, 32]), (S ''x'', [])]"
  by (rule parse_headers_roundtrip) (simp_all add: wf_dict_def is_scalar_def str_simps)

text \<open>The optional query and fragment of a URL, each with its mark.\<close>

definition url_tail :: "str \<Rightarrow> str \<Rightarrow> str" where
  "url_tail query frag =
     (if query = [] then [] else 63 # query) @ (if frag = [] then [] else 35 # frag)"

definition url_word :: "nat list \<Rightarrow> str \<Rightarrow> bool" where
  "url_word banned s \<longleftrightarrow> list_all (\<lambda>c. 32 < c \<and> c \<notin> set banned) s"

definition plain_scheme :: "str \<Rightarrow> bool" where
  "plain_scheme s \<longleftrightarrow> s \<noteq> [] \<and> is_alpha (hd s) \<and> list_all is_scheme_char s \<and> lower s = s"

lemma plain_scheme_chars: "plain_scheme s \<Longrightarrow> c \<in> set s \<Longrightarrow> 32 < c \<and> c \<noteq> 58"
  by (auto simp: plain_scheme_def list_all_iff is_scheme_char_def is_alpha_def is_digit_def)

lemma url_clean_id: "list_all (\<lambda>c. 32 < c) s \<Longrightarrow> url_clean s = s"
proof -
  assume *: "list_all (\<lambda>c. 32 < c) s"
  have "dropWhile (\<lambda>c. c \<le> 32) s = s"
    using * by (intro dropWhile_none) (auto simp: list_all_iff)
  then show ?thesis
    using * by (auto simp: url_clean_def list_all_iff intro!: filter_True)
qed

lemma split_scheme_plain: "plain_scheme s \<Longrightarrow> split_scheme (s @ 58 # r) = (s, r)"
proof -
  assume s: "plain_scheme s"
  then have "58 \<notin> set s"
    using plain_scheme_chars [of s 58] by auto
  then have "partition_on 58 (s @ 58 # r) = (s, Some r)"
    by (rule partition_on_app)
  then show ?thesis
    using s by (simp add: split_scheme_def plain_scheme_def)
qed

lemma split_netloc_plain:
  assumes "list_all (\<lambda>c. \<not> is_host_end c) n" and "r = [] \<or> is_host_end (hd r)"
  shows "split_netloc (47 # 47 # n @ r) = (n, r)"
proof -
  have "takeWhile (\<lambda>c. \<not> is_host_end c) (n @ r) = n \<and> dropWhile (\<lambda>c. \<not> is_host_end c) (n @ r) = r"
    using assms by (induction n) (auto split: list.splits, (cases r; auto)+)
  then show ?thesis
    by (simp add: split_netloc_def)
qed

lemma partition_fragment:
  "35 \<notin> set p \<Longrightarrow> 35 \<notin> set query \<Longrightarrow>
    partition_on 35 (p @ url_tail query frag) =
      (p @ (if query = [] then [] else 63 # query), if frag = [] then None else Some frag)"
  using partition_on_app [of 35 "p @ 63 # query" frag] partition_on_app [of 35 p frag]
    partition_on_none [of 35 "p @ 63 # query"] partition_on_none [of 35 p]
  by (auto simp: url_tail_def)

lemma partition_query:
  "63 \<notin> set p \<Longrightarrow>
    partition_on 63 (p @ (if query = [] then [] else 63 # query)) =
      (p, if query = [] then None else Some query)"
  using partition_on_app [of 63 p query] partition_on_none [of 63 p] by auto

lemma split_params_keeps_slash: "hd p = 47 \<Longrightarrow> p \<noteq> [] \<Longrightarrow> fst (split_params p) \<noteq> []"
proof -
  assume p: "hd p = 47" "p \<noteq> []"
  let ?seg = "rev (takeWhile (\<lambda>c. c \<noteq> 47) (rev p))"
  have "47 \<in> set (rev p)"
    using p by (cases p) auto
  then have "takeWhile (\<lambda>c. c \<noteq> 47) (rev p) \<noteq> rev p"
    by (metis (mono_tags) set_takeWhileD)
  then have "length ?seg < length p"
    by (metis length_rev length_takeWhile_le nat_less_le takeWhile_eq_take take_all)
  then have "take (length p - length ?seg) p \<noteq> []"
    using p by simp
  then show ?thesis
    using p by (auto simp: split_params_def Let_def split: prod.splits option.splits)
qed

lemma urlparse_plain:
  assumes "plain_scheme sc" and "url_word [47, 63, 35, 91, 93] netloc"
    and "url_word [63, 35] path" and "path = [] \<or> hd path = 47"
    and "url_word [35] query" and "url_word [] frag"
  shows "\<exists>u. urlparse (sc @ 58 # 47 # 47 # netloc @ path @ url_tail query frag) = Inr u \<and>
    u_scheme u = sc \<and> u_netloc u = netloc \<and> (u_path u = [] \<longleftrightarrow> path = []) \<and>
    u_query u = query \<and> u_fragment u = frag \<and> (path = [] \<longrightarrow> u_params u = [])"
proof -
  let ?tail = "url_tail query frag"
  let ?url = "sc @ 58 # 47 # 47 # netloc @ path @ ?tail"
  have word: "list_all (\<lambda>c. 32 < c) s" if "url_word banned s" for banned s
    using that by (auto simp: url_word_def list_all_iff)
  have "list_all (\<lambda>c. 32 < c) sc"
    using plain_scheme_chars [OF assms(1)] by (auto simp: list_all_iff)
  then have "list_all (\<lambda>c. 32 < c) ?url"
    using word [OF assms(2)] word [OF assms(3)] word [OF assms(5)] word [OF assms(6)]
    by (simp add: url_tail_def)
  then have clean: "url_clean ?url = ?url"
    by (rule url_clean_id)
  have netloc: "split_netloc (47 # 47 # netloc @ path @ ?tail) = (netloc, path @ ?tail)"
    by (rule split_netloc_plain)
      (use assms(2,4) in \<open>auto simp: url_word_def list_all_iff is_host_end_def url_tail_def hd_append\<close>)
  have frag: "partition_on 35 (path @ ?tail) =
      (path @ (if query = [] then [] else 63 # query), if frag = [] then None else Some frag)"
    using assms(3,5) by (intro partition_fragment) (auto simp: url_word_def list_all_iff)
  have query: "partition_on 63 (path @ (if query = [] then [] else 63 # query)) =
      (path, if query = [] then None else Some query)"
    using assms(3) by (intro partition_query) (auto simp: url_word_def list_all_iff)
  have brackets: "91 \<notin> set netloc" "93 \<notin> set netloc"
    using assms(2) by (auto simp: url_word_def list_all_iff)
  obtain p ps where pp: "(if sc \<in> set uses_params \<and> 59 \<in> set path then split_params path
      else (path, [])) = (p, ps)"
    by (meson surj_pair)
  have "p = [] \<longleftrightarrow> path = []" "path = [] \<Longrightarrow> ps = []"
    using pp assms(4) split_params_keeps_slash [of path] by (auto split: if_splits)
  then show ?thesis
    unfolding urlparse_def clean
    by (simp add: split_scheme_plain [OF assms(1)] netloc frag query pp brackets Let_def
        or_empty_def del: append.simps)
qed

text \<open>
  A signal's own endpoint is used as written, except that a URL without a path gets the root
  path, placed before its query and fragment.
\<close>

theorem endpoint_for_override:
  assumes "endpoint_override c kind = Some (sc @ S ''://'' @ netloc @ path @ url_tail query frag)"
    and "plain_scheme sc" and "netloc \<noteq> []" and "url_word [47, 63, 35, 91, 93] netloc"
    and "url_word [63, 35] path" and "path = [] \<or> hd path = 47"
    and "url_word [35] query" and "url_word [] frag"
  shows "endpoint_for c kind = Inr (sc @ S ''://'' @ netloc @
    (if path = [] then S ''/'' else path) @ url_tail query frag)"
proof -
  have lit: "S ''://'' = [58, 47, 47]" "S ''/'' = [47]"
    by (simp_all add: str_simps)
  obtain u where u: "urlparse (sc @ 58 # 47 # 47 # netloc @ path @ url_tail query frag) = Inr u"
    "u_scheme u = sc" "u_netloc u = netloc" "u_path u = [] \<longleftrightarrow> path = []"
    "u_query u = query" "u_fragment u = frag" "path = [] \<Longrightarrow> u_params u = []"
    using urlparse_plain [OF assms(2,4-8)] by blast
  have ne: "sc \<noteq> []"
    using assms(2) by (simp add: plain_scheme_def)
  show ?thesis
    using u ne assms(3)
    by (simp add: endpoint_for_def assms(1) lit urlunparse_def Let_def url_tail_def)
qed

lemma endpoint_for_override_witness:
  "endpoint_for (OTLPConfig (S ''http://a'') \<lparr>cfg_logs_endpoint := Some (S ''https://h:4318?x=1'')\<rparr>) LOGS =
     Inr (S ''https://h:4318/?x=1'')"
proof -
  let ?c = "OTLPConfig (S ''http://a'') \<lparr>cfg_logs_endpoint := Some (S ''https://h:4318?x=1'')\<rparr>"
  have "endpoint_for ?c LOGS = Inr (S ''https'' @ S ''://'' @ S ''h:4318'' @
      (if [] = ([] :: str) then S ''/'' else []) @ url_tail (S ''x=1'') [])"
    by (rule endpoint_for_override [of ?c LOGS "S ''https''" "S ''h:4318''" "[]" "S ''x=1''" "[]"])
      (simp_all add: url_tail_def url_word_def plain_scheme_def is_scheme_char_def is_alpha_def
        lower_def lower_char_def str_simps)
  then show ?thesis
    by (simp add: url_tail_def str_simps)
qed

text \<open>
  Without an endpoint of its own, a signal uses the base endpoint and its path, joined by a
  single slash however many slashes the base endpoint ends in.
\<close>

theorem endpoint_for_base:
  assumes "endpoint_override c kind = None \<or> endpoint_override c kind = Some []"
    and "cfg_endpoint c = base @ replicate n 47" and "base = [] \<or> last base \<noteq> 47"
  shows "endpoint_for c kind = Inr (base @ http_path kind)"
proof -
  have "rstrip_char 47 (base @ replicate n 47) = base"
  proof -
    have "dropWhile (\<lambda>x. x = 47) (replicate n 47 @ rev base) = rev base"
      using assms(3) by (induction n) (cases "rev base", auto simp: last_rev hd_rev [symmetric])
    then show ?thesis
      by (simp add: rstrip_char_def)
  qed
  then show ?thesis
    using assms(1,2) by (auto simp: endpoint_for_def)
qed

lemma endpoint_for_base_witness:
  "endpoint_for (OTLPConfig (S ''http://h//'')) TRACES = Inr (S ''http://h/v1/traces'')"
  using endpoint_for_base [of "OTLPConfig (S ''http://h//'')" TRACES "S ''http://h''" 2]
  by (simp add: OTLPConfig_def str_simps numeral_2_eq_2)

lemma from_env_insecure:
  assumes "from_env src = Inr c"
  shows "cfg_insecure c = parse_bool (env_get src (var ''INSECURE'') []) \<and>
    from_env_warnings src = parse_bool_warnings (env_get src (var ''INSECURE'') []) (var ''INSECURE'')"
proof (cases "protocol_of_str (env_get src (var ''PROTOCOL'') (protocol_value HTTP_JSON))")
  case None
  with assms show ?thesis
    by (simp add: from_env_def bindR_Inr_iff del: protocol_value.simps)
next
  case (Some proto)
  show ?thesis
    using assms unfolding from_env_def Let_def Some option.case bindR_Inr_iff
    by (elim exE conjE)
      (drule post_init_Inr, simp add: OTLPConfig_def from_env_warnings_def Some del: protocol_value.simps)
qed

text \<open>
  C27. Plaintext needs an explicit \<^verbatim>\<open>true\<close>: a configuration read from the environment is insecure exactly
  when \<^verbatim>\<open>OTEL_EXPORTER_OTLP_INSECURE\<close>, stripped and lower-cased, is \<^verbatim>\<open>true\<close>; any other value leaves it
  secure, and exactly one warning, which names the variable, is logged for a value that is neither
  a boolean nor empty.
\<close>

theorem insecure_only_when_true:
  assumes "from_env src = Inr c"
  shows "(cfg_insecure c \<longleftrightarrow> lower (strip (env_get src (var ''INSECURE'') [])) = S ''true'') \<and>
    (if lower (strip (env_get src (var ''INSECURE'') [])) \<in> {S ''true'', S ''false'', []}
     then from_env_warnings src = []
     else from_env_warnings src =
       [S ''ignoring unrecognised '' @ var ''INSECURE'' @ S '' value '' @
        repr_str (env_get src (var ''INSECURE'') []) @ S '', falling back to false''])"
proof -
  have "cfg_insecure c = parse_bool (env_get src (var ''INSECURE'') [])"
    using from_env_insecure [OF assms] by blast
  moreover have "from_env_warnings src =
      parse_bool_warnings (env_get src (var ''INSECURE'') []) (var ''INSECURE'')"
    using from_env_insecure [OF assms] by blast
  ultimately show ?thesis
    by (simp add: parse_bool_def parse_bool_warnings_def)
qed

definition odd_env :: env where
  "odd_env = [(var ''INSECURE'', S ''Yes'')]"

lemma insecure_only_when_true_witness:
  "\<exists>c. from_env odd_env = Inr c \<and> \<not> cfg_insecure c \<and> from_env_warnings odd_env \<noteq> []"
proof -
  have "reject_unsupported_per_signal odd_env = Inr ()"
    by (simp add: reject_unsupported_per_signal_def reject_names_ok unsupported_names_def
        unsupported_name_def UNSUPPORTED_PER_SIGNAL_def SIGNAL_PREFIXES_def odd_env_def var_def)
  then have "\<exists>c. from_env odd_env = Inr c"
    by (simp add: from_env_def odd_env_def var_def env_get_def protocol_of_str_def parse_compression_def
        signal_headers_def parse_timeout_def post_init_def OTLPConfig_def not_positive_def)
  then obtain c where c: "from_env odd_env = Inr c" by blast
  have "lower (strip (env_get odd_env (var ''INSECURE'') [])) = S ''yes''"
    by (simp add: odd_env_def env_get_def strip_def lower_def lower_char_def is_space_def str_simps)
  with insecure_only_when_true [OF c] c show ?thesis
    by auto
qed

end
