(* ===== verification/Credentials.thy ===== *)
theory Credentials
  imports Config JsonEncoder
begin

section \<open>Credential providers\<close>

text \<open>
  \<^verbatim>\<open>credentials.py\<close>. A provider acts on a world and may keep state of its own; its two methods
  are the record \<open>provider\<close>. The bearer token, HTTP basic and OAuth2 client-credentials
  providers follow, the last with its token cache as explicit state beside the world of the
  token endpoint.
\<close>

record ('w) provider =
  pr_headers :: "signal_kind \<Rightarrow> ('w, headers) io"
  pr_invalidate :: "signal_kind \<Rightarrow> ('w, unit) io"

subsection \<open>Bearer token\<close>

datatype 'w token_source = StaticToken str | CallableToken "('w, str) io"

definition bearer_value :: "str \<Rightarrow> headers" where
  "bearer_value token = [(S ''authorization'', S ''Bearer '' @ token)]"

definition bearer_headers :: "'w token_source \<Rightarrow> signal_kind \<Rightarrow> ('w, headers) io" where
  "bearer_headers source kind =
     bindE (case source of StaticToken t \<Rightarrow> returnE t | CallableToken f \<Rightarrow> f)
       (\<lambda>token. returnE (bearer_value token))"

text \<open>Nothing is cached: a callable source is asked again on the next attempt anyway.\<close>

definition bearer_invalidate :: "signal_kind \<Rightarrow> ('w, unit) io" where
  "bearer_invalidate kind = returnE ()"

definition bearer_provider :: "'w token_source \<Rightarrow> 'w provider" where
  "bearer_provider source =
     \<lparr>pr_headers = bearer_headers source, pr_invalidate = bearer_invalidate\<rparr>"

subsection \<open>HTTP basic\<close>

text \<open>The constructor encodes the pair, and may raise; \<open>headers\<close> then returns the stored header.\<close>

definition basic_credentials :: "str \<Rightarrow> str \<Rightarrow> str res" where
  "basic_credentials username password =
     bindR (utf8_encode (username @ [58] @ password)) (\<lambda>raw. Inr (S ''Basic '' @ b64encode raw))"

definition basic_headers :: "str \<Rightarrow> signal_kind \<Rightarrow> ('w, headers) io" where
  "basic_headers header kind = returnE [(S ''authorization'', header)]"

definition basic_invalidate :: "signal_kind \<Rightarrow> ('w, unit) io" where
  "basic_invalidate kind = returnE ()"

definition basic_provider :: "str \<Rightarrow> 'w provider" where
  "basic_provider header =
     \<lparr>pr_headers = basic_headers header, pr_invalidate = basic_invalidate\<rparr>"

subsection \<open>OAuth2 client credentials\<close>

datatype auth_style = POST | BASIC

record oauth_config =
  oc_token_url :: str
  oc_client_id :: str
  oc_client_secret :: str
  oc_scope :: "str option"
  oc_extra_params :: "(str, str) dict"
  oc_auth_style :: auth_style
  oc_expiry_skew :: pyfloat
  oc_default_ttl :: pyfloat

text \<open>The state of the object; a session is present or not, and its owner is recorded.\<close>

record oauth_state =
  os_session :: bool
  os_owns_session :: bool
  os_token :: "str option"
  os_expires_at :: pyfloat

definition oauth_init :: "bool \<Rightarrow> oauth_state" where
  "oauth_init session =
     \<lparr>os_session = session, os_owns_session = False, os_token = None, os_expires_at = Fin 0\<rparr>"

text \<open>
  What the provider calls: the POST of a form to a URL with headers, giving status and body (a
  \<open>ClientError\<close> or \<open>TimeoutError\<close> when it fails), the session's \<open>close\<close>, the clock, the JSON
  parser, and \<^verbatim>\<open>str\<close> of a number or container.
\<close>

record 'w oauth_env =
  oe_post :: "str \<Rightarrow> (str, str) dict \<Rightarrow> headers \<Rightarrow> ('w, int \<times> bytes) io"
  oe_close :: "('w, unit) io"
  oe_monotonic :: "'w \<Rightarrow> pyfloat \<times> 'w"
  oe_loads :: "bytes \<Rightarrow> json res"
  oe_show :: "json \<Rightarrow> str"

type_synonym ('w, 'a) oauth_io = "(oauth_state \<times> 'w, 'a) io"

definition oauth_form :: "oauth_config \<Rightarrow> (str, str) dict" where
  "oauth_form c =
     (let form = dict_union [(S ''grant_type'', S ''client_credentials'')] (oc_extra_params c);
          form = (case oc_scope c of None \<Rightarrow> form
                  | Some s \<Rightarrow> if s = [] then form else dict_set (S ''scope'') s form)
      in if oc_auth_style c = POST
         then dict_set (S ''client_secret'') (oc_client_secret c)
                (dict_set (S ''client_id'') (oc_client_id c) form)
         else form)"

definition oauth_auth_header :: "oauth_config \<Rightarrow> headers res" where
  "oauth_auth_header c =
     (if oc_auth_style c \<noteq> BASIC then Inr []
      else bindR (quote_plus (oc_client_id c)) (\<lambda>user.
           bindR (quote_plus (oc_client_secret c)) (\<lambda>secret.
           bindR (utf8_encode (user @ [58] @ secret)) (\<lambda>raw.
           Inr [(S ''Authorization'', S ''Basic '' @ b64encode raw)]))))"

definition oauth_usable :: "oauth_config \<Rightarrow> 'w oauth_env \<Rightarrow> oauth_state \<times> 'w \<Rightarrow> bool \<times> (oauth_state \<times> 'w)" where
  "oauth_usable c env sw =
     (let (s, w) = sw
      in case os_token s of
           None \<Rightarrow> (False, sw)
         | Some _ \<Rightarrow>
             (let (now, w') = oe_monotonic env w
              in (f_less now (f_sub (os_expires_at s) (oc_expiry_skew c)), (s, w'))))"

definition oauth_invalidate :: "signal_kind \<Rightarrow> ('w, unit) oauth_io" where
  "oauth_invalidate kind sw = Some (Inr (), (fst sw)\<lparr>os_token := None\<rparr>, snd sw)"

definition oauth_aclose :: "'w oauth_env \<Rightarrow> ('w, unit) oauth_io" where
  "oauth_aclose env sw =
     (let (s, w) = sw
      in if os_owns_session s \<and> os_session s
         then (case oe_close env w of None \<Rightarrow> None | Some (r, w') \<Rightarrow> Some (r, (s, w')))
         else Some (Inr (), sw))"

definition ensure_session :: "oauth_state \<Rightarrow> oauth_state" where
  "ensure_session s =
     (if os_session s then s else s\<lparr>os_session := True, os_owns_session := True\<rparr>)"

subsection \<open>The token response\<close>

fun json_truthy :: "json \<Rightarrow> bool" where
  "json_truthy JNull = False"
| "json_truthy (JBool b) = b"
| "json_truthy (JInt i) = (i \<noteq> 0)"
| "json_truthy (JFloat x) = f_truthy x"
| "json_truthy (JStr s) = (s \<noteq> [])"
| "json_truthy (JArr vs) = (vs \<noteq> [])"
| "json_truthy (JObj d) = (d \<noteq> [])"

text \<open>\<^verbatim>\<open>float(x)\<close>; an integer past the largest float raises \<^verbatim>\<open>OverflowError\<close>.\<close>

fun json_float :: "json \<Rightarrow> pyfloat res" where
  "json_float (JFloat x) = Inr x"
| "json_float (JBool b) = Inr (Fin (if b then 1 else 0))"
| "json_float (JInt i) =
     (if \<bar>of_int i\<bar> \<ge> overflow_bound then Inl (OverflowError (S ''int too large to convert to float''))
      else Inr (Fin (of_int i)))"
| "json_float (JStr s) =
     (case py_float_of_str s of Some x \<Rightarrow> Inr x
      | None \<Rightarrow> Inl (ValueError (S ''could not convert string to float: '' @ repr_str s)))"
| "json_float _ = Inl (TypeError (S ''float() argument must be a string or a real number''))"

definition rejection_detail :: "(json \<Rightarrow> str) \<Rightarrow> json \<Rightarrow> str" where
  "rejection_detail show_other body =
     (case body of
        JObj d \<Rightarrow>
          (let error = json_str show_other
                 (dict_get_default d (S ''error'') (JStr (S ''unknown_error'')));
               description = dict_get_default d (S ''error_description'') JNull
           in if json_truthy description
              then error @ S '': '' @ json_str show_other description else error)
      | _ \<Rightarrow> [])"

definition parse_ttl :: "pyfloat \<Rightarrow> json \<Rightarrow> pyfloat res" where
  "parse_ttl default_ttl expires_in =
     (case expires_in of
        JNull \<Rightarrow> Inr default_ttl
      | _ \<Rightarrow>
          (case json_float expires_in of
             Inl (TypeError _) \<Rightarrow>
               Inl (OTLPPermanentError (S ''token endpoint returned a malformed expires_in''))
           | Inl (ValueError _) \<Rightarrow>
               Inl (OTLPPermanentError (S ''token endpoint returned a malformed expires_in''))
           | r \<Rightarrow> r))"

text \<open>From status and body to the token and its time to live, clamped at zero.\<close>

definition token_of_response ::
  "oauth_config \<Rightarrow> 'w oauth_env \<Rightarrow> int \<Rightarrow> bytes \<Rightarrow> (str \<times> pyfloat) res" where
  "token_of_response c env status raw =
     (if status \<ge> 500
      then Inl (OTLPTransportError (S ''token endpoint returned status '' @ dec_int status))
      else case oe_loads env raw of
        Inl (ValueError _) \<Rightarrow> Inl (OTLPPermanentError (S ''token endpoint returned a non-JSON body''))
      | Inl e \<Rightarrow> Inl e
      | Inr body \<Rightarrow>
          if status \<ge> 400
          then Inl (OTLPPermanentError (S ''token endpoint rejected the credentials ('' @
            rejection_detail (oe_show env) body @ S '')''))
          else (case body of
            JObj d \<Rightarrow>
              (let access_token = dict_get_default d (S ''access_token'') JNull
               in if \<not> json_truthy access_token
                  then Inl (OTLPPermanentError (S ''token endpoint returned no access_token''))
                  else bindR (parse_ttl (oc_default_ttl c)
                      (dict_get_default d (S ''expires_in'') JNull)) (\<lambda>ttl.
                    Inr (json_str (oe_show env) access_token, py_max ttl (Fin 0))))
          | _ \<Rightarrow> Inl (OTLPPermanentError (S ''token endpoint returned no access_token''))))"

definition unreachable_endpoint :: "exn \<Rightarrow> exn" where
  "unreachable_endpoint e =
     (case e of
        ClientError cls m \<Rightarrow> OTLPTransportError
          (S ''could not reach the token endpoint: '' @ cls @ S '': '' @ m)
      | TimeoutError m \<Rightarrow> OTLPTransportError
          (S ''could not reach the token endpoint: '' @ S ''TimeoutError'' @ S '': '' @ m)
      | _ \<Rightarrow> e)"

definition oauth_refresh :: "oauth_config \<Rightarrow> 'w oauth_env \<Rightarrow> ('w, unit) oauth_io" where
  "oauth_refresh c env sw =
     (let s = ensure_session (fst sw); w = snd sw
      in case oauth_auth_header c of
           Inl e \<Rightarrow> Some (Inl (unreachable_endpoint e), (s, w))
         | Inr hs \<Rightarrow>
             (case oe_post env (oc_token_url c) (oauth_form c) hs w of
                None \<Rightarrow> None
              | Some (Inl e, w1) \<Rightarrow> Some (Inl (unreachable_endpoint e), (s, w1))
              | Some (Inr (status, raw), w1) \<Rightarrow>
                  (case token_of_response c env status raw of
                     Inl e \<Rightarrow> Some (Inl e, (s, w1))
                   | Inr (token, ttl) \<Rightarrow>
                       (let (now, w2) = oe_monotonic env w1
                        in Some (Inr (), (s\<lparr>os_token := Some token,
                             os_expires_at := f_add now ttl\<rparr>, w2))))))"

text \<open>\<^verbatim>\<open>f"Bearer {self._token}"\<close>, on whatever the field holds.\<close>

definition token_text :: "str option \<Rightarrow> str" where
  "token_text t = (case t of None \<Rightarrow> S ''None'' | Some s \<Rightarrow> s)"

definition oauth_headers :: "oauth_config \<Rightarrow> 'w oauth_env \<Rightarrow> signal_kind \<Rightarrow> ('w, headers) oauth_io" where
  "oauth_headers c env kind sw =
     (let (usable, sw1) = oauth_usable c env sw
      in if usable then Some (Inr (bearer_value (token_text (os_token (fst sw1)))), sw1)
         else
           (let (usable, sw2) = oauth_usable c env sw1
            in case (if usable then Some (Inr (), sw2) else oauth_refresh c env sw2) of
                 None \<Rightarrow> None
               | Some (Inl e, sw3) \<Rightarrow> Some (Inl e, sw3)
               | Some (Inr _, sw3) \<Rightarrow> Some (Inr (bearer_value (token_text (os_token (fst sw3)))), sw3)))"

definition oauth_provider :: "oauth_config \<Rightarrow> 'w oauth_env \<Rightarrow> (oauth_state \<times> 'w) provider" where
  "oauth_provider c env =
     \<lparr>pr_headers = oauth_headers c env, pr_invalidate = oauth_invalidate\<rparr>"

subsection \<open>The provider interface\<close>

text \<open>
  What the client relies on: a provider's headers are one lower-case \<^verbatim>\<open>authorization\<close> entry, and
  \<^verbatim>\<open>invalidate\<close> does not fail.
\<close>

locale credential_provider =
  fixes get_headers :: "signal_kind \<Rightarrow> ('w, headers) io"
    and invalidate :: "signal_kind \<Rightarrow> ('w, unit) io"
  assumes only_authorization:
      "get_headers kind w = Some (Inr h, w') \<Longrightarrow> \<exists>v. h = [(S ''authorization'', v)]"
    and invalidate_total: "\<exists>w'. invalidate kind w = Some (Inr (), w')"
begin

lemma merged_headers:
  assumes "get_headers kind w = Some (Inr h, w')"
  shows "map_of (dict_union static h) (S ''authorization'') = map_of h (S ''authorization'') \<and>
    (k \<noteq> S ''authorization'' \<longrightarrow> map_of (dict_union static h) k = map_of static k)"
proof -
  obtain v where h: "h = [(S ''authorization'', v)]"
    using only_authorization [OF assms] by blast
  then have "wf_dict h"
    by (simp add: wf_dict_def)
  then show ?thesis
    by (simp add: map_of_dict_union h)
qed

end

lemma bearer_value_entry: "\<exists>v. bearer_value t = [(S ''authorization'', v)]"
  by (simp add: bearer_value_def)

interpretation bearer: credential_provider "bearer_headers source" bearer_invalidate
  for source :: "'w token_source"
  by unfold_locales (auto simp: bearer_headers_def bearer_invalidate_def bindE_Some_iff bearer_value_def)

interpretation basic_auth: credential_provider "basic_headers header" basic_invalidate
  for header
  by unfold_locales (auto simp: basic_headers_def basic_invalidate_def)

subsection \<open>Properties of the OAuth2 provider\<close>

lemma oauth_usable_state: "oauth_usable c env (s, w) = (b, (s', w')) \<Longrightarrow> s' = s \<and> (b \<longrightarrow> os_token s \<noteq> None)"
  by (auto simp: oauth_usable_def split: option.splits prod.splits)

lemma oauth_refresh_cases:
  assumes "oauth_refresh c env (s, w) = Some (r, (s', w'))"
  shows "(case r of
      Inr _ \<Rightarrow> \<exists>hs status raw w1 token ttl. oauth_auth_header c = Inr hs \<and>
        oe_post env (oc_token_url c) (oauth_form c) hs w = Some (Inr (status, raw), w1) \<and>
        token_of_response c env status raw = Inr (token, ttl) \<and>
        os_token s' = Some token \<and> os_expires_at s' = f_add (fst (oe_monotonic env w1)) ttl \<and>
        w' = snd (oe_monotonic env w1)
    | Inl _ \<Rightarrow> os_token s' = os_token s \<and> os_expires_at s' = os_expires_at s)"
  using assms
  by (auto simp: oauth_refresh_def ensure_session_def Let_def
      split: sum.splits option.splits prod.splits if_splits)

lemma oauth_headers_cases:
  assumes "oauth_headers c env kind (s, w) = Some (r, (s', w'))"
  obtains (cached) t where "os_token s = Some t" "r = Inr (bearer_value t)" "s' = s"
  | (minted) w1 t where "oauth_refresh c env (s, w1) = Some (Inr (), (s', w'))" "os_token s' = Some t"
      "r = Inr (bearer_value t)"
  | (failed) w1 e where "oauth_refresh c env (s, w1) = Some (Inl e, (s', w'))" "r = Inl e"
proof -
  obtain b1 w1 where u1: "oauth_usable c env (s, w) = (b1, (s, w1))" "b1 \<Longrightarrow> os_token s \<noteq> None"
    using oauth_usable_state by (metis surj_pair)
  obtain b2 w2 where u2: "oauth_usable c env (s, w1) = (b2, (s, w2))" "b2 \<Longrightarrow> os_token s \<noteq> None"
    using oauth_usable_state by (metis surj_pair)
  show thesis
  proof (cases "b1 \<or> b2")
    case True
    then show thesis
      using assms u1 u2
      by (auto simp: oauth_headers_def token_text_def intro: cached split: if_splits)
  next
    case False
    then obtain r0 s0 w0 where ref: "oauth_refresh c env (s, w2) = Some (r0, (s0, w0))"
      using assms u1 u2 by (auto simp: oauth_headers_def split: option.splits)
    show thesis
    proof (cases r0)
      case (Inl e)
      then show thesis
        using assms u1 u2 ref False by (auto simp: oauth_headers_def intro: failed)
    next
      case (Inr u)
      obtain t where "os_token s0 = Some t"
        using oauth_refresh_cases [OF ref] Inr by auto
      then show thesis
        using assms u1 u2 ref False Inr
        by (auto simp: oauth_headers_def token_text_def intro!: minted)
    qed
  qed
qed

interpretation oauth: credential_provider "oauth_headers c env" oauth_invalidate
  for c :: oauth_config and env :: "'w oauth_env"
proof unfold_locales
  fix kind :: signal_kind and sw :: "oauth_state \<times> 'w" and h sw'
  assume "oauth_headers c env kind sw = Some (Inr h, sw')"
  then show "\<exists>v. h = [(S ''authorization'', v)]"
    by (cases sw; cases sw') (auto elim!: oauth_headers_cases simp: bearer_value_def)
qed (simp add: oauth_invalidate_def)

text \<open>
  C24. An OAuth2 header always carries the token the provider holds: whenever \<^verbatim>\<open>headers\<close> returns,
  a token is stored and the header is \<^verbatim>\<open>Bearer\<close> with exactly that token (never \<^verbatim>\<open>Bearer None\<close>); when it
  raises, the cached token and its expiry are as they were.
\<close>

theorem oauth_header_carries_token:
  "case oauth_headers c env kind (s, w) of
     None \<Rightarrow> True
   | Some (Inr h, (s', w')) \<Rightarrow>
       (\<exists>t. os_token s' = Some t \<and> h = [(S ''authorization'', S ''Bearer '' @ t)])
   | Some (Inl e, (s', w')) \<Rightarrow> os_token s' = os_token s \<and> os_expires_at s' = os_expires_at s"
proof (cases "oauth_headers c env kind (s, w)")
  case (Some rsw)
  obtain r s' w' where r: "rsw = (r, (s', w'))" by (metis surj_pair)
  from Some [unfolded r] show ?thesis
  proof (cases rule: oauth_headers_cases)
    case (failed w1 e)
    then show ?thesis
      using Some r oauth_refresh_cases [OF failed(1)] by simp
  qed (simp_all add: Some r bearer_value_def)
qed simp

text \<open>
  A minted token is reused until its expiry less the skew, and not after: once a refresh has
  stored a token whose lifetime starts at \<open>minted\<close> and lasts \<open>ttl\<close> seconds, a call at time \<open>now\<close>
  answers from the cache, without any request, if \<open>now < minted + ttl - skew\<close>, and otherwise
  goes to the token endpoint.
\<close>

theorem oauth_cache_window:
  assumes "os_token s = Some t" and "os_expires_at s = Fin (minted + ttl)"
    and "oc_expiry_skew c = Fin skew" and "\<bar>minted + ttl - skew\<bar> < overflow_bound"
    and "oe_monotonic env w = (Fin now, w)"
  shows "oauth_headers c env kind (s, w) =
    (if now < minted + ttl - skew
     then Some (Inr [(S ''authorization'', S ''Bearer '' @ t)], (s, w))
     else (case oauth_refresh c env (s, w) of
         None \<Rightarrow> None
       | Some (Inl e, sw) \<Rightarrow> Some (Inl e, sw)
       | Some (Inr _, sw) \<Rightarrow> Some (Inr (bearer_value (token_text (os_token (fst sw)))), sw)))"
proof -
  have "oauth_usable c env (s, w) = (now < minted + ttl - skew, (s, w))"
    using assms by (simp add: oauth_usable_def f_sub_Fin)
  then show ?thesis
    using assms(1) by (simp add: oauth_headers_def bearer_value_def token_text_def)
qed

definition sample_oauth :: oauth_config where
  "sample_oauth = \<lparr>oc_token_url = S ''https://idp/token'', oc_client_id = S ''id'',
     oc_client_secret = S ''s:1'', oc_scope = None, oc_extra_params = [], oc_auth_style = POST,
     oc_expiry_skew = Fin 30, oc_default_ttl = Fin 300\<rparr>"

definition sample_token_endpoint :: "json \<Rightarrow> rat oauth_env" where
  "sample_token_endpoint body =
     \<lparr>oe_post = (\<lambda>_ _ _. returnE (200, [])), oe_close = returnE (),
      oe_monotonic = (\<lambda>t. (Fin t, t)), oe_loads = (\<lambda>_. Inr body), oe_show = (\<lambda>_. [])\<rparr>"

lemma oauth_cache_window_witness:
  "oauth_headers sample_oauth (sample_token_endpoint JNull) METRICS
     (\<lparr>os_session = True, os_owns_session = False, os_token = Some (S ''t''),
       os_expires_at = Fin (100 + 60)\<rparr>, 129) =
   Some (Inr [(S ''authorization'', S ''Bearer t'')],
     (\<lparr>os_session = True, os_owns_session = False, os_token = Some (S ''t''),
       os_expires_at = Fin (100 + 60)\<rparr>, 129))"
  by (subst oauth_cache_window [where t = "S ''t''" and minted = 100 and ttl = 60 and skew = 30 and now = 129])
    (simp_all add: sample_oauth_def sample_token_endpoint_def less_overflow_bound)

lemma token_ttl:
  assumes "token_of_response c env status raw = Inr (token, ttl)" and "oe_loads env raw = Inr (JObj d)"
    and "map_of d (S ''expires_in'') = Some (JInt x)"
  shows "ttl = Fin (of_int (max x 0))"
proof -
  have "parse_ttl (oc_default_ttl c) (JInt x) = Inr y \<Longrightarrow> y = Fin (of_int x)" for y
    by (simp add: parse_ttl_def split: if_splits)
  with assms show ?thesis
    by (auto simp: token_of_response_def dict_get_default_def bindR_Inr_iff py_max_def Let_def max_def
        split: if_splits)
qed

text \<open>
  A defect: a token whose lifetime is not longer than the expiry skew is never usable. When
  the endpoint answers with such an \<^verbatim>\<open>expires_in\<close> (a zero or negative one is clamped to zero, not to
  the skew), no later time finds the token usable, so every export mints again.
\<close>

theorem oauth_short_lifetime_never_cached:
  assumes "oauth_refresh c env (s, w) = Some (Inr (), (s', w'))"
    and "\<And>hs. oe_post env (oc_token_url c) (oauth_form c) hs w = Some (Inr (status, raw), w1)"
    and "oe_loads env raw = Inr (JObj d)" and "map_of d (S ''expires_in'') = Some (JInt x)"
    and "oe_monotonic env w1 = (Fin minted, w1)" and "oc_expiry_skew c = Fin skew"
    and "of_int x \<le> skew" "0 \<le> skew" and "\<bar>minted + of_int (max x 0)\<bar> < overflow_bound"
      "\<bar>minted + of_int (max x 0) - skew\<bar> < overflow_bound"
    and "oe_monotonic env later = (Fin now, later)" and "minted \<le> now"
  shows "oauth_usable c env (s', later) = (False, (s', later))"
proof -
  obtain token ttl where tok: "token_of_response c env status raw = Inr (token, ttl)"
    "os_token s' = Some token" "os_expires_at s' = f_add (Fin minted) ttl"
    using oauth_refresh_cases [OF assms(1)] assms(2,5) by auto
  have "ttl = Fin (of_int (max x 0))"
    using tok(1) assms(3,4) by (rule token_ttl)
  moreover have "of_int (max x 0) \<le> skew"
    using assms(7,8) by (simp add: max_def)
  ultimately have "\<not> f_less (Fin now) (f_sub (os_expires_at s') (Fin skew))"
    using tok(3) assms(9,10,12) by (simp add: f_add_Fin f_sub_Fin)
  then show ?thesis
    using assms(6,11) tok(2) by (simp add: oauth_usable_def)
qed

definition short_lived :: "rat oauth_env" where
  "short_lived = sample_token_endpoint
     (JObj [(S ''access_token'', JStr (S ''t'')), (S ''expires_in'', JInt (- 5))])"

lemma oauth_short_lifetime_never_cached_witness:
  "\<exists>s. oauth_refresh sample_oauth short_lived (oauth_init True, 10) = Some (Inr (), (s, 10)) \<and>
     oauth_usable sample_oauth short_lived (s, 11) = (False, (s, 11))"
proof -
  define s where "s = (oauth_init True)\<lparr>os_token := Some (S ''t''), os_expires_at := Fin 10\<rparr>"
  have add: "f_add (Fin 10) (Fin 0) = Fin 10"
    using f_add_Fin [of 10 0] less_overflow_bound [of 10] by simp
  have small: "\<not> overflow_bound \<le> 5" "(10::rat) < overflow_bound" "(20::rat) < overflow_bound"
    using less_overflow_bound [of 5] less_overflow_bound [of 10] less_overflow_bound [of 20] by simp_all
  have run: "oauth_refresh sample_oauth short_lived (oauth_init True, 10) = Some (Inr (), (s, 10))"
    using small(1) by (simp add: oauth_refresh_def short_lived_def sample_token_endpoint_def
        sample_oauth_def oauth_auth_header_def token_of_response_def dict_get_default_def parse_ttl_def
        py_max_def ensure_session_def oauth_init_def s_def add)
  show ?thesis
    using run oauth_short_lifetime_never_cached [OF run, of 200 "[]" 10
        "[(S ''access_token'', JStr (S ''t'')), (S ''expires_in'', JInt (- 5))]" "- 5" 10 30 11 11] small
    by (simp add: short_lived_def sample_token_endpoint_def sample_oauth_def)
qed

subsection \<open>RFC 6749 presentation of the client's credentials\<close>

text \<open>How a token endpoint reads a \<^verbatim>\<open>Basic\<close> header: base64, the first colon, form decoding.\<close>

definition read_basic_header :: "str \<Rightarrow> (str \<times> str) option" where
  "read_basic_header v =
     (if take 6 v = S ''Basic '' then
        (case b64decode (drop 6 v) of
           None \<Rightarrow> None
         | Some bytes \<Rightarrow>
             (case partition_on 58 (utf8_decode (map unat bytes)) of
                (_, None) \<Rightarrow> None
              | (user, Some secret) \<Rightarrow> Some (user, secret)))
      else None)"

lemma ascii_scalar: "c < 128 \<Longrightarrow> is_scalar c"
  by (simp add: is_scalar_def)

lemma take_Basic: "take 6 (S ''Basic '' @ r) = S ''Basic '' \<and> drop 6 (S ''Basic '' @ r) = r"
  by (simp add: str_simps numeral_eq_Suc)

lemma read_basic_encoded:
  assumes "utf8_encode (user @ [58] @ secret) = Inr raw" and "58 \<notin> set user"
  shows "read_basic_header (S ''Basic '' @ b64encode raw) = Some (user, secret)"
  using utf8_roundtrip [OF assms(1)] take_Basic [of "b64encode raw"]
    partition_on_app [OF assms(2), of secret]
  by (simp add: read_basic_header_def b64decode_encode)

text \<open>
  C37. Client credentials survive the header: with the \<^verbatim>\<open>BASIC\<close> style, for any client id and secret
  without lone surrogates (colons, percent signs, spaces and non-ASCII text included), a token
  endpoint that follows RFC 6749 recovers exactly them, and neither is in the form.
\<close>

theorem oauth_basic_roundtrip:
  assumes "oc_auth_style c = BASIC"
    and "list_all is_scalar (oc_client_id c)" and "list_all is_scalar (oc_client_secret c)"
  shows "\<exists>v. oauth_auth_header c = Inr [(S ''Authorization'', v)] \<and>
    map_option (map_prod unquote_plus unquote_plus) (read_basic_header v) =
      Some (oc_client_id c, oc_client_secret c) \<and>
    (S ''client_secret'' \<notin> fst ` set (oc_extra_params c) \<longrightarrow>
       map_of (oauth_form c) (S ''client_secret'') = None)"
proof -
  obtain u p where q: "quote_plus (oc_client_id c) = Inr u" "quote_plus (oc_client_secret c) = Inr p"
    using assms(2,3) by (auto simp: quote_plus_def utf8_encode_def)
  have ascii: "list_all is_scalar u \<and> list_all is_scalar p"
    using quote_plus_ascii [OF q(1)] quote_plus_ascii [OF q(2)]
    by (auto simp: list_all_iff intro: ascii_scalar)
  then obtain raw where raw: "utf8_encode (u @ [58] @ p) = Inr raw"
    by (auto simp: utf8_encode_def is_scalar_def)
  have "read_basic_header (S ''Basic '' @ b64encode raw) = Some (u, p)"
    using raw quote_plus_no_colon [OF q(1)] by (rule read_basic_encoded)
  moreover have "map_of (oauth_form c) (S ''client_secret'') = None"
    if "S ''client_secret'' \<notin> fst ` set (oc_extra_params c)"
    using assms(1) map_of_dict_union_None [OF _ that,
        of "[(S ''grant_type'', S ''client_credentials'')]"]
    by (auto simp: oauth_form_def Let_def map_of_dict_set split: option.splits)
  ultimately show ?thesis
    using assms(1) q raw unquote_plus_quote_plus [OF q(1)] unquote_plus_quote_plus [OF q(2)]
    by (simp add: oauth_auth_header_def)
qed

lemma oauth_basic_roundtrip_witness:
  "\<exists>v. oauth_auth_header (sample_oauth\<lparr>oc_auth_style := BASIC\<rparr>) = Inr [(S ''Authorization'', v)] \<and>
     map_option (map_prod unquote_plus unquote_plus) (read_basic_header v) = Some (S ''id'', S ''s:1'')"
  using oauth_basic_roundtrip [of "sample_oauth\<lparr>oc_auth_style := BASIC\<rparr>"]
  by (auto simp: sample_oauth_def is_scalar_def str_simps)

text \<open>
  The HTTP basic provider follows RFC 7617 instead: a user name without a colon and any
  password come back unchanged, with no percent encoding in between.
\<close>

theorem basic_auth_roundtrip:
  assumes "58 \<notin> set username" and "list_all is_scalar username" "list_all is_scalar password"
  shows "\<exists>v. basic_credentials username password = Inr v \<and>
    read_basic_header v = Some (username, password)"
proof -
  obtain raw where raw: "utf8_encode (username @ [58] @ password) = Inr raw"
    using assms(2,3) by (auto simp: utf8_encode_def is_scalar_def)
  then show ?thesis
    using read_basic_encoded [OF raw assms(1)] by (simp add: basic_credentials_def)
qed

lemma basic_auth_roundtrip_witness:
  "\<exists>v. basic_credentials (S ''bob'') [112, 58, 8364] = Inr v \<and>
     read_basic_header v = Some (S ''bob'', [112, 58, 8364])"
  by (rule basic_auth_roundtrip) (simp_all add: is_scalar_def str_simps)

text \<open>
  C39. A rejection's message never carries the response body: with a 4xx status, two JSON bodies
  with the same \<^verbatim>\<open>error\<close> and \<^verbatim>\<open>error_description\<close> give the same exception, an
  \<^verbatim>\<open>OTLPPermanentError\<close>, whatever else they contain.
\<close>

theorem oauth_rejection_hides_body:
  assumes "400 \<le> status" "status < 500"
    and "oe_loads env raw = Inr (JObj d)" and "oe_loads env raw' = Inr (JObj d')"
    and "map_of d (S ''error'') = map_of d' (S ''error'')"
    and "map_of d (S ''error_description'') = map_of d' (S ''error_description'')"
  shows "token_of_response c env status raw = token_of_response c env status raw' \<and>
    (\<exists>m. token_of_response c env status raw = Inl (OTLPPermanentError m))"
  using assms by (simp add: token_of_response_def rejection_detail_def dict_get_default_def)

lemma oauth_rejection_hides_body_witness:
  "token_of_response sample_oauth ((sample_token_endpoint JNull)
       \<lparr>oe_loads := (\<lambda>b. Inr (JObj [(S ''secret'', JStr (map unat b))]))\<rparr>) 401 [1] =
   token_of_response sample_oauth ((sample_token_endpoint JNull)
       \<lparr>oe_loads := (\<lambda>b. Inr (JObj [(S ''secret'', JStr (map unat b))]))\<rparr>) 401 [2]"
  using oauth_rejection_hides_body [of 401 "(sample_token_endpoint JNull)
       \<lparr>oe_loads := (\<lambda>b. Inr (JObj [(S ''secret'', JStr (map unat b))]))\<rparr>" "[1]" _ "[2]"]
  by simp

end
