(* ===== verification/OAuthTasks.thy ===== *)
theory OAuthTasks
  imports Credentials
begin

section \<open>Concurrent use of the OAuth2 provider\<close>

text \<open>
  One \<^verbatim>\<open>OAuth2ClientCredentials\<close> is shared by many tasks. Between two suspension points a task
  runs alone, so \<^verbatim>\<open>headers\<close> is a sequence of steps: the check without the lock, the check under
  the lock, and the return of the token request, during which only \<^verbatim>\<open>invalidate\<close>, new calls and
  the clock can move. The counters are ghosts.
\<close>

record oauth_tasks =
  ot_state :: oauth_state
  ot_now :: rat
  ot_minting :: bool
  ot_waiting :: nat
  ot_posts :: nat
  ot_failures :: nat
  ot_invalidated :: nat
  ot_returned :: "headers list"

text \<open>\<open>oauth_usable\<close>, with the time of the clock at hand.\<close>

definition usable_at :: "oauth_config \<Rightarrow> oauth_state \<Rightarrow> rat \<Rightarrow> bool" where
  "usable_at c s now \<longleftrightarrow>
     os_token s \<noteq> None \<and> f_less (Fin now) (f_sub (os_expires_at s) (oc_expiry_skew c))"

lemma usable_at_usable:
  "oe_monotonic env w = (Fin now, w) \<Longrightarrow> oauth_usable c env (s, w) = (usable_at c s now, (s, w))"
  by (auto simp: oauth_usable_def usable_at_def split: option.split)

definition current_header :: "oauth_state \<Rightarrow> headers" where
  "current_header s = bearer_value (token_text (os_token s))"

definition store_token :: "str \<Rightarrow> pyfloat \<Rightarrow> rat \<Rightarrow> oauth_state \<Rightarrow> oauth_state" where
  "store_token token ttl now s = s\<lparr>os_token := Some token, os_expires_at := f_add (Fin now) ttl\<rparr>"

inductive oauth_step ::
  "oauth_config \<Rightarrow> 'w oauth_env \<Rightarrow> oauth_tasks \<Rightarrow> oauth_tasks \<Rightarrow> bool"
  for c :: oauth_config and env :: "'w oauth_env" where
  tick: "ot_now s \<le> now \<Longrightarrow> oauth_step c env s (s\<lparr>ot_now := now\<rparr>)"
| cached: "usable_at c (ot_state s) (ot_now s) \<Longrightarrow>
    oauth_step c env s (s\<lparr>ot_returned := current_header (ot_state s) # ot_returned s\<rparr>)"
| queue: "\<not> usable_at c (ot_state s) (ot_now s) \<Longrightarrow> oauth_step c env s (s\<lparr>ot_waiting := Suc (ot_waiting s)\<rparr>)"
| abandon: "ot_waiting s = Suc n \<Longrightarrow> oauth_step c env s (s\<lparr>ot_waiting := n\<rparr>)"
| enter_cached: "\<not> ot_minting s \<Longrightarrow> ot_waiting s = Suc n \<Longrightarrow> usable_at c (ot_state s) (ot_now s) \<Longrightarrow>
    oauth_step c env s (s\<lparr>ot_waiting := n, ot_returned := current_header (ot_state s) # ot_returned s\<rparr>)"
| enter_mint: "\<not> ot_minting s \<Longrightarrow> ot_waiting s = Suc n \<Longrightarrow> \<not> usable_at c (ot_state s) (ot_now s) \<Longrightarrow>
    oauth_auth_header c = Inr hs \<Longrightarrow>
    oauth_step c env s (s\<lparr>ot_waiting := n, ot_minting := True, ot_state := ensure_session (ot_state s),
      ot_posts := Suc (ot_posts s)\<rparr>)"
| enter_fail: "\<not> ot_minting s \<Longrightarrow> ot_waiting s = Suc n \<Longrightarrow> \<not> usable_at c (ot_state s) (ot_now s) \<Longrightarrow>
    oauth_auth_header c = Inl e \<Longrightarrow>
    oauth_step c env s (s\<lparr>ot_waiting := n, ot_state := ensure_session (ot_state s)\<rparr>)"
| minted: "ot_minting s \<Longrightarrow> token_of_response c env status raw = Inr (token, ttl) \<Longrightarrow>
    s' = store_token token ttl (ot_now s) (ot_state s) \<Longrightarrow>
    oauth_step c env s (s\<lparr>ot_minting := False, ot_state := s', ot_returned := current_header s' # ot_returned s\<rparr>)"
| mint_failed: "ot_minting s \<Longrightarrow>
    oauth_step c env s (s\<lparr>ot_minting := False, ot_failures := Suc (ot_failures s)\<rparr>)"
| invalidate: "oauth_step c env s (s\<lparr>ot_state := (ot_state s)\<lparr>os_token := None\<rparr>,
      ot_invalidated := Suc (ot_invalidated s)\<rparr>)"

definition oauth_reaches :: "oauth_config \<Rightarrow> 'w oauth_env \<Rightarrow> oauth_tasks \<Rightarrow> oauth_tasks \<Rightarrow> bool" where
  "oauth_reaches c env = (oauth_step c env)\<^sup>*\<^sup>*"

subsection \<open>Headers carry a token\<close>

definition carries_token :: "headers \<Rightarrow> bool" where
  "carries_token h \<longleftrightarrow> (\<exists>t. h = [(S ''authorization'', S ''Bearer '' @ t)])"

lemma current_header_token: "os_token s = Some t \<Longrightarrow> current_header s = [(S ''authorization'', S ''Bearer '' @ t)]"
  by (simp add: current_header_def bearer_value_def token_text_def)

subsection \<open>How many requests a burst makes\<close>

text \<open>The token outlives the deadline.\<close>

definition covers :: "oauth_config \<Rightarrow> rat \<Rightarrow> oauth_tasks \<Rightarrow> bool" where
  "covers c deadline s \<longleftrightarrow> os_token (ot_state s) \<noteq> None \<and>
     f_le (Fin deadline) (f_sub (os_expires_at (ot_state s)) (oc_expiry_skew c))"

lemma covers_usable: "covers c deadline s \<Longrightarrow> ot_now s < deadline \<Longrightarrow> usable_at c (ot_state s) (ot_now s)"
  by (auto simp: covers_def usable_at_def f_le_def f_less_def split: if_splits)

text \<open>
  Every token the endpoint hands out lives for more than the skew and \<open>window\<close> seconds, in a
  range where the sums do not leave the floats.
\<close>

definition long_lived :: "oauth_config \<Rightarrow> 'w oauth_env \<Rightarrow> rat \<Rightarrow> rat \<Rightarrow> bool" where
  "long_lived c env skew window \<longleftrightarrow> oc_expiry_skew c = Fin skew \<and> 0 \<le> skew \<and>
     (\<forall>status raw token ttl. token_of_response c env status raw = Inr (token, ttl) \<longrightarrow>
        (\<exists>q. ttl = Fin q \<and> window + skew \<le> q \<and> q \<le> 2 ^ 52))"

lemma minted_covers:
  assumes "long_lived c env skew window" and "token_of_response c env status raw = Inr (token, ttl)"
    and "0 \<le> start" and "start \<le> now" and "now \<le> 2 ^ 52" and "0 \<le> window"
  shows "covers c (start + window) (s\<lparr>ot_state := store_token token ttl now (ot_state s)\<rparr>)"
proof -
  obtain q where q: "ttl = Fin q" "window + skew \<le> q" "q \<le> 2 ^ 52" and skew: "oc_expiry_skew c = Fin skew" "0 \<le> skew"
    using assms(1,2) unfolding long_lived_def by blast
  have nq: "0 \<le> q" "now + q \<le> 2 ^ 54 - 1"
    using q skew assms by (auto intro: order_trans)
  have "f_add (Fin now) ttl = Fin (now + q)"
    using nq assms less_overflow_bound [of "now + q"] by (simp add: q(1) f_add_Fin)
  moreover have "\<bar>now + q - skew\<bar> < overflow_bound"
    using nq q skew assms by (intro less_overflow_bound) auto
  ultimately show ?thesis
    using q skew assms by (simp add: covers_def store_token_def f_sub_Fin)
qed

definition accounted_posts :: "oauth_config \<Rightarrow> oauth_tasks \<Rightarrow> rat \<Rightarrow> oauth_tasks \<Rightarrow> bool" where
  "accounted_posts c s0 deadline s \<longleftrightarrow>
     ot_now s0 \<le> ot_now s \<and> ot_failures s0 \<le> ot_failures s \<and> ot_invalidated s0 \<le> ot_invalidated s \<and>
     ot_posts s \<le> ot_posts s0 + (ot_failures s - ot_failures s0) + (ot_invalidated s - ot_invalidated s0) +
       (if ot_minting s \<or> covers c deadline s then 1 else 0)"

lemma oauth_step_now: "oauth_step c env s s' \<Longrightarrow> ot_now s \<le> ot_now s'"
  by (cases rule: oauth_step.cases) auto

lemma covers_state: "ot_state s' = ot_state s \<Longrightarrow> covers c d s' = covers c d s"
  by (simp add: covers_def)

lemma usable_token: "usable_at c s now \<Longrightarrow> carries_token (current_header s)"
  by (auto simp: usable_at_def carries_token_def current_header_token)

lemma accounted_step:
  assumes "oauth_step c env s s'" and "accounted_posts c s0 (ot_now s0 + window) s"
    and "long_lived c env skew window" and "0 \<le> window" and "0 \<le> ot_now s0"
    and "ot_now s' < ot_now s0 + window" and "ot_now s' \<le> 2 ^ 52"
  shows "accounted_posts c s0 (ot_now s0 + window) s'"
  using assms(1)
proof (cases rule: oauth_step.cases)
  case (enter_mint n hs)
  have "ot_now s < ot_now s0 + window"
    using oauth_step_now [OF assms(1)] assms(6) by simp
  then have "\<not> covers c (ot_now s0 + window) s"
    using covers_usable enter_mint(4) by blast
  with enter_mint assms(2) show ?thesis
    by (auto simp: accounted_posts_def)
next
  case (minted status raw token ttl st)
  have "covers c (ot_now s0 + window) (s\<lparr>ot_state := store_token token ttl (ot_now s) (ot_state s)\<rparr>)"
    by (rule minted_covers [OF assms(3) minted(3)])
      (use assms minted in \<open>auto simp: accounted_posts_def\<close>)
  then have "covers c (ot_now s0 + window) s'"
    using minted by (simp add: covers_def)
  with minted assms(2) show ?thesis
    by (auto simp: accounted_posts_def)
next
  case mint_failed
  with assms(2) show ?thesis
    by (auto simp: accounted_posts_def split: if_splits)
next
  case invalidate
  with assms(2) show ?thesis
    by (auto simp: accounted_posts_def split: if_splits)
next
  case (enter_fail n e)
  then have "covers c (ot_now s0 + window) s' = covers c (ot_now s0 + window) s"
    by (simp add: covers_def ensure_session_def)
  with enter_fail assms(2) show ?thesis
    by (auto simp: accounted_posts_def)
qed (use assms(2) in \<open>auto simp: accounted_posts_def covers_def\<close>)

lemma returned_step:
  assumes "oauth_step c env s s'"
  shows "set (ot_returned s') \<subseteq> set (ot_returned s) \<union> {h. carries_token h}"
  using assms
  by (cases rule: oauth_step.cases)
    (auto dest: usable_token simp: carries_token_def store_token_def current_header_token)

lemma oauth_reaches_accounted:
  assumes "oauth_reaches c env s0 s" and "\<not> ot_minting s0"
    and "long_lived c env skew window" and "0 \<le> window" and "0 \<le> ot_now s0"
  shows "ot_now s < ot_now s0 + window \<Longrightarrow> ot_now s \<le> 2 ^ 52 \<Longrightarrow>
    accounted_posts c s0 (ot_now s0 + window) s"
  using assms(1) unfolding oauth_reaches_def
proof (induction rule: rtranclp_induct)
  case base
  then show ?case by (simp add: accounted_posts_def)
next
  case (step y z)
  note now = oauth_step_now [OF step.hyps(2)]
  have "accounted_posts c s0 (ot_now s0 + window) y"
    using step.IH step.prems now by simp
  from accounted_step [OF step.hyps(2) this assms(3-5) step.prems] show ?case .
qed

text \<open>
  C17. A burst of concurrent calls collapses into one token request: however many tasks ask for
  headers, in whatever order they are suspended and resumed, within a period shorter than a
  token's usable life the provider makes at most one request, plus one for each request that
  failed or was cancelled and one for each invalidation; and every header it returns carries
  a token.
\<close>

theorem burst_mints_once:
  assumes "long_lived c env skew window" and "0 \<le> window" and "0 \<le> ot_now s0" and "\<not> ot_minting s0"
    and "oauth_reaches c env s0 s" and "ot_now s < ot_now s0 + window" and "ot_now s \<le> 2 ^ 52"
  shows "ot_posts s + ot_failures s0 + ot_invalidated s0 \<le>
      ot_posts s0 + 1 + ot_failures s + ot_invalidated s \<and>
    (\<forall>h \<in> set (ot_returned s). h \<in> set (ot_returned s0) \<or>
      (\<exists>t. h = [(S ''authorization'', S ''Bearer '' @ t)]))"
proof
  show "ot_posts s + ot_failures s0 + ot_invalidated s0 \<le> ot_posts s0 + 1 + ot_failures s + ot_invalidated s"
    using oauth_reaches_accounted [OF assms(5,4,1,2,3,6,7)]
    by (auto simp: accounted_posts_def split: if_splits)
  have "set (ot_returned s) \<subseteq> set (ot_returned s0) \<union> {h. carries_token h}"
    using assms(5) unfolding oauth_reaches_def
    by (induction rule: rtranclp_induct) (use returned_step in blast)+
  then show "\<forall>h \<in> set (ot_returned s). h \<in> set (ot_returned s0) \<or>
      (\<exists>t. h = [(S ''authorization'', S ''Bearer '' @ t)])"
    by (auto simp: carries_token_def)
qed

text \<open>Two tasks, one request: the second finds the token the first has minted.\<close>

definition two_calls :: oauth_tasks where
  "two_calls = \<lparr>ot_state = oauth_init True, ot_now = 0, ot_minting = False, ot_waiting = 0, ot_posts = 0,
     ot_failures = 0, ot_invalidated = 0, ot_returned = []\<rparr>"

definition steady_endpoint :: "rat oauth_env" where
  "steady_endpoint = sample_token_endpoint (JObj [(S ''access_token'', JStr (S ''t''))])"

lemma steady_response: "token_of_response sample_oauth steady_endpoint 200 [] = Inr (S ''t'', Fin 300)"
  by (simp add: token_of_response_def steady_endpoint_def sample_token_endpoint_def dict_get_default_def
      parse_ttl_def sample_oauth_def py_max_def)

lemma steady_long_lived: "long_lived sample_oauth steady_endpoint 30 200"
proof -
  have "token_of_response sample_oauth steady_endpoint status raw = Inr (token, ttl) \<Longrightarrow> ttl = Fin 300" for status raw token ttl
    by (auto simp: token_of_response_def steady_endpoint_def sample_token_endpoint_def dict_get_default_def
        parse_ttl_def sample_oauth_def py_max_def split: if_splits)
  then show ?thesis
    by (fastforce simp: long_lived_def sample_oauth_def)
qed

lemma burst_mints_once_witness:
  "\<exists>s. oauth_reaches sample_oauth steady_endpoint two_calls s \<and> length (ot_returned s) = 2 \<and> ot_posts s = 1 \<and>
     ot_posts s \<le> 1 + ot_failures s + ot_invalidated s"
proof -
  let ?step = "oauth_step sample_oauth steady_endpoint"
  define s1 where "s1 = two_calls\<lparr>ot_waiting := 1\<rparr>"
  define s2 where "s2 = two_calls\<lparr>ot_waiting := 2\<rparr>"
  define s3 where "s3 = two_calls\<lparr>ot_waiting := 1, ot_minting := True, ot_posts := 1\<rparr>"
  define st where "st = store_token (S ''t'') (Fin 300) 0 (oauth_init True)"
  define s4 where "s4 = two_calls\<lparr>ot_waiting := 1, ot_posts := 1, ot_state := st, ot_returned := [current_header st]\<rparr>"
  define s5 where "s5 = s4\<lparr>ot_waiting := 0, ot_returned := [current_header st, current_header st]\<rparr>"
  note defs = s1_def s2_def s3_def s4_def s5_def two_calls_def
  have unusable: "\<not> usable_at sample_oauth (oauth_init True) 0"
    by (simp add: usable_at_def oauth_init_def)
  have sums: "f_add (Fin 0) (Fin 300) = Fin 300" "f_sub (Fin 300) (Fin 30) = Fin 270"
    using f_add_Fin [of 0 300] f_sub_Fin [of 300 30] by (simp_all add: less_overflow_bound)
  then have usable: "usable_at sample_oauth st 0"
    by (simp add: usable_at_def st_def store_token_def sample_oauth_def)
  have "?step two_calls s1"
    using oauth_step.queue [of sample_oauth two_calls steady_endpoint] unusable by (simp add: defs)
  moreover have "?step s1 s2"
    using oauth_step.queue [of sample_oauth s1 steady_endpoint] unusable by (simp add: defs numeral_2_eq_2)
  moreover have "?step s2 s3"
    using oauth_step.enter_mint [of s2 1 sample_oauth "[]" steady_endpoint] unusable
    by (simp add: defs oauth_auth_header_def sample_oauth_def ensure_session_def oauth_init_def)
  moreover have "?step s3 s4"
    using oauth_step.minted [OF _ steady_response, of s3 st] by (simp add: defs st_def)
  moreover have "?step s4 s5"
    using oauth_step.enter_cached [of s4 0 sample_oauth steady_endpoint] usable by (simp add: defs)
  ultimately have run: "oauth_reaches sample_oauth steady_endpoint two_calls s5"
    unfolding oauth_reaches_def by (meson converse_rtranclp_into_rtranclp r_into_rtranclp)
  show ?thesis
    using burst_mints_once [OF steady_long_lived _ _ _ run] run by (intro exI [of _ s5]) (simp add: defs)
qed


subsection \<open>The provider's calls are runs of the tasks\<close>

text \<open>
  The world tells the time: a reading of the clock and a request may take time, and never turn it
  back.
\<close>

definition ticking :: "('w \<Rightarrow> rat) \<Rightarrow> 'w oauth_env \<Rightarrow> bool" where
  "ticking clock env \<longleftrightarrow>
     (\<forall>w. \<exists>w'. oe_monotonic env w = (Fin (clock w'), w') \<and> clock w \<le> clock w') \<and>
     (\<forall>url form hs w r w'. oe_post env url form hs w = Some (r, w') \<longrightarrow> clock w \<le> clock w')"

lemma ticking_read:
  assumes "ticking clock env"
  obtains w' where "oe_monotonic env w = (Fin (clock w'), w')" "clock w \<le> clock w'"
  using assms unfolding ticking_def by blast

lemma ticking_usable:
  assumes "ticking clock env" and "oauth_usable c env (s, w) = (b, sw')"
  obtains w' where "sw' = (s, w')" "clock w \<le> clock w'" "b = usable_at c s (clock w')"
proof (cases "os_token s")
  case None
  then show thesis
    using assms(2) that [of w] by (auto simp: oauth_usable_def usable_at_def)
next
  case (Some t)
  obtain w' where "oe_monotonic env w = (Fin (clock w'), w')" "clock w \<le> clock w'"
    using ticking_read [OF assms(1)] .
  then show thesis
    using assms(2) that [of w'] Some by (auto simp: oauth_usable_def usable_at_def)
qed

text \<open>The task system is where the provider is: no request under way, its clock not ahead.\<close>

definition at_rest :: "('w \<Rightarrow> rat) \<Rightarrow> oauth_state \<times> 'w \<Rightarrow> oauth_tasks \<Rightarrow> bool" where
  "at_rest clock sw T \<longleftrightarrow> ot_state T = fst sw \<and> ot_now T \<le> clock (snd sw) \<and> \<not> ot_minting T"

lemma tasks_reaches_refl: "oauth_reaches c env T T"
  by (simp add: oauth_reaches_def)

lemma tasks_reaches_step: "oauth_reaches c env T U \<Longrightarrow> oauth_step c env U V \<Longrightarrow> oauth_reaches c env T V"
  by (simp add: oauth_reaches_def)

lemma tasks_reaches_trans: "oauth_reaches c env T U \<Longrightarrow> oauth_reaches c env U V \<Longrightarrow> oauth_reaches c env T V"
  by (simp add: oauth_reaches_def)

definition answered :: "headers res \<Rightarrow> headers list" where
  "answered r = (case r of Inl _ \<Rightarrow> [] | Inr h \<Rightarrow> [h])"

text \<open>What a call leaves: the same tasks waiting, and its header, if any, returned last.\<close>

definition leaves :: "headers list \<Rightarrow> oauth_tasks \<Rightarrow> oauth_tasks \<Rightarrow> bool" where
  "leaves hs T T' \<longleftrightarrow> ot_waiting T' = ot_waiting T \<and> ot_returned T' = hs @ ot_returned T"

lemma tasks_reaches_tick: "ot_now T \<le> now \<Longrightarrow> oauth_reaches c env T (T\<lparr>ot_now := now\<rparr>)"
  by (rule tasks_reaches_step [OF tasks_reaches_refl]) (rule oauth_step.tick)

text \<open>The part of \<^verbatim>\<open>headers\<close> under the lock: the token request and its end.\<close>

lemma refresh_refines:
  assumes "ticking clock env" and "oauth_refresh c env (s, w) = Some (r, sw')"
    and "at_rest clock (s, w) T" and "ot_waiting T = Suc n" and "\<not> usable_at c s (ot_now T)"
  shows "\<exists>T'. oauth_reaches c env T T' \<and> at_rest clock sw' T' \<and> ot_waiting T' = n \<and>
    ot_returned T' = (case r of Inl _ \<Rightarrow> [] | Inr _ \<Rightarrow> [current_header (fst sw')]) @ ot_returned T"
proof (cases "oauth_auth_header c")
  case (Inl e)
  have "oauth_step c env T (T\<lparr>ot_waiting := n, ot_state := ensure_session (ot_state T)\<rparr>)"
    using assms(3-5) Inl by (intro oauth_step.enter_fail) (simp_all add: at_rest_def)
  then show ?thesis
    using assms(2,3) Inl tasks_reaches_step [OF tasks_reaches_refl]
    by (fastforce simp: oauth_refresh_def at_rest_def)
next
  case (Inr hs)
  let ?U = "T\<lparr>ot_waiting := n, ot_minting := True, ot_state := ensure_session (ot_state T),
      ot_posts := Suc (ot_posts T)\<rparr>"
  have enter: "oauth_reaches c env T ?U"
    using assms(3-5) Inr
    by (intro tasks_reaches_step [OF tasks_reaches_refl] oauth_step.enter_mint) (simp_all add: at_rest_def)
  obtain p w1 where post: "oe_post env (oc_token_url c) (oauth_form c) hs w = Some (p, w1)"
    using assms(2) Inr by (auto simp: oauth_refresh_def Let_def split: option.splits)
  have w1: "clock w \<le> clock w1"
    using assms(1) post by (auto simp: ticking_def)
  show ?thesis
  proof (cases "\<exists>status raw token ttl. p = Inr (status, raw) \<and> token_of_response c env status raw = Inr (token, ttl)")
    case False
    have "oauth_step c env ?U (?U\<lparr>ot_minting := False, ot_failures := Suc (ot_failures ?U)\<rparr>)"
      by (rule oauth_step.mint_failed) simp
    moreover have "(\<exists>e. r = Inl e) \<and> sw' = (ensure_session s, w1)"
      using assms(2) Inr post False
      by (auto simp: oauth_refresh_def Let_def split: sum.splits prod.splits)
    ultimately show ?thesis
      using tasks_reaches_step [OF enter] assms(3) w1 by (fastforce simp: at_rest_def)
  next
    case True
    then obtain status raw token ttl where p: "p = Inr (status, raw)"
      and token: "token_of_response c env status raw = Inr (token, ttl)"
      by blast
    obtain w2 where w2: "oe_monotonic env w1 = (Fin (clock w2), w2)" "clock w1 \<le> clock w2"
      using ticking_read [OF assms(1)] .
    let ?V = "?U\<lparr>ot_now := clock w2\<rparr>"
    let ?s = "store_token token ttl (ot_now ?V) (ot_state ?V)"
    have r: "r = Inr () \<and> sw' = (?s, w2)"
      using assms(2,3) Inr post p token w2
      by (auto simp: oauth_refresh_def Let_def store_token_def at_rest_def)
    have "oauth_reaches c env ?U ?V"
      using assms(3) w1 w2 by (intro tasks_reaches_tick) (simp add: at_rest_def)
    moreover have "oauth_step c env ?V (?V\<lparr>ot_minting := False, ot_state := ?s,
        ot_returned := current_header ?s # ot_returned ?V\<rparr>)"
      using token by (intro oauth_step.minted [OF _ token]) simp_all
    ultimately have "oauth_reaches c env T (?V\<lparr>ot_minting := False, ot_state := ?s,
        ot_returned := current_header ?s # ot_returned ?V\<rparr>)"
      using enter tasks_reaches_trans tasks_reaches_step by blast
    then show ?thesis
      using r by (intro exI conjI) (assumption, simp_all add: at_rest_def)
  qed
qed

lemma headers_refine:
  assumes "ticking clock env" and "oauth_headers c env kind (s, w) = Some (r, sw')" and "at_rest clock (s, w) T"
  shows "\<exists>T'. oauth_reaches c env T T' \<and> at_rest clock sw' T' \<and> leaves (answered r) T T'"
proof -
  obtain b1 sw1 where u1: "oauth_usable c env (s, w) = (b1, sw1)" by (cases "oauth_usable c env (s, w)")
  obtain w1 where w1: "sw1 = (s, w1)" "clock w \<le> clock w1" "b1 = usable_at c s (clock w1)"
    using ticking_usable [OF assms(1) u1] .
  let ?T1 = "T\<lparr>ot_now := clock w1\<rparr>"
  have T1: "oauth_reaches c env T ?T1" "at_rest clock (s, w1) ?T1"
    using assms(3) w1 by (auto simp: at_rest_def intro: tasks_reaches_tick)
  show ?thesis
  proof (cases b1)
    case True
    have "oauth_step c env ?T1 (?T1\<lparr>ot_returned := current_header (ot_state ?T1) # ot_returned ?T1\<rparr>)"
      using T1(2) True w1(3) by (intro oauth_step.cached) (simp add: at_rest_def)
    moreover have "r = Inr (current_header s) \<and> sw' = (s, w1)"
      using assms(2) True u1 w1 by (simp add: oauth_headers_def current_header_def)
    ultimately show ?thesis
      using tasks_reaches_step [OF T1(1)] T1(2) by (fastforce simp: at_rest_def leaves_def answered_def)
  next
    case False
    obtain b2 sw2 where u2: "oauth_usable c env (s, w1) = (b2, sw2)" by (cases "oauth_usable c env (s, w1)")
    obtain w2 where w2: "sw2 = (s, w2)" "clock w1 \<le> clock w2" "b2 = usable_at c s (clock w2)"
      using ticking_usable [OF assms(1) u2] .
    let ?T2 = "?T1\<lparr>ot_waiting := Suc (ot_waiting T), ot_now := clock w2\<rparr>"
    have "oauth_step c env ?T1 (?T1\<lparr>ot_waiting := Suc (ot_waiting ?T1)\<rparr>)"
      using T1(2) False w1(3) by (intro oauth_step.queue) (simp add: at_rest_def)
    moreover have "oauth_step c env (?T1\<lparr>ot_waiting := Suc (ot_waiting ?T1)\<rparr>) ?T2"
      using oauth_step.tick [of "?T1\<lparr>ot_waiting := Suc (ot_waiting ?T1)\<rparr>" "clock w2" c env] w2(2) by simp
    ultimately have T2: "oauth_reaches c env T ?T2" "at_rest clock (s, w2) ?T2"
      using tasks_reaches_step [OF tasks_reaches_step [OF T1(1)]] assms(3) by (auto simp: at_rest_def)
    show ?thesis
    proof (cases b2)
      case True
      have "oauth_step c env ?T2 (?T2\<lparr>ot_waiting := ot_waiting T,
          ot_returned := current_header (ot_state ?T2) # ot_returned ?T2\<rparr>)"
        using T2(2) True w2(3) by (intro oauth_step.enter_cached) (simp_all add: at_rest_def)
      moreover have "r = Inr (current_header s) \<and> sw' = (s, w2)"
        using assms(2) False True u1 u2 w1 w2 by (simp add: oauth_headers_def current_header_def)
      ultimately show ?thesis
        using tasks_reaches_step [OF T2(1)] T2(2) by (fastforce simp: at_rest_def leaves_def answered_def)
    next
      case still: False
      obtain r0 sw3 where ref: "oauth_refresh c env (s, w2) = Some (r0, sw3)"
        using assms(2) False still u1 u2 w1 w2 by (auto simp: oauth_headers_def split: option.splits)
      have out: "sw' = sw3" "answered r = (case r0 of Inl _ \<Rightarrow> [] | Inr _ \<Rightarrow> [current_header (fst sw3)])"
        using assms(2) False still u1 u2 w1 w2 ref
        by (auto simp: oauth_headers_def answered_def current_header_def split: sum.splits)
      obtain T' where "oauth_reaches c env ?T2 T'" "at_rest clock sw3 T'" "ot_waiting T' = ot_waiting T"
        "ot_returned T' = answered r @ ot_returned ?T2"
        using refresh_refines [OF assms(1) ref T2(2), of "ot_waiting T"] still w2(3) out(2) by auto
      then show ?thesis
        using tasks_reaches_trans [OF T2(1)] out(1) by (auto simp: leaves_def)
    qed
  qed
qed

text \<open>A caller that uses the provider alone: calls in turn, and time in between.\<close>

datatype 'w oauth_call = HeadersCall signal_kind | InvalidateCall signal_kind | Elapse "'w \<Rightarrow> 'w"

fun run_calls ::
  "oauth_config \<Rightarrow> 'w oauth_env \<Rightarrow> 'w oauth_call list \<Rightarrow> oauth_state \<times> 'w \<Rightarrow>
    (headers list \<times> (oauth_state \<times> 'w)) option" where
  "run_calls c env [] sw = Some ([], sw)"
| "run_calls c env (HeadersCall kind # calls) sw =
     (case oauth_headers c env kind sw of
        None \<Rightarrow> None
      | Some (r, sw1) \<Rightarrow> map_option (\<lambda>(hs, sw'). (answered r @ hs, sw')) (run_calls c env calls sw1))"
| "run_calls c env (InvalidateCall kind # calls) sw =
     (case oauth_invalidate kind sw of
        None \<Rightarrow> None
      | Some (_, sw1) \<Rightarrow> run_calls c env calls sw1)"
| "run_calls c env (Elapse f # calls) sw = run_calls c env calls (fst sw, f (snd sw))"

fun forward :: "('w \<Rightarrow> rat) \<Rightarrow> 'w oauth_call \<Rightarrow> bool" where
  "forward clock (Elapse f) \<longleftrightarrow> (\<forall>w. clock w \<le> clock (f w))"
| "forward clock _ \<longleftrightarrow> True"

lemma invalidate_refines:
  assumes "oauth_invalidate kind (s, w) = Some (u, sw')" and "at_rest clock (s, w) T"
  shows "\<exists>T'. oauth_reaches c env T T' \<and> at_rest clock sw' T' \<and> leaves [] T T'"
proof (intro exI conjI)
  show "oauth_reaches c env T (T\<lparr>ot_state := (ot_state T)\<lparr>os_token := None\<rparr>,
      ot_invalidated := Suc (ot_invalidated T)\<rparr>)"
    by (rule tasks_reaches_step [OF tasks_reaches_refl]) (rule oauth_step.invalidate)
qed (use assms in \<open>auto simp: oauth_invalidate_def at_rest_def leaves_def\<close>)

lemma calls_refine:
  assumes "ticking clock env" and "list_all (forward clock) calls"
  shows "run_calls c env calls sw = Some (hs, sw') \<Longrightarrow> at_rest clock sw T \<Longrightarrow>
    \<exists>T'. oauth_reaches c env T T' \<and> at_rest clock sw' T' \<and> leaves (rev hs) T T'"
  using assms(2)
proof (induction calls arbitrary: sw hs T)
  case Nil
  then show ?case
    using tasks_reaches_refl by (fastforce simp: leaves_def)
next
  case (Cons call calls)
  obtain s w where sw: "sw = (s, w)" by (cases sw)
  obtain hs1 sw1 hs2 T1 where rest: "run_calls c env calls sw1 = Some (hs2, sw')" "hs = hs1 @ hs2"
    and T1: "oauth_reaches c env T T1" "at_rest clock sw1 T1" "leaves (rev hs1) T T1"
  proof (cases call)
    case (HeadersCall kind)
    obtain r sw1 hs2 where *: "oauth_headers c env kind (s, w) = Some (r, sw1)"
        "run_calls c env calls sw1 = Some (hs2, sw')" "hs = answered r @ hs2"
      using Cons.prems(1) HeadersCall sw by (auto split: option.splits)
    moreover have "rev (answered r) = answered r"
      by (simp add: answered_def split: sum.split)
    ultimately show thesis
      using that headers_refine [OF assms(1) *(1)] Cons.prems(2) sw by metis
  next
    case (InvalidateCall kind)
    obtain u sw1 where *: "oauth_invalidate kind (s, w) = Some (u, sw1)"
        "run_calls c env calls sw1 = Some (hs, sw')"
      using Cons.prems(1) InvalidateCall sw by (auto split: option.splits)
    then show thesis
      using that [of sw1 hs "[]"] invalidate_refines [OF *(1)] Cons.prems(2) sw by fastforce
  next
    case (Elapse f)
    then have "run_calls c env calls (s, f w) = Some (hs, sw')" "clock w \<le> clock (f w)"
      using Cons.prems sw by auto
    then show thesis
      using that [of "(s, f w)" hs "[]" T] Cons.prems(2) sw tasks_reaches_refl
      by (fastforce simp: at_rest_def leaves_def)
  qed
  obtain T' where "oauth_reaches c env T1 T'" "at_rest clock sw' T'" "leaves (rev hs2) T1 T'"
    using Cons.IH [OF rest(1) T1(2)] Cons.prems(3) by auto
  then show ?case
    using tasks_reaches_trans [OF T1(1)] T1(3) rest(2) by (fastforce simp: leaves_def)
qed


text \<open>
  C18. The provider used alone is one schedule of the concurrent one: every sequence of \<^verbatim>\<open>headers\<close> and
  \<^verbatim>\<open>invalidate\<close> calls, with any time in between, is a run of the task system from the provider's
  state to the state it is left in, with the lock free and nobody queued more at the end; the run
  returns exactly the headers the calls returned, in their order.
\<close>

theorem oauth_calls_refine_tasks:
  assumes "ticking clock env" and "list_all (forward clock) calls"
    and "run_calls c env calls (s, w) = Some (hs, (s', w'))"
    and "ot_state T = s" and "ot_now T \<le> clock w" and "\<not> ot_minting T"
  shows "\<exists>T'. oauth_reaches c env T T' \<and> ot_state T' = s' \<and> ot_now T' \<le> clock w' \<and> \<not> ot_minting T' \<and>
    ot_waiting T' = ot_waiting T \<and> ot_returned T' = rev hs @ ot_returned T"
proof -
  have "at_rest clock (s, w) T"
    using assms(4-6) by (simp add: at_rest_def)
  from calls_refine [OF assms(1-3) this] show ?thesis
    by (auto simp: at_rest_def leaves_def)
qed

lemma oauth_calls_refine_tasks_witness:
  "\<exists>T'. oauth_reaches sample_oauth steady_endpoint two_calls T' \<and>
     ot_returned T' = [[(S ''authorization'', S ''Bearer t'')], [(S ''authorization'', S ''Bearer t'')]]"
proof -
  let ?calls = "[HeadersCall METRICS, Elapse (\<lambda>t. t + 5), HeadersCall LOGS]"
  have sums: "f_add (Fin 0) (Fin 300) = Fin 300" "f_sub (Fin 300) (Fin 30) = Fin 270"
    using f_add_Fin [of 0 300] f_sub_Fin [of 300 30] by (simp_all add: less_overflow_bound)
  have ticks: "ticking (\<lambda>t. t) steady_endpoint"
    by (simp add: ticking_def steady_endpoint_def sample_token_endpoint_def)
  have fwd: "list_all (forward (\<lambda>t. t)) ?calls"
    by simp
  have head: "token_of_response sample_oauth steady_endpoint 200 [] = Inr (S ''t'', Fin 300)"
    by (rule steady_response)
  have "\<exists>s' w'. run_calls sample_oauth steady_endpoint ?calls (oauth_init True, 0) =
      Some ([[(S ''authorization'', S ''Bearer t'')], [(S ''authorization'', S ''Bearer t'')]], (s', w'))"
    using head
    by (simp add: oauth_headers_def oauth_usable_def oauth_refresh_def oauth_init_def Let_def answered_def
        oauth_auth_header_def bearer_value_def token_text_def ensure_session_def sums
        steady_endpoint_def sample_token_endpoint_def sample_oauth_def)
  then obtain s' w' where run: "run_calls sample_oauth steady_endpoint ?calls (oauth_init True, 0) =
      Some ([[(S ''authorization'', S ''Bearer t'')], [(S ''authorization'', S ''Bearer t'')]], (s', w'))"
    by blast
  show ?thesis
    using oauth_calls_refine_tasks [OF ticks fwd run, of two_calls] by (auto simp: two_calls_def)
qed

end
