(* ===== verification/JsonText.thy ===== *)
theory JsonText
  imports JsonEncoder
begin

section \<open>The JSON text of the standard library\<close>

text \<open>
  \<^verbatim>\<open>_dumps\<close> of \<^verbatim>\<open>encoding/json.py\<close> where \<^verbatim>\<open>orjson\<close> is absent (\<^verbatim>\<open>json.dumps\<close> with the separators
  \<^verbatim>\<open>","\<close> and \<^verbatim>\<open>":"\<close>, then \<^verbatim>\<open>encode("utf-8")\<close>), and \<^verbatim>\<open>json.loads\<close> on bytes, which reads the
  responses of collectors and token endpoints: the detection of the encoding, the scanner with its
  nesting limit, and duplicate keys, of which the last one counts. How a finite float prints
  (\<open>repr_float\<close>) and how a float literal reads (\<open>read_float\<close>) are parameters: floats are exact
  here, and both roundings belong to the interpreter. The messages of the parse errors are
  abridged; no caller shows them.
\<close>

subsection \<open>Writing\<close>

definition hex4 :: "nat \<Rightarrow> str" where
  "hex4 n = [hex_digit (n div 4096), hex_digit (n div 256 mod 16), hex_digit (n div 16 mod 16),
     hex_digit (n mod 16)]"

definition unicode_escape :: "nat \<Rightarrow> str" where
  "unicode_escape n = 92 # 117 # hex4 n"

text \<open>The surrogate pair of a code point past U+FFFF.\<close>

definition high_half :: "nat \<Rightarrow> nat" where
  "high_half c = 55296 + (c - 65536) div 1024"

definition low_half :: "nat \<Rightarrow> nat" where
  "low_half c = 56320 + (c - 65536) mod 1024"

text \<open>\<^verbatim>\<open>ensure_ascii\<close>: what is not printable ASCII is escaped.\<close>

definition escape_char :: "nat \<Rightarrow> str" where
  "escape_char c =
     (if c = 34 then [92, 34] else if c = 92 then [92, 92]
      else if c = 10 then [92, 110] else if c = 13 then [92, 114] else if c = 9 then [92, 116]
      else if c = 12 then [92, 102] else if c = 8 then [92, 98]
      else if 32 \<le> c \<and> c \<le> 126 then [c]
      else if c < 65536 then unicode_escape c
      else unicode_escape (high_half c) @ unicode_escape (low_half c))"

definition write_string :: "str \<Rightarrow> str" where
  "write_string s = 34 # concat (map escape_char s) @ [34]"

definition write_float :: "(pyfloat \<Rightarrow> str) \<Rightarrow> pyfloat \<Rightarrow> str" where
  "write_float repr_float x =
     (case x of Nan \<Rightarrow> S ''NaN'' | PInf \<Rightarrow> S ''Infinity'' | NInf \<Rightarrow> S ''-Infinity'' | _ \<Rightarrow> repr_float x)"

fun comma_separated :: "str list \<Rightarrow> str" where
  "comma_separated [] = []"
| "comma_separated [x] = x"
| "comma_separated (x # xs) = x @ 44 # comma_separated xs"

fun write_json :: "(pyfloat \<Rightarrow> str) \<Rightarrow> json \<Rightarrow> str" where
  "write_json repr_float JNull = S ''null''"
| "write_json repr_float (JBool b) = (if b then S ''true'' else S ''false'')"
| "write_json repr_float (JInt i) = dec_int i"
| "write_json repr_float (JFloat x) = write_float repr_float x"
| "write_json repr_float (JStr s) = write_string s"
| "write_json repr_float (JArr vs) = 91 # comma_separated (map (write_json repr_float) vs) @ [93]"
| "write_json repr_float (JObj d) =
     123 # comma_separated (map (\<lambda>p. write_string (fst p) @ 58 # write_json repr_float (snd p)) d) @ [125]"

text \<open>A property of every node of a document.\<close>

fun every_node :: "(json \<Rightarrow> bool) \<Rightarrow> json \<Rightarrow> bool" where
  "every_node P (JArr vs) = (P (JArr vs) \<and> list_all (every_node P) vs)"
| "every_node P (JObj d) = (P (JObj d) \<and> list_all (\<lambda>p. every_node P (snd p)) d)"
| "every_node P j = P j"

text \<open>The interpreter refuses to print or read an integer of more than 4300 digits.\<close>

fun printable_int :: "json \<Rightarrow> bool" where
  "printable_int (JInt i) = (length (dec_nat (nat \<bar>i\<bar>)) \<le> 4300)"
| "printable_int _ = True"

definition stdlib_dumps :: "(pyfloat \<Rightarrow> str) \<Rightarrow> json \<Rightarrow> bytes res" where
  "stdlib_dumps repr_float doc =
     (if every_node printable_int doc then utf8_encode (write_json repr_float doc)
      else Inl (ValueError (S ''Exceeds the limit (4300 digits) for integer string conversion'')))"

text \<open>\<^verbatim>\<open>_dumps\<close>: \<^verbatim>\<open>orjson\<close>, a parameter, where it is installed, else the standard library.\<close>

definition module_dumps :: "(json \<Rightarrow> bytes res) option \<Rightarrow> (pyfloat \<Rightarrow> str) \<Rightarrow> json \<Rightarrow> bytes res" where
  "module_dumps orjson repr_float doc =
     (case orjson of Some dumps \<Rightarrow> dumps doc | None \<Rightarrow> stdlib_dumps repr_float doc)"

subsection \<open>Reading strings and numbers\<close>

fun read_hex4 :: "str \<Rightarrow> (nat \<times> str) option" where
  "read_hex4 (a # b # c # d # s) =
     (case (hex_val a, hex_val b, hex_val c, hex_val d) of
        (Some w, Some x, Some y, Some z) \<Rightarrow> Some (((w * 16 + x) * 16 + y) * 16 + z, s)
      | _ \<Rightarrow> None)"
| "read_hex4 _ = None"

definition is_high :: "nat \<Rightarrow> bool" where
  "is_high c \<longleftrightarrow> 55296 \<le> c \<and> c \<le> 56319"

definition is_low :: "nat \<Rightarrow> bool" where
  "is_low c \<longleftrightarrow> 56320 \<le> c \<and> c \<le> 57343"

definition join_halves :: "nat \<Rightarrow> nat \<Rightarrow> nat" where
  "join_halves h l = 65536 + (h - 55296) * 1024 + (l - 56320)"

text \<open>After \<^verbatim>\<open>\u\<close>: four digits, and the escape of a low half when a high one is before it.\<close>

definition read_unicode :: "str \<Rightarrow> (nat \<times> str) option" where
  "read_unicode s =
     (case read_hex4 s of
        None \<Rightarrow> None
      | Some (c, r) \<Rightarrow>
          (case r of
             b # u # t \<Rightarrow>
               if is_high c \<and> b = 92 \<and> u = 117
               then (case read_hex4 t of
                       None \<Rightarrow> None
                     | Some (l, r') \<Rightarrow> if is_low l then Some (join_halves c l, r') else Some (c, r))
               else Some (c, r)
           | _ \<Rightarrow> Some (c, r)))"

definition escape_value :: "nat \<Rightarrow> nat option" where
  "escape_value c =
     (if c = 34 \<or> c = 92 \<or> c = 47 then Some c
      else if c = 98 then Some 8 else if c = 102 then Some 12 else if c = 110 then Some 10
      else if c = 114 then Some 13 else if c = 116 then Some 9 else None)"

definition cons_char :: "nat \<Rightarrow> (str \<times> str) option \<Rightarrow> (str \<times> str) option" where
  "cons_char c r = map_option (\<lambda>(s, t). (c # s, t)) r"

lemma read_hex4_length: "read_hex4 s = Some (c, r) \<Longrightarrow> length r < length s"
  by (induction s rule: read_hex4.induct) (auto split: option.splits)

lemma read_unicode_length: "read_unicode s = Some (c, r) \<Longrightarrow> length r < length s"
  by (fastforce simp: read_unicode_def split: option.splits list.splits if_splits
      dest: read_hex4_length)

text \<open>After the opening quote.\<close>

function scan_string :: "str \<Rightarrow> (str \<times> str) option" where
  "scan_string s =
     (case s of
        [] \<Rightarrow> None
      | c # r \<Rightarrow>
          if c = 34 then Some ([], r)
          else if c < 32 then None
          else if c \<noteq> 92 then cons_char c (scan_string r)
          else (case r of
            [] \<Rightarrow> None
          | e # t \<Rightarrow>
              if e = 117
              then (case read_unicode t of
                      None \<Rightarrow> None
                    | Some (u, t') \<Rightarrow> cons_char u (scan_string t'))
              else (case escape_value e of
                      None \<Rightarrow> None
                    | Some v \<Rightarrow> cons_char v (scan_string t))))"
  by pat_completeness auto
termination
  by (relation "measure length") (auto dest: read_unicode_length)

declare scan_string.simps [simp del]

text \<open>An optional minus, then a zero or digits that do not start with one.\<close>

definition scan_digits :: "str \<Rightarrow> (str \<times> str) option" where
  "scan_digits s =
     (case s of
        [] \<Rightarrow> None
      | c # r \<Rightarrow> if c = 48 then Some ([48], r)
          else if is_digit c then Some (takeWhile is_digit s, dropWhile is_digit s) else None)"

definition scan_int :: "str \<Rightarrow> (str \<times> str) option" where
  "scan_int s =
     (case s of
        [] \<Rightarrow> None
      | c # r \<Rightarrow> if c = 45 then map_option (\<lambda>(ds, t). (45 # ds, t)) (scan_digits r) else scan_digits s)"

definition scan_fraction :: "str \<Rightarrow> str \<times> str" where
  "scan_fraction s =
     (case s of
        c # r \<Rightarrow> if c = 46 \<and> takeWhile is_digit r \<noteq> []
                 then (46 # takeWhile is_digit r, dropWhile is_digit r) else ([], s)
      | [] \<Rightarrow> ([], s))"

definition exponent_sign :: "str \<Rightarrow> str \<times> str" where
  "exponent_sign s = (case s of c # r \<Rightarrow> if c = 43 \<or> c = 45 then ([c], r) else ([], s) | [] \<Rightarrow> ([], s))"

definition scan_exponent :: "str \<Rightarrow> str \<times> str" where
  "scan_exponent s =
     (case s of
        c # r \<Rightarrow>
          (let (sign, t) = exponent_sign r
           in if (c = 101 \<or> c = 69) \<and> takeWhile is_digit t \<noteq> []
              then (c # sign @ takeWhile is_digit t, dropWhile is_digit t) else ([], s))
      | [] \<Rightarrow> ([], s))"

definition scan_number :: "(str \<Rightarrow> pyfloat) \<Rightarrow> str \<Rightarrow> (json \<times> str) option" where
  "scan_number read_float s =
     (case scan_int s of
        None \<Rightarrow> None
      | Some (ip, r) \<Rightarrow>
          (let (fp, r1) = scan_fraction r; (ep, r2) = scan_exponent r1
           in if fp = [] \<and> ep = []
              then (case parse_dec ip of
                      Some i \<Rightarrow> if printable_int (JInt i) then Some (JInt i, r2) else None
                    | None \<Rightarrow> None)
              else Some (JFloat (read_float (ip @ fp @ ep)), r2)))"

subsection \<open>Reading values\<close>

text \<open>\<^verbatim>\<open>JSONDecodeError\<close> and \<^verbatim>\<open>UnicodeDecodeError\<close> are \<^verbatim>\<open>ValueError\<close>s; \<^verbatim>\<open>RecursionError\<close> is not.\<close>

definition not_json :: exn where
  "not_json = ValueError (S ''Expecting value'')"

definition too_deep :: exn where
  "too_deep = OtherException (S ''RecursionError'') (S ''maximum recursion depth exceeded'')"

definition expect :: "'a option \<Rightarrow> 'a res" where
  "expect r = (case r of None \<Rightarrow> Inl not_json | Some a \<Rightarrow> Inr a)"

definition json_space :: "nat \<Rightarrow> bool" where
  "json_space c \<longleftrightarrow> c = 32 \<or> c = 9 \<or> c = 10 \<or> c = 13"

definition skip_space :: "str \<Rightarrow> str" where
  "skip_space s = dropWhile json_space s"

type_synonym 'a scanner = "str \<Rightarrow> ('a \<times> str) res"

text \<open>
  The loop over the items of an array or object up to its closing bracket. An item and the
  separator after it take at least one character, so the number of characters left bounds the
  number of turns.
\<close>

primrec scan_items :: "'a scanner \<Rightarrow> nat \<Rightarrow> nat \<Rightarrow> 'a list scanner" where
  "scan_items item close 0 s = Inl not_json"
| "scan_items item close (Suc n) s =
     bindR (item s) (\<lambda>(v, r).
       case skip_space r of
         [] \<Rightarrow> Inl not_json
       | c # t \<Rightarrow>
           if c = close then Inr ([v], t)
           else if c = 44
             then bindR (scan_items item close n (skip_space t)) (\<lambda>(vs, r'). Inr (v # vs, r'))
           else Inl not_json)"

definition scan_bracket :: "'a scanner \<Rightarrow> nat \<Rightarrow> 'a list scanner" where
  "scan_bracket item close s =
     (let t = skip_space s
      in case t of
           [] \<Rightarrow> Inl not_json
         | c # r \<Rightarrow> if c = close then Inr ([], r) else scan_items item close (length t) t)"

text \<open>A member of an object: a string, a colon, a value.\<close>

definition scan_member :: "json scanner \<Rightarrow> (str \<times> json) scanner" where
  "scan_member scan_json s =
     (case s of
        [] \<Rightarrow> Inl not_json
      | c # r \<Rightarrow>
          if c \<noteq> 34 then Inl not_json
          else bindR (expect (scan_string r)) (\<lambda>(k, r1).
            case skip_space r1 of
              [] \<Rightarrow> Inl not_json
            | e # t \<Rightarrow>
                if e \<noteq> 58 then Inl not_json
                else bindR (scan_json (skip_space t)) (\<lambda>(v, r2). Inr ((k, v), r2))))"

fun strip_prefix :: "str \<Rightarrow> str \<Rightarrow> str option" where
  "strip_prefix [] s = Some s"
| "strip_prefix (p # ps) [] = None"
| "strip_prefix (p # ps) (c # s) = (if p = c then strip_prefix ps s else None)"

definition literals :: "(str \<times> json) list" where
  "literals = [(S ''null'', JNull), (S ''true'', JBool True), (S ''false'', JBool False),
     (S ''NaN'', JFloat Nan), (S ''Infinity'', JFloat PInf), (S ''-Infinity'', JFloat NInf)]"

fun scan_literal :: "(str \<times> json) list \<Rightarrow> str \<Rightarrow> (json \<times> str) option" where
  "scan_literal [] s = None"
| "scan_literal ((t, j) # ls) s =
     (case strip_prefix t s of None \<Rightarrow> scan_literal ls s | Some r \<Rightarrow> Some (j, r))"

definition scan_scalar :: "(str \<Rightarrow> pyfloat) \<Rightarrow> str \<Rightarrow> (json \<times> str) option" where
  "scan_scalar read_float s =
     (case scan_literal literals s of Some r \<Rightarrow> Some r | None \<Rightarrow> scan_number read_float s)"

text \<open>One value; \<open>nested\<close> scans a value one level down, while the interpreter allows one.\<close>

definition scan_once :: "(str \<Rightarrow> pyfloat) \<Rightarrow> json scanner option \<Rightarrow> json scanner" where
  "scan_once read_float nested s =
     (case s of
        [] \<Rightarrow> Inl not_json
      | c # r \<Rightarrow>
          if c = 34 then bindR (expect (scan_string r)) (\<lambda>(t, r'). Inr (JStr t, r'))
          else if c = 123 \<or> c = 91 then
            (case nested of
               None \<Rightarrow> Inl too_deep
             | Some scan_json \<Rightarrow>
                 if c = 123
                 then bindR (scan_bracket (scan_member scan_json) 125 r)
                   (\<lambda>(kvs, r'). Inr (JObj (dict_union [] kvs), r'))
                 else bindR (scan_bracket scan_json 93 r) (\<lambda>(vs, r'). Inr (JArr vs, r')))
          else expect (scan_scalar read_float s))"

text \<open>At most \<open>depth\<close> containers are open at once.\<close>

primrec scan_json :: "(str \<Rightarrow> pyfloat) \<Rightarrow> nat \<Rightarrow> json scanner" where
  "scan_json read_float 0 = scan_once read_float None"
| "scan_json read_float (Suc depth) = scan_once read_float (Some (scan_json read_float depth))"

definition loads_text :: "(str \<Rightarrow> pyfloat) \<Rightarrow> nat \<Rightarrow> str \<Rightarrow> json res" where
  "loads_text read_float depth s =
     bindR (scan_json read_float depth (skip_space s)) (\<lambda>(j, r).
       if skip_space r = [] then Inr j else Inl not_json)"

subsection \<open>Reading bytes\<close>

text \<open>UTF-8 without replacement; the bytes of a lone surrogate pass (\<^verbatim>\<open>"surrogatepass"\<close>).\<close>

definition utf8_second_pass :: "nat \<Rightarrow> nat \<Rightarrow> bool" where
  "utf8_second_pass a b = (if a = 237 then utf8_cont b else utf8_second a b)"

fun utf8_strict :: "nat list \<Rightarrow> str option" where
  "utf8_strict [] = Some []"
| "utf8_strict (a # xs) =
     (if a < 128 then map_option (Cons a) (utf8_strict xs)
      else if 194 \<le> a \<and> a < 224 then
        (case xs of
           b # ys \<Rightarrow>
             if utf8_cont b then map_option (Cons ((a - 192) * 64 + (b - 128))) (utf8_strict ys) else None
         | _ \<Rightarrow> None)
      else if 224 \<le> a \<and> a < 240 then
        (case xs of
           b # c # ys \<Rightarrow>
             if utf8_second_pass a b \<and> utf8_cont c
             then map_option (Cons ((a - 224) * 4096 + (b - 128) * 64 + (c - 128))) (utf8_strict ys)
             else None
         | _ \<Rightarrow> None)
      else if 240 \<le> a \<and> a < 245 then
        (case xs of
           b # c # d # ys \<Rightarrow>
             if utf8_second_pass a b \<and> utf8_cont c \<and> utf8_cont d
             then map_option (Cons ((a - 240) * 262144 + (b - 128) * 4096 + (c - 128) * 64 + (d - 128)))
               (utf8_strict ys)
             else None
         | _ \<Rightarrow> None)
      else None)"

text \<open>UTF-16 and UTF-32, big-endian or little-endian; a lone surrogate passes here too.\<close>

fun units16 :: "bool \<Rightarrow> nat list \<Rightarrow> nat list option" where
  "units16 big [] = Some []"
| "units16 big [_] = None"
| "units16 big (a # b # xs) =
     map_option (Cons (if big then 256 * a + b else 256 * b + a)) (units16 big xs)"

fun join_units :: "nat list \<Rightarrow> str" where
  "join_units [] = []"
| "join_units [u] = [u]"
| "join_units (u # v # us) =
     (if is_high u \<and> is_low v then join_halves u v # join_units us else u # join_units (v # us))"

fun utf32_chars :: "bool \<Rightarrow> nat list \<Rightarrow> str option" where
  "utf32_chars big [] = Some []"
| "utf32_chars big (a # b # c # d # xs) =
     (let u = (if big then ((a * 256 + b) * 256 + c) * 256 + d else ((d * 256 + c) * 256 + b) * 256 + a)
      in if u \<le> 1114111 then map_option (Cons u) (utf32_chars big xs) else None)"
| "utf32_chars big _ = None"

definition utf16_strict :: "bool \<Rightarrow> nat list \<Rightarrow> str option" where
  "utf16_strict big bs = map_option join_units (units16 big bs)"

text \<open>\<^verbatim>\<open>json.detect_encoding\<close>, with the decoding it leads to; a byte order mark is dropped.\<close>

definition decode_detected :: "nat list \<Rightarrow> str option" where
  "decode_detected bs =
     (if take 4 bs = [0, 0, 254, 255] then utf32_chars True (drop 4 bs)
      else if take 4 bs = [255, 254, 0, 0] then utf32_chars False (drop 4 bs)
      else if take 2 bs = [254, 255] then utf16_strict True (drop 2 bs)
      else if take 2 bs = [255, 254] then utf16_strict False (drop 2 bs)
      else if take 3 bs = [239, 187, 191] then utf8_strict (drop 3 bs)
      else if 4 \<le> length bs \<and> bs ! 0 = 0
        then (if bs ! 1 \<noteq> 0 then utf16_strict True bs else utf32_chars True bs)
      else if 4 \<le> length bs \<and> bs ! 1 = 0
        then (if bs ! 2 \<noteq> 0 \<or> bs ! 3 \<noteq> 0 then utf16_strict False bs else utf32_chars False bs)
      else if length bs = 2 \<and> bs ! 0 = 0 then utf16_strict True bs
      else if length bs = 2 \<and> bs ! 1 = 0 then utf16_strict False bs
      else utf8_strict bs)"

definition stdlib_loads :: "(str \<Rightarrow> pyfloat) \<Rightarrow> nat \<Rightarrow> bytes \<Rightarrow> json res" where
  "stdlib_loads read_float depth raw =
     bindR (expect (decode_detected (map unat raw))) (loads_text read_float depth)"

end
