(* ===== verification/JsonRoundtrip.thy ===== *)
theory JsonRoundtrip
  imports JsonText
begin

section \<open>Printed JSON reads back\<close>

text \<open>
  The round trip of the standard library's JSON text, one lemma per scanner: run on a printed
  string, number or value followed by any text that does not continue it, the scanner returns what
  was printed and leaves that text. Then the bytes: the text is printable ASCII, so the encoding is
  detected as UTF-8 and decodes to it.
\<close>

subsection \<open>Strings\<close>

lemma read_hex4_hex4: "n < 65536 \<Longrightarrow> read_hex4 (hex4 n @ r) = Some (n, r)"
proof -
  assume n: "n < 65536"
  have d: "n div 4096 < 16" "n div 256 mod 16 < 16" "n div 16 mod 16 < 16" "n mod 16 < 16"
    using n by auto
  have "n div 4096 = n div 256 div 16" "n div 256 = n div 16 div 16"
    by (simp_all add: div_mult2_eq [symmetric])
  then have "((n div 4096 * 16 + n div 256 mod 16) * 16 + n div 16 mod 16) * 16 + n mod 16 = n"
    by (metis div_mult_mod_eq)
  with d show ?thesis
    by (simp add: hex4_def hex_val_hex_digit)
qed

text \<open>
  Code points a Python string can hold. Two surrogates that form a pair are one code point after
  reading, so a string that holds them apart is not read back as it was.
\<close>

fun str_ok :: "str \<Rightarrow> bool" where
  "str_ok [] = True"
| "str_ok (c # s) = (c \<le> 1114111 \<and> (case s of [] \<Rightarrow> True | d # _ \<Rightarrow> \<not> (is_high c \<and> is_low d)) \<and> str_ok s)"

text \<open>What follows the escape of a high half must not be the escape of a low one.\<close>

definition no_low_escape :: "str \<Rightarrow> bool" where
  "no_low_escape r \<longleftrightarrow>
     (\<forall>t. r = 92 # 117 # t \<longrightarrow> (\<exists>l r'. read_hex4 t = Some (l, r') \<and> \<not> is_low l))"

lemma read_unicode_hex4:
  "n < 65536 \<Longrightarrow> (is_high n \<Longrightarrow> no_low_escape r) \<Longrightarrow> read_unicode (hex4 n @ r) = Some (n, r)"
  by (cases "is_high n")
    (auto simp: read_unicode_def read_hex4_hex4 no_low_escape_def split: list.split option.split)

lemma halves:
  assumes "65536 \<le> c" and "c \<le> 1114111"
  shows "is_high (high_half c)" "is_low (low_half c)" "join_halves (high_half c) (low_half c) = c"
    "high_half c < 65536" "low_half c < 65536" "\<not> is_low (high_half c)"
  using assms by (auto simp: is_high_def is_low_def high_half_def low_half_def join_halves_def)

lemma read_unicode_pair:
  assumes "65536 \<le> c" and "c \<le> 1114111"
  shows "read_unicode (hex4 (high_half c) @ unicode_escape (low_half c) @ r) = Some (c, r)"
  using halves [OF assms] by (simp add: read_unicode_def unicode_escape_def read_hex4_hex4)

lemma scan_unicode:
  "scan_string (92 # 117 # t) =
     (case read_unicode t of None \<Rightarrow> None | Some (u, t') \<Rightarrow> cons_char u (scan_string t'))"
  by (simp add: scan_string.simps [of "92 # 117 # t"])

lemma scan_escape:
  "e \<noteq> 117 \<Longrightarrow> escape_value e = Some v \<Longrightarrow> scan_string (92 # e # t) = cons_char v (scan_string t)"
  by (simp add: scan_string.simps [of "92 # e # t"])

lemma scan_plain:
  "32 \<le> c \<Longrightarrow> c \<noteq> 34 \<Longrightarrow> c \<noteq> 92 \<Longrightarrow> scan_string (c # t) = cons_char c (scan_string t)"
  by (simp add: scan_string.simps [of "c # t"])

lemma scan_quote: "scan_string (34 # t) = Some ([], t)"
  by (simp add: scan_string.simps [of "34 # t"])

lemma scan_escape_char:
  assumes "c \<le> 1114111" and "is_high c \<Longrightarrow> no_low_escape r"
  shows "scan_string (escape_char c @ r) = cons_char c (scan_string r)"
proof -
  consider "c \<in> {34, 92, 10, 13, 9, 12, 8}" | "32 \<le> c" "c \<le> 126" "c \<noteq> 34" "c \<noteq> 92"
    | "c < 65536" "c \<notin> {34, 92, 10, 13, 9, 12, 8}" "\<not> (32 \<le> c \<and> c \<le> 126)" | "65536 \<le> c"
    by force
  then show ?thesis
  proof cases
    case 1
    then show ?thesis by (auto simp: escape_char_def scan_escape escape_value_def)
  next
    case 2
    then show ?thesis by (auto simp: escape_char_def scan_plain)
  next
    case 3
    then have "escape_char c = unicode_escape c"
      by (auto simp: escape_char_def)
    with 3 show ?thesis
      using assms by (simp add: unicode_escape_def scan_unicode read_unicode_hex4)
  next
    case 4
    then have "escape_char c = unicode_escape (high_half c) @ unicode_escape (low_half c)"
      by (simp add: escape_char_def)
    with 4 assms(1) show ?thesis
      by (simp add: unicode_escape_def [of "high_half c"] scan_unicode read_unicode_pair)
  qed
qed

lemma no_low_escape_char:
  assumes "c \<le> 1114111" and "\<not> is_low c"
  shows "no_low_escape (escape_char c @ r)"
proof (cases "c < 65536")
  case True
  then show ?thesis
    using assms by (auto simp: no_low_escape_def escape_char_def unicode_escape_def read_hex4_hex4)
next
  case False
  then have "escape_char c = 92 # 117 # hex4 (high_half c) @ unicode_escape (low_half c)"
    by (simp add: escape_char_def unicode_escape_def)
  with False assms(1) show ?thesis
    by (simp add: no_low_escape_def halves read_hex4_hex4)
qed

lemma no_low_escape_quote: "no_low_escape (34 # r)"
  by (simp add: no_low_escape_def)

lemma scan_written_string: "str_ok s \<Longrightarrow> scan_string (concat (map escape_char s) @ 34 # r) = Some (s, r)"
proof (induction s)
  case Nil
  then show ?case by (simp add: scan_quote)
next
  case (Cons c s)
  have "no_low_escape (concat (map escape_char s) @ 34 # r)" if "is_high c"
  proof (cases s)
    case Nil
    then show ?thesis by (simp add: no_low_escape_quote)
  next
    case (Cons d s')
    with Cons.prems that show ?thesis by (simp add: no_low_escape_char)
  qed
  with Cons show ?case
    by (simp add: scan_escape_char cons_char_def)
qed

subsection \<open>Numbers\<close>

text \<open>The text after a value does not continue a number.\<close>

definition ends_number :: "str \<Rightarrow> bool" where
  "ends_number r \<longleftrightarrow> (case r of [] \<Rightarrow> True | c # _ \<Rightarrow> \<not> is_digit c \<and> c \<notin> {43, 45, 46, 101, 69})"

lemma takeWhile_digits:
  "list_all is_digit ds \<Longrightarrow> (case r of [] \<Rightarrow> True | c # _ \<Rightarrow> \<not> is_digit c) \<Longrightarrow>
    takeWhile is_digit (ds @ r) = ds \<and> dropWhile is_digit (ds @ r) = r"
  by (induction ds) (auto split: list.splits)

lemma dec_nat_leading: "\<exists>c cs. dec_nat n = c # cs \<and> is_digit c \<and> (c = 48 \<longrightarrow> cs = [] \<and> n = 0)"
proof (induction n rule: dec_nat.induct)
  case (1 n)
  show ?case
  proof (cases "n < 10")
    case True
    then show ?thesis by (subst dec_nat.simps) (auto simp: is_digit_def)
  next
    case False
    with 1 obtain c cs where "dec_nat (n div 10) = c # cs" "is_digit c" "c = 48 \<longrightarrow> n div 10 = 0"
      by blast
    with False show ?thesis
      by (subst dec_nat.simps) auto
  qed
qed

lemma scan_digits_dec_nat: "(case r of [] \<Rightarrow> True | c # _ \<Rightarrow> \<not> is_digit c) \<Longrightarrow>
    scan_digits (dec_nat n @ r) = Some (dec_nat n, r)"
  using dec_nat_leading [of n] takeWhile_digits [OF dec_nat_digits [of n], of r]
  by (auto simp: scan_digits_def)

lemma scan_int_dec_int:
  assumes "ends_number r"
  shows "scan_int (dec_int i @ r) = Some (dec_int i, r)"
proof -
  have r: "case r of [] \<Rightarrow> True | c # _ \<Rightarrow> \<not> is_digit c"
    using assms by (auto simp: ends_number_def split: list.splits)
  obtain c cs where "dec_nat (nat i) = c # cs" "is_digit c"
    using dec_nat_leading [of "nat i"] by blast
  then show ?thesis
    using scan_digits_dec_nat [OF r, of "nat i"] scan_digits_dec_nat [OF r, of "nat (- i)"]
    by (auto simp: dec_int_def scan_int_def is_digit_def)
qed

lemma no_fraction: "ends_number r \<Longrightarrow> scan_fraction r = ([], r) \<and> scan_exponent r = ([], r)"
  by (auto simp: ends_number_def scan_fraction_def scan_exponent_def split: list.splits prod.splits)

lemma scan_number_dec_int:
  "printable_int (JInt i) \<Longrightarrow> ends_number r \<Longrightarrow> scan_number read_float (dec_int i @ r) = Some (JInt i, r)"
  by (simp add: scan_number_def scan_int_dec_int no_fraction parse_dec_dec_int)


text \<open>The literals \<^verbatim>\<open>float.__repr__\<close> prints: with a fraction or an exponent.\<close>

definition float_literal :: "str \<Rightarrow> bool" where
  "float_literal t =
     (case scan_int t of
        None \<Rightarrow> False
      | Some (ip, r) \<Rightarrow>
          (let (fp, r1) = scan_fraction r; (ep, r2) = scan_exponent r1
           in (fp \<noteq> [] \<or> ep \<noteq> []) \<and> r2 = []))"

definition no_digit :: "str \<Rightarrow> bool" where
  "no_digit r \<longleftrightarrow> (case r of [] \<Rightarrow> True | c # _ \<Rightarrow> \<not> is_digit c)"

lemma ends_number_no_digit: "ends_number r \<Longrightarrow> no_digit r"
  by (auto simp: ends_number_def no_digit_def split: list.splits)

lemma digits_append:
  "no_digit r \<Longrightarrow> takeWhile is_digit (s @ r) = takeWhile is_digit s \<and>
    dropWhile is_digit (s @ r) = dropWhile is_digit s @ r"
  by (induction s) (auto simp: no_digit_def split: list.splits)

lemma scan_digits_append:
  "scan_digits s = Some (ds, t) \<Longrightarrow> no_digit r \<Longrightarrow> scan_digits (s @ r) = Some (ds, t @ r)"
  using digits_append [of r "tl s"]
  by (cases s) (auto simp: scan_digits_def split: if_splits)

lemma scan_int_append: "scan_int s = Some (ds, t) \<Longrightarrow> no_digit r \<Longrightarrow> scan_int (s @ r) = Some (ds, t @ r)"
  by (cases s) (auto simp: scan_int_def scan_digits_append dest: scan_digits_append [of "_ # _", simplified]
      split: if_splits)

lemma scan_fraction_append:
  "scan_fraction s = (fp, t) \<Longrightarrow> ends_number r \<Longrightarrow> scan_fraction (s @ r) = (fp, t @ r)"
  using digits_append [OF ends_number_no_digit, of r "tl s"] no_fraction [of r]
  by (cases s) (auto simp: scan_fraction_def split: if_splits)

lemma exponent_sign_append:
  "ends_number r \<Longrightarrow> exponent_sign (s @ r) = (fst (exponent_sign s), snd (exponent_sign s) @ r)"
  by (cases s) (auto simp: exponent_sign_def ends_number_def split: list.splits)

lemma scan_exponent_append:
  "scan_exponent s = (ep, t) \<Longrightarrow> ends_number r \<Longrightarrow> scan_exponent (s @ r) = (ep, t @ r)"
  using digits_append [OF ends_number_no_digit, of r "snd (exponent_sign (tl s))"] no_fraction [of r]
  by (cases s) (auto simp: scan_exponent_def exponent_sign_append split: prod.splits if_splits)

lemma scan_int_split: "scan_int s = Some (ip, r) \<Longrightarrow> s = ip @ r"
  by (auto simp: scan_int_def scan_digits_def split: list.splits if_splits)

lemma scan_fraction_split: "scan_fraction s = (fp, r) \<Longrightarrow> s = fp @ r"
  by (auto simp: scan_fraction_def split: list.splits if_splits)

lemma scan_exponent_split: "scan_exponent s = (ep, r) \<Longrightarrow> s = ep @ r"
  by (auto simp: scan_exponent_def exponent_sign_def split: list.splits if_splits)

lemma scan_float_literal:
  assumes "float_literal t" and "ends_number r"
  shows "scan_number read_float (t @ r) = Some (JFloat (read_float t), r)"
proof -
  obtain ip r0 fp r1 ep where t: "scan_int t = Some (ip, r0)" "scan_fraction r0 = (fp, r1)"
      "scan_exponent r1 = (ep, [])" "fp \<noteq> [] \<or> ep \<noteq> []"
    using assms(1) by (auto simp: float_literal_def split: option.splits prod.splits)
  have "t = ip @ fp @ ep"
    using scan_int_split [OF t(1)] scan_fraction_split [OF t(2)] scan_exponent_split [OF t(3)] by simp
  moreover have "scan_int (t @ r) = Some (ip, r0 @ r)" "scan_fraction (r0 @ r) = (fp, r1 @ r)"
      "scan_exponent (r1 @ r) = (ep, r)"
    using scan_int_append [OF t(1) ends_number_no_digit] scan_fraction_append [OF t(2)]
      scan_exponent_append [OF t(3)] assms(2) by simp_all
  ultimately show ?thesis
    using t(4) by (auto simp: scan_number_def)
qed


subsection \<open>Documents\<close>

lemma json_induct [case_names Null Bool Int Float Str Arr Obj]:
  assumes "P JNull" "\<And>b. P (JBool b)" "\<And>i. P (JInt i)" "\<And>x. P (JFloat x)" "\<And>s. P (JStr s)"
    "\<And>vs. (\<And>v. v \<in> set vs \<Longrightarrow> P v) \<Longrightarrow> P (JArr vs)"
    "\<And>d. (\<And>k v. (k, v) \<in> set d \<Longrightarrow> P v) \<Longrightarrow> P (JObj d)"
  shows "P j"
proof (induction j)
  case (JObj d)
  then show ?case
    by (intro assms(7)) (auto intro: snds.intros)
qed (use assms in auto)

text \<open>How many containers are open at once.\<close>

fun nesting :: "json \<Rightarrow> nat" where
  "nesting (JArr vs) = Suc (foldr max (map nesting vs) 0)"
| "nesting (JObj d) = Suc (foldr max (map (\<lambda>p. nesting (snd p)) d) 0)"
| "nesting j = 0"

lemma foldr_max_le: "foldr max ns 0 \<le> m \<longleftrightarrow> (\<forall>n \<in> set ns. n \<le> (m :: nat))"
  by (induction ns) auto

text \<open>A node the text format keeps: distinct keys, readable strings, floats and integers.\<close>

fun node_ok :: "(pyfloat \<Rightarrow> str) \<Rightarrow> (str \<Rightarrow> pyfloat) \<Rightarrow> json \<Rightarrow> bool" where
  "node_ok repr_float read_float (JInt i) = printable_int (JInt i)"
| "node_ok repr_float read_float (JFloat x) =
     (f_finite x \<longrightarrow> float_literal (repr_float x) \<and> read_float (repr_float x) = x)"
| "node_ok repr_float read_float (JStr s) = str_ok s"
| "node_ok repr_float read_float (JObj d) = (wf_dict d \<and> list_all (\<lambda>p. str_ok (fst p)) d)"
| "node_ok repr_float read_float _ = True"

definition text_ok :: "(pyfloat \<Rightarrow> str) \<Rightarrow> (str \<Rightarrow> pyfloat) \<Rightarrow> json \<Rightarrow> bool" where
  "text_ok repr_float read_float = every_node (node_ok repr_float read_float)"

lemma scan_int_no_literal: "scan_int s = Some p \<Longrightarrow> scan_literal literals s = None"
  by (cases s; cases "tl s")
    (auto simp: scan_int_def scan_digits_def literals_def str_simps is_digit_def split: if_splits)

lemma scan_number_scalar:
  "scan_number read_float s = Some p \<Longrightarrow> scan_scalar read_float s = Some p"
  by (auto simp: scan_scalar_def scan_number_def scan_int_no_literal split: option.splits)

lemma scan_int_first: "scan_int s = Some p \<Longrightarrow> \<exists>c t. s = c # t \<and> (c = 45 \<or> is_digit c)"
  by (auto simp: scan_int_def scan_digits_def is_digit_def split: list.splits if_splits)

lemma scan_once_number:
  assumes "scan_number read_float s = Some p"
  shows "scan_once read_float nested s = Inr p"
proof -
  obtain q where "scan_int s = Some q"
    using assms by (auto simp: scan_number_def split: option.splits)
  then obtain c t where "s = c # t" "c = 45 \<or> is_digit c"
    using scan_int_first by blast
  then show ?thesis
    using scan_number_scalar [OF assms] by (auto simp: scan_once_def expect_def is_digit_def)
qed

lemma scan_once_literal:
  "(t, j) \<in> set literals \<Longrightarrow> scan_once read_float nested (t @ r) = Inr (j, r)"
  by (auto simp: literals_def str_simps scan_once_def scan_scalar_def expect_def)

text \<open>The first character of a value is no white space and no closing bracket.\<close>

definition starts_value :: "str \<Rightarrow> bool" where
  "starts_value t \<longleftrightarrow> (case t of [] \<Rightarrow> False | c # _ \<Rightarrow> \<not> json_space c \<and> c \<noteq> 93 \<and> c \<noteq> 125)"

lemma skip_space_stop: "\<not> json_space c \<Longrightarrow> skip_space (c # r) = c # r"
  by (simp add: skip_space_def)

lemma skip_starts: "starts_value t \<Longrightarrow> skip_space (t @ r) = t @ r"
  by (auto simp: starts_value_def skip_space_stop split: list.splits)

lemma json_space_simps [simp]:
  "\<not> json_space 34" "\<not> json_space 44" "\<not> json_space 58" "\<not> json_space 91" "\<not> json_space 93"
  "\<not> json_space 123" "\<not> json_space 125"
  by (simp_all add: json_space_def)

lemma starts_number: "scan_int s = Some p \<Longrightarrow> starts_value s"
  by (auto simp: starts_value_def json_space_def is_digit_def dest!: scan_int_first)

lemma scan_items_written:
  assumes "xs \<noteq> []" and "length xs \<le> n"
    and "\<And>x r. x \<in> set xs \<Longrightarrow> ends_number r \<Longrightarrow> item (w x @ r) = Inr (x, r)"
    and "\<And>x. x \<in> set xs \<Longrightarrow> starts_value (w x)"
    and "close = 93 \<or> close = 125"
  shows "scan_items item close n (comma_separated (map w xs) @ close # r) = Inr (xs, r)"
  using assms
proof (induction xs arbitrary: n)
  case Nil
  then show ?case by simp
next
  case (Cons x xs)
  obtain m where n: "n = Suc m" using Cons.prems(2) by (cases n) auto
  have ends: "ends_number (close # t)" "ends_number (44 # t)" for t
    using Cons.prems(5) by (auto simp: ends_number_def is_digit_def)
  have close: "\<not> json_space close" "close \<noteq> 44" using Cons.prems(5) by auto
  show ?case
  proof (cases xs)
    case Nil
    then show ?thesis
      using Cons.prems(3) [of x "close # r"] ends close by (simp add: n skip_space_stop)
  next
    case (Cons y ys)
    let ?rest = "comma_separated (map w xs) @ close # r"
    have written: "comma_separated (map w (x # xs)) @ close # r = w x @ 44 # ?rest"
      by (simp add: Cons)
    have "starts_value (comma_separated (map w xs))"
      using Cons.prems(4) [of y] by (cases ys) (auto simp: Cons starts_value_def split: list.splits)
    then have "skip_space ?rest = ?rest"
      by (rule skip_starts)
    moreover have "scan_items item close m ?rest = Inr (xs, r)"
      using Cons.prems n by (intro Cons.IH) (auto simp: Cons)
    ultimately show ?thesis
      using Cons.prems(3) [of x "44 # ?rest"] ends close
      by (subst written) (simp add: n skip_space_stop)
  qed
qed


lemma length_comma_separated:
  "(\<And>t. t \<in> set ts \<Longrightarrow> t \<noteq> []) \<Longrightarrow> length ts \<le> length (comma_separated ts)"
proof (induction ts rule: comma_separated.induct)
  case (3 x y xs)
  then have "x \<noteq> []" by simp
  then have "Suc 0 \<le> length x" by (cases x) auto
  with 3 show ?case by simp
qed (auto simp: Suc_le_eq)

lemma starts_comma_separated:
  "ts \<noteq> [] \<Longrightarrow> starts_value (hd ts) \<Longrightarrow> starts_value (comma_separated ts)"
  by (cases ts rule: comma_separated.cases) (auto simp: starts_value_def split: list.splits)

lemma starts_append: "starts_value t \<Longrightarrow> starts_value (t @ r)"
  by (auto simp: starts_value_def split: list.splits)

lemma scan_bracket_written:
  assumes "\<And>x r. x \<in> set xs \<Longrightarrow> ends_number r \<Longrightarrow> item (w x @ r) = Inr (x, r)"
    and "\<And>x. x \<in> set xs \<Longrightarrow> starts_value (w x)"
    and "close = 93 \<or> close = 125"
  shows "scan_bracket item close (comma_separated (map w xs) @ close # r) = Inr (xs, r)"
proof (cases "xs = []")
  case True
  with assms(3) show ?thesis by (auto simp: scan_bracket_def skip_space_stop)
next
  case False
  let ?t = "comma_separated (map w xs)"
  have starts: "starts_value ?t"
    using False assms(2) [of "hd xs"] by (intro starts_comma_separated) (simp_all add: hd_map)
  have "t \<noteq> []" if "t \<in> set (map w xs)" for t
    using that assms(2) by (fastforce simp: starts_value_def)
  then have "length (map w xs) \<le> length ?t"
    by (rule length_comma_separated)
  then have "scan_items item close (length (?t @ close # r)) (?t @ close # r) = Inr (xs, r)"
    using False assms by (intro scan_items_written) simp_all
  moreover obtain c t where "?t = c # t" "c \<noteq> 93" "c \<noteq> 125"
    using starts by (cases ?t) (auto simp: starts_value_def)
  ultimately show ?thesis
    using skip_starts [OF starts, of "close # r"] assms(3) by (auto simp: scan_bracket_def)
qed

lemma starts_dec_int: "starts_value (dec_int i)"
  using scan_int_dec_int [of "[]" i] starts_number by (simp add: ends_number_def)

lemma starts_float_literal: "float_literal t \<Longrightarrow> starts_value t"
  by (auto simp: float_literal_def starts_number split: option.splits)

lemma starts_written: "text_ok fr rf j \<Longrightarrow> starts_value (write_json fr j)"
proof (cases j)
  case (JFloat x)
  moreover assume "text_ok fr rf j"
  ultimately show ?thesis
    using starts_float_literal [of "fr x"]
    by (cases x) (auto simp: text_ok_def write_float_def starts_value_def str_simps json_space_def)
qed (use starts_dec_int in \<open>auto simp: write_string_def starts_value_def str_simps json_space_def\<close>)

definition write_member :: "(pyfloat \<Rightarrow> str) \<Rightarrow> str \<times> json \<Rightarrow> str" where
  "write_member repr_float p = write_string (fst p) @ 58 # write_json repr_float (snd p)"

lemma write_json_Obj: "write_json fr (JObj d) = 123 # comma_separated (map (write_member fr) d) @ [125]"
  by (simp add: write_member_def [abs_def])

lemma scan_member_written:
  assumes "str_ok k" and "starts_value (write_json fr v)"
    and "scan (write_json fr v @ r) = Inr (v, r)"
  shows "scan_member scan (write_member fr (k, v) @ r) = Inr ((k, v), r)"
  using assms skip_starts [OF assms(2), of r]
  by (simp add: scan_member_def write_member_def write_string_def scan_written_string expect_def
      skip_space_stop)

lemma scan_json_nested: "0 < depth \<Longrightarrow> scan_json rf depth = scan_once rf (Some (scan_json rf (depth - 1)))"
  by (cases depth) auto

lemma nesting_le:
  "nesting (JArr vs) \<le> m \<longleftrightarrow> 0 < m \<and> (\<forall>v \<in> set vs. nesting v \<le> m - 1)"
  "nesting (JObj d) \<le> m \<longleftrightarrow> 0 < m \<and> (\<forall>(k, v) \<in> set d. nesting v \<le> m - 1)"
  by (cases m; auto simp: foldr_max_le)+

lemma scan_once_word:
  "scan_json rf depth (S ''null'' @ r) = Inr (JNull, r)"
  "scan_json rf depth (S ''true'' @ r) = Inr (JBool True, r)"
  "scan_json rf depth (S ''false'' @ r) = Inr (JBool False, r)"
  "scan_json rf depth (S ''NaN'' @ r) = Inr (JFloat Nan, r)"
  "scan_json rf depth (S ''Infinity'' @ r) = Inr (JFloat PInf, r)"
  "scan_json rf depth (S ''-Infinity'' @ r) = Inr (JFloat NInf, r)"
  by (cases depth; simp; rule scan_once_literal; simp add: literals_def)+

lemma scan_written:
  assumes "text_ok fr rf j" and "nesting j \<le> depth" and "ends_number r"
  shows "scan_json rf depth (write_json fr j @ r) = Inr (j, r)"
  using assms
proof (induction j arbitrary: depth r rule: json_induct)
  case (Int i)
  then have "scan_number rf (dec_int i @ r) = Some (JInt i, r)"
    by (intro scan_number_dec_int) (simp_all add: text_ok_def)
  then show ?case
    by (cases depth) (simp_all add: scan_once_number)
next
  case (Float x)
  show ?case
  proof (cases "f_finite x")
    case True
    then have "scan_number rf (fr x @ r) = Some (JFloat x, r)"
      using Float scan_float_literal [of "fr x" r rf] by (simp add: text_ok_def)
    with True show ?thesis
      by (cases depth; cases x) (simp_all add: scan_once_number write_float_def)
  next
    case False
    then show ?thesis
      by (cases x) (simp_all add: write_float_def scan_once_word)
  qed
next
  case (Str s)
  then show ?case
    by (cases depth) (simp_all add: scan_once_def write_string_def scan_written_string expect_def text_ok_def)
next
  case (Arr vs)
  have d: "0 < depth" "\<And>v. v \<in> set vs \<Longrightarrow> nesting v \<le> depth - 1"
    using Arr.prems(2) unfolding nesting_le by blast+
  have ok: "text_ok fr rf v" if "v \<in> set vs" for v
    using Arr.prems(1) that by (simp add: text_ok_def list_all_iff)
  have "scan_bracket (scan_json rf (depth - 1)) 93 (comma_separated (map (write_json fr) vs) @ 93 # r) =
      Inr (vs, r)"
    using d(2) ok Arr.IH by (intro scan_bracket_written) (auto intro: starts_written)
  then show ?case
    using d(1) by (simp add: scan_json_nested scan_once_def)
next
  case (Obj d)
  have n: "0 < depth" "\<And>k v. (k, v) \<in> set d \<Longrightarrow> nesting v \<le> depth - 1"
    using Obj.prems(2) unfolding nesting_le by blast+
  have ok: "text_ok fr rf v" "str_ok k" if "(k, v) \<in> set d" for k v
    using Obj.prems(1) that by (auto simp: text_ok_def list_all_iff)
  have "scan_bracket (scan_member (scan_json rf (depth - 1))) 125
      (comma_separated (map (write_member fr) d) @ 125 # r) = Inr (d, r)"
  proof (rule scan_bracket_written)
    fix p r' assume "p \<in> set d" "ends_number r'"
    moreover obtain k v where p: "p = (k, v)" by (cases p)
    ultimately have "scan_json rf (depth - 1) (write_json fr v @ r') = Inr (v, r')"
        and "str_ok k" and "starts_value (write_json fr v)"
      using ok [of k v] n(2) [of k v] Obj.IH [of k v] starts_written by auto
    then show "scan_member (scan_json rf (depth - 1)) (write_member fr p @ r') = Inr (p, r')"
      by (simp add: p scan_member_written)
  qed (auto simp: write_member_def write_string_def starts_value_def)
  moreover have "dict_union [] d = d"
    using Obj.prems(1) dict_union_fresh [of d "[]"] by (simp add: text_ok_def)
  ultimately show ?case
    using n(1) by (simp add: write_json_Obj scan_json_nested scan_once_def del: write_json.simps)
qed (simp_all add: scan_once_word)

lemma loads_text_written:
  "text_ok fr rf j \<Longrightarrow> nesting j \<le> depth \<Longrightarrow> loads_text rf depth (write_json fr j) = Inr j"
  using scan_written [of fr rf j depth "[]"] skip_starts [OF starts_written, of fr rf j "[]"]
  by (simp add: loads_text_def ends_number_def skip_space_def)

subsection \<open>The bytes are printable ASCII\<close>

definition printable :: "nat \<Rightarrow> bool" where
  "printable c \<longleftrightarrow> 32 \<le> c \<and> c \<le> 126"

lemma printable_numeral [simp]: "printable (numeral n) \<longleftrightarrow> 32 \<le> (numeral n :: nat) \<and> numeral n \<le> (126 :: nat)"
  by (simp add: printable_def)

lemma printable_hex4: "n < 65536 \<Longrightarrow> list_all printable (hex4 n)"
proof -
  have "printable (hex_digit d)" if "d < 16" for d
    using that by (auto simp: printable_def hex_digit_def)
  moreover assume "n < 65536"
  ultimately show ?thesis
    by (auto simp: hex4_def)
qed

lemma printable_unicode: "n < 65536 \<Longrightarrow> list_all printable (unicode_escape n)"
  by (simp add: unicode_escape_def printable_hex4)

lemma printable_escape:
  assumes "c \<le> 1114111"
  shows "list_all printable (escape_char c)"
proof (cases "c < 65536")
  case True
  then have "list_all printable (unicode_escape c)" by (rule printable_unicode)
  with True show ?thesis by (simp add: escape_char_def) (simp add: printable_def)
next
  case False
  then have "list_all printable (unicode_escape (high_half c))" "list_all printable (unicode_escape (low_half c))"
    using assms halves(4,5) [of c] by (simp_all add: printable_unicode)
  with False show ?thesis by (simp add: escape_char_def)
qed

lemma printable_string: "str_ok s \<Longrightarrow> list_all printable (write_string s)"
proof -
  assume "str_ok s"
  then have "list_all printable (concat (map escape_char s))"
    by (induction s) (auto simp: printable_escape)
  then show ?thesis
    by (simp add: write_string_def)
qed

lemma printable_digits: "list_all is_digit ds \<Longrightarrow> list_all printable ds"
  by (auto simp: list_all_iff is_digit_def printable_def)

lemma printable_digit: "is_digit c \<Longrightarrow> printable c"
  by (simp add: is_digit_def printable_def)

lemma printable_takeWhile: "list_all printable (takeWhile is_digit s)"
  by (rule printable_digits) (auto simp: list_all_iff dest: set_takeWhileD)

lemma printable_sign: "list_all printable (fst (exponent_sign s))"
  by (auto simp: exponent_sign_def split: list.splits)

lemma printable_exponent: "scan_exponent s = (ep, r) \<Longrightarrow> list_all printable ep"
  using printable_sign [of "tl s"] printable_takeWhile [of "snd (exponent_sign (tl s))"]
  by (cases s) (auto simp: scan_exponent_def case_prod_unfold Let_def split: if_splits)

lemma printable_float_literal: "float_literal t \<Longrightarrow> list_all printable t"
proof -
  assume "float_literal t"
  then obtain ip r0 fp r1 ep where t: "scan_int t = Some (ip, r0)" "scan_fraction r0 = (fp, r1)"
      "scan_exponent r1 = (ep, [])"
    by (auto simp: float_literal_def split: option.splits prod.splits)
  have "t = ip @ fp @ ep"
    using scan_int_split [OF t(1)] scan_fraction_split [OF t(2)] scan_exponent_split [OF t(3)] by simp
  moreover have "list_all printable ip"
    using t(1) printable_takeWhile
    by (auto simp: scan_int_def scan_digits_def printable_digit split: list.splits if_splits)
  moreover have "list_all printable fp"
    using t(2) printable_takeWhile by (auto simp: scan_fraction_def split: list.splits if_splits)
  moreover have "list_all printable ep"
    using t(3) by (rule printable_exponent)
  ultimately show ?thesis by simp
qed

lemma printable_comma: "list_all (list_all printable) ts \<Longrightarrow> list_all printable (comma_separated ts)"
  by (induction ts rule: comma_separated.induct) (auto simp: printable_def)

lemma printable_dec_int: "list_all printable (dec_int i)"
  using dec_nat_digits printable_digits by (simp add: dec_int_def printable_def)

lemma printable_json: "text_ok fr rf j \<Longrightarrow> list_all printable (write_json fr j)"
proof (induction j rule: json_induct)
  case (Float x)
  then show ?case
    using printable_float_literal [of "fr x"]
    by (cases x) (auto simp: text_ok_def write_float_def str_simps)
next
  case (Arr vs)
  then have "list_all (list_all printable) (map (write_json fr) vs)"
    by (auto simp: text_ok_def list_all_iff)
  then show ?case
    by (auto simp: printable_comma)
next
  case (Obj d)
  then have "list_all (list_all printable) (map (write_member fr) d)"
    using printable_string by (fastforce simp: text_ok_def list_all_iff write_member_def)
  then show ?case
    by (auto simp: write_json_Obj printable_comma simp del: write_json.simps)
qed (auto simp: printable_dec_int printable_string text_ok_def str_simps)


subsection \<open>From bytes to bytes\<close>

lemma printable_utf8: "list_all printable s \<Longrightarrow> utf8_encode s = Inr (map of_nat s)"
proof -
  assume s: "list_all printable s"
  then have "utf8_nats s = s"
    by (induction s) (auto simp: utf8_nats_def utf8_char_def printable_def)
  moreover have "list_all is_scalar s"
    using s by (auto simp: list_all_iff is_scalar_def printable_def)
  ultimately show ?thesis
    by (simp add: utf8_encode_def)
qed

lemma printable_utf8_strict: "list_all printable s \<Longrightarrow> utf8_strict s = Some s"
  by (induction s) (auto simp: printable_def)

lemma printable_detected:
  assumes "list_all printable s"
  shows "decode_detected s = Some s"
proof -
  have "0 < s ! i" if "i < length s" for i
    using assms that by (auto simp: list_all_length printable_def)
  from this [of 0] this [of 1] have "2 \<le> length s \<longrightarrow> 0 < s ! 0 \<and> 0 < s ! 1"
    by (cases s; cases "tl s") auto
  moreover have "0 \<notin> set (take n s)" "254 \<notin> set (take n s)" "239 \<notin> set (take n s)" for n
    using assms by (auto simp: list_all_iff printable_def dest!: in_set_takeD)
  then have "take 4 s \<noteq> [0, 0, 254, 255]" "take 4 s \<noteq> [255, 254, 0, 0]" "take 2 s \<noteq> [254, 255]"
      "take 2 s \<noteq> [255, 254]" "take 3 s \<noteq> [239, 187, 191]"
    by (metis list.set_intros)+
  ultimately show ?thesis
    using printable_utf8_strict [OF assms] by (auto simp: decode_detected_def)
qed

lemma printable_bytes: "list_all printable s \<Longrightarrow> map (unat \<circ> (of_nat :: nat \<Rightarrow> byte)) s = s"
  by (intro map_unat_of_nat) (auto simp: list_all_iff printable_def)

lemma every_node_mono: "every_node P j \<Longrightarrow> (\<And>j. P j \<Longrightarrow> Q j) \<Longrightarrow> every_node Q j"
  by (induction j rule: json_induct) (auto simp: list_all_iff)

lemma text_ok_printable_int: "text_ok fr rf j \<Longrightarrow> every_node printable_int j"
  unfolding text_ok_def
proof (erule every_node_mono)
  show "node_ok fr rf j \<Longrightarrow> printable_int j" for j by (cases j) auto
qed

lemma stdlib_dumps_ok:
  "text_ok fr rf j \<Longrightarrow> stdlib_dumps fr j = Inr (map of_nat (write_json fr j))"
  by (simp add: stdlib_dumps_def text_ok_printable_int printable_utf8 [OF printable_json])

lemma stdlib_loads_dumps:
  "text_ok fr rf j \<Longrightarrow> nesting j \<le> depth \<Longrightarrow> stdlib_dumps fr j = Inr raw \<Longrightarrow>
    stdlib_loads rf depth raw = Inr j"
  using printable_json [of fr rf j]
  by (auto simp: stdlib_dumps_ok stdlib_loads_def printable_bytes printable_detected expect_def
      loads_text_written)

end
