(* ===== verification/JsonCodec.thy ===== *)
theory JsonCodec
  imports JsonRoundtrip
begin

section \<open>Parsing any bytes, and the documents the encoder prints\<close>

text \<open>
  What \<^verbatim>\<open>json.loads\<close> does on arbitrary bytes (its loops end, its documents are well-formed and no
  deeper than the limit, its exceptions are two), that the encoder's documents are well-formed,
  and the interface \<open>json_codec\<close> of serializer and parser, interpreted on the standard library's.
\<close>

subsection \<open>The scanners end\<close>

text \<open>A scanner takes at least one character, so the loop over items never runs out of turns.\<close>

definition consuming :: "'a scanner \<Rightarrow> bool" where
  "consuming scan \<longleftrightarrow> (\<forall>s v r. scan s = Inr (v, r) \<longrightarrow> length r < length s)"

lemma skip_space_length: "length (skip_space s) \<le> length s"
  by (simp add: skip_space_def length_dropWhile_le)

lemma skip_space_Cons: "skip_space s = c # t \<Longrightarrow> length t < length s"
  using skip_space_length [of s] by simp

lemma scan_items_turns:
  assumes "consuming item" and "item [] = Inl not_json" and "length s \<le> n" and "length s \<le> m"
  shows "scan_items item close n s = scan_items item close m s"
  using assms(3,4)
proof (induction n arbitrary: m s)
  case 0
  then show ?case
    using assms(2) by (cases m) simp_all
next
  case (Suc n)
  show ?case
  proof (cases m)
    case 0
    with Suc.prems have "s = []" by simp
    with 0 show ?thesis
      using assms(2) by simp
  next
    case (Suc m')
    have "scan_items item close n (skip_space t) = scan_items item close m' (skip_space t)"
      if "item s = Inr (v, r)" "skip_space r = c # t" for v r c t
    proof -
      have "length r < length s" using assms(1) that(1) by (auto simp: consuming_def)
      then have "length (skip_space t) < length s"
        using skip_space_Cons [OF that(2)] skip_space_length [of t] by simp
      then show ?thesis
        using Suc.prems Suc by (intro Suc.IH) simp_all
    qed
    then show ?thesis
      by (cases "item s") (auto simp: Suc split: list.split)
  qed
qed

lemma cons_char_Some: "cons_char c x = Some (t, r) \<longleftrightarrow> (\<exists>t'. x = Some (t', r) \<and> t = c # t')"
  by (auto simp: cons_char_def)

lemma scan_string_length: "scan_string s = Some (t, r) \<Longrightarrow> length r < length s"
proof (induction s arbitrary: t rule: measure_induct_rule [of length])
  case (less s)
  note IH = less.IH [rotated]
  from less.prems show ?case
    by (subst (asm) scan_string.simps)
      (auto simp: cons_char_Some split: list.splits if_splits option.splits
        dest!: read_unicode_length IH)
qed


lemma consumingD: "consuming scan \<Longrightarrow> scan s = Inr (v, r) \<Longrightarrow> length r < length s"
  by (auto simp: consuming_def)

lemma strip_prefix_split: "strip_prefix p s = Some r \<Longrightarrow> s = p @ r"
  by (induction p s rule: strip_prefix.induct) (auto split: if_splits)

lemma scan_literal_length:
  "scan_literal ls s = Some (j, r) \<Longrightarrow> (\<forall>p \<in> set ls. fst p \<noteq> []) \<Longrightarrow> length r < length s"
  by (induction ls) (auto split: option.splits dest!: strip_prefix_split)

lemma scan_number_length: "scan_number rf s = Some (j, r) \<Longrightarrow> length r < length s"
proof -
  assume "scan_number rf s = Some (j, r)"
  then obtain ip r0 fp r1 ep where t: "scan_int s = Some (ip, r0)" "scan_fraction r0 = (fp, r1)"
      "scan_exponent r1 = (ep, r)"
    by (auto simp: scan_number_def split: option.splits prod.splits if_splits)
  have "ip \<noteq> []"
    using t(1) by (auto simp: scan_int_def scan_digits_def split: list.splits if_splits)
  then show ?thesis
    using scan_int_split [OF t(1)] scan_fraction_split [OF t(2)] scan_exponent_split [OF t(3)] by simp
qed

lemma scan_scalar_length: "scan_scalar rf s = Some (j, r) \<Longrightarrow> length r < length s"
  using scan_literal_length [of literals s j r] scan_number_length [of rf s j r]
  by (auto simp: scan_scalar_def literals_def split: option.splits)

lemma scan_items_cases:
  assumes "scan_items item close (Suc n) s = Inr (vs, r)"
  obtains (last) v r1 where "item s = Inr (v, r1)" "skip_space r1 = close # r" "vs = [v]"
    | (more) v r1 t vs' where "item s = Inr (v, r1)" "skip_space r1 = 44 # t"
        "scan_items item close n (skip_space t) = Inr (vs', r)" "vs = v # vs'"
proof -
  obtain v r1 where item: "item s = Inr (v, r1)"
    using assms by (cases "item s") auto
  with assms obtain c t where "skip_space r1 = c # t"
    by (cases "skip_space r1") auto
  with item assms show thesis
    using that by (auto simp: bindR_Inr_iff split: if_splits)
qed

lemma scan_member_cases:
  assumes "scan_member scan s = Inr (p, r)"
  obtains s' k r1 t v where "s = 34 # s'" "scan_string s' = Some (k, r1)" "skip_space r1 = 58 # t"
    "scan (skip_space t) = Inr (v, r)" "p = (k, v)"
proof -
  obtain s' where s: "s = 34 # s'"
    using assms by (auto simp: scan_member_def split: list.splits if_splits)
  with assms obtain k r1 where k: "scan_string s' = Some (k, r1)"
    by (cases "scan_string s'") (auto simp: scan_member_def expect_def)
  with s assms obtain c t where "skip_space r1 = c # t"
    by (cases "skip_space r1") (auto simp: scan_member_def expect_def)
  with s k assms show thesis
    using that by (auto simp: scan_member_def expect_def bindR_Inr_iff split: if_splits)
qed

lemma scan_once_cases:
  assumes "scan_once rf nested s = Inr (j, r)"
  obtains (string) s' t where "s = 34 # s'" "scan_string s' = Some (t, r)" "j = JStr t"
    | (object) s' scan kvs where "s = 123 # s'" "nested = Some scan"
        "scan_bracket (scan_member scan) 125 s' = Inr (kvs, r)" "j = JObj (dict_union [] kvs)"
    | (array) s' scan vs where "s = 91 # s'" "nested = Some scan"
        "scan_bracket scan 93 s' = Inr (vs, r)" "j = JArr vs"
    | (scalar) "scan_scalar rf s = Some (j, r)"
  using assms
  by (auto simp: scan_once_def bindR_Inr_iff expect_def split: list.splits if_splits option.splits)

lemma scan_items_length:
  "scan_items item close n s = Inr (vs, r) \<Longrightarrow> consuming item \<Longrightarrow> length r < length s"
proof (induction n arbitrary: s vs)
  case 0
  then show ?case by simp
next
  case (Suc n)
  from Suc.prems(1) show ?case
  proof (cases rule: scan_items_cases)
    case (last v r1)
    then show ?thesis
      using consumingD [OF Suc.prems(2) last(1)] skip_space_Cons [OF last(2)] by simp
  next
    case (more v r1 t vs')
    then have "length r1 < length s" "length r < length (skip_space t)"
      using Suc by (auto simp: consuming_def)
    then show ?thesis
      using skip_space_Cons [OF more(2)] skip_space_length [of t] by simp
  qed
qed

lemma scan_bracket_length: "scan_bracket item close s = Inr (vs, r) \<Longrightarrow> consuming item \<Longrightarrow> length r < length s"
  using skip_space_length [of s] scan_items_length [of item close "length (skip_space s)" "skip_space s" vs r]
  by (auto simp: scan_bracket_def Let_def split: list.splits if_splits)

lemma scan_member_length:
  "scan_member scan s = Inr (p, r) \<Longrightarrow> consuming scan \<Longrightarrow> length r < length s"
proof (erule scan_member_cases)
  fix s' k r1 t v
  assume *: "consuming scan" "s = 34 # s'" "scan_string s' = Some (k, r1)" "skip_space r1 = 58 # t"
    "scan (skip_space t) = Inr (v, r)"
  then have "length r < length (skip_space t)"
    by (auto simp: consuming_def)
  then show ?thesis
    using *(2) scan_string_length [OF *(3)] skip_space_Cons [OF *(4)] skip_space_length [of t] by simp
qed

lemma consuming_member: "consuming scan \<Longrightarrow> consuming (scan_member scan)"
  unfolding consuming_def using scan_member_length consuming_def by blast

lemma scan_once_length:
  assumes "case nested of None \<Rightarrow> True | Some scan \<Rightarrow> consuming scan"
  shows "consuming (scan_once rf nested)"
  unfolding consuming_def
proof (intro allI impI)
  fix s v r assume "scan_once rf nested s = Inr (v, r)"
  then show "length r < length s"
  proof (cases rule: scan_once_cases)
    case (object s' scan kvs)
    then show ?thesis
      using assms scan_bracket_length [OF object(3)] by (simp add: consuming_member)
  next
    case (array s' scan vs)
    then show ?thesis
      using assms scan_bracket_length [OF array(3)] by simp
  qed (auto dest: scan_string_length scan_scalar_length)
qed

lemma consuming_scan_json: "consuming (scan_json rf depth)"
  by (induction depth) (simp_all add: scan_once_length)

lemma scan_json_Nil: "scan_json rf depth [] = Inl not_json"
  by (cases depth) (simp_all add: scan_once_def)

text \<open>The loop over the items, without a bound on its turns.\<close>

definition scan_loop :: "'a scanner \<Rightarrow> nat \<Rightarrow> 'a list scanner" where
  "scan_loop item close s = scan_items item close (length s) s"

lemma scan_loop_unfold:
  assumes "consuming item" and "item [] = Inl not_json"
  shows "scan_loop item close s =
     bindR (item s) (\<lambda>(v, r).
       case skip_space r of
         [] \<Rightarrow> Inl not_json
       | c # t \<Rightarrow>
           if c = close then Inr ([v], t)
           else if c = 44
             then bindR (scan_loop item close (skip_space t)) (\<lambda>(vs, r'). Inr (v # vs, r'))
           else Inl not_json)"
proof (cases s)
  case Nil
  then show ?thesis by (simp add: scan_loop_def assms(2))
next
  case (Cons a s')
  have "scan_items item close (length s') (skip_space t) = scan_loop item close (skip_space t)"
    if "item s = Inr (v, r)" "skip_space r = c # t" for v r c t
  proof -
    have "length r < length s" using assms(1) that(1) by (auto simp: consuming_def)
    then show ?thesis
      unfolding scan_loop_def using Cons skip_space_Cons [OF that(2)] skip_space_length [of t]
      by (intro scan_items_turns [OF assms]) simp_all
  qed
  then show ?thesis
    by (cases "item s") (auto simp: scan_loop_def Cons split: list.split)
qed

subsection \<open>What a parser returns\<close>

text \<open>Every object a parser returns has distinct keys.\<close>

fun distinct_keys :: "json \<Rightarrow> bool" where
  "distinct_keys (JObj d) = wf_dict d"
| "distinct_keys _ = True"

definition json_wf :: "json \<Rightarrow> bool" where
  "json_wf = every_node distinct_keys"

lemma json_wf_simps [simp]:
  "json_wf JNull" "json_wf (JBool b)" "json_wf (JInt i)" "json_wf (JFloat x)" "json_wf (JStr s)"
  "json_wf (JArr vs) \<longleftrightarrow> list_all json_wf vs"
  "json_wf (JObj d) \<longleftrightarrow> wf_dict d \<and> list_all (\<lambda>p. json_wf (snd p)) d"
  by (simp_all add: json_wf_def)

lemma scan_items_all:
  "scan_items item close n s = Inr (vs, r) \<Longrightarrow> (\<And>s v r. item s = Inr (v, r) \<Longrightarrow> P v) \<Longrightarrow> list_all P vs"
proof (induction n arbitrary: s vs)
  case (Suc n)
  from Suc.prems(1) show ?case
    by (cases rule: scan_items_cases) (auto intro: Suc.IH Suc.prems(2))
qed simp

lemma scan_bracket_all:
  "scan_bracket item close s = Inr (vs, r) \<Longrightarrow> (\<And>s v r. item s = Inr (v, r) \<Longrightarrow> P v) \<Longrightarrow> list_all P vs"
  by (auto simp: scan_bracket_def Let_def simp del: scan_items.simps split: list.splits if_splits
      intro: scan_items_all)

lemma scan_number_scalar_value: "scan_scalar rf s = Some (j, r) \<Longrightarrow> json_wf j \<and> nesting j = 0"
proof -
  have "scan_literal ls s = Some (j, r) \<Longrightarrow> (\<exists>t. (t, j) \<in> set ls)" for ls
    by (induction ls) (auto split: option.splits)
  moreover assume "scan_scalar rf s = Some (j, r)"
  ultimately show ?thesis
    by (fastforce simp: scan_scalar_def literals_def scan_number_def
        split: option.splits prod.splits if_splits)
qed

lemma set_dict_set: "set (dict_set k v d) \<subseteq> insert (k, v) (set d)"
  by (induction k v d rule: dict_set.induct) auto

lemma set_dict_union: "set (dict_union a b) \<subseteq> set a \<union> set b"
proof (induction b arbitrary: a)
  case (Cons p b)
  then show ?case
    using set_dict_set [of "fst p" "snd p" a] by (cases p) (fastforce simp: dict_union_Cons)
qed simp

lemma scan_once_value:
  assumes "scan_once rf nested s = Inr (j, r)"
    and "\<And>scan s v r. nested = Some scan \<Longrightarrow> scan s = Inr (v, r) \<Longrightarrow> json_wf v \<and> nesting v \<le> m"
  shows "json_wf j \<and> nesting j \<le> (case nested of None \<Rightarrow> 0 | Some _ \<Rightarrow> Suc m)"
  using assms(1)
proof (cases rule: scan_once_cases)
  case (object s' scan kvs)
  have "list_all (\<lambda>p. json_wf (snd p) \<and> nesting (snd p) \<le> m) kvs"
    using object(3) by (rule scan_bracket_all) (auto elim!: scan_member_cases dest: assms(2) [OF object(2)])
  then have "list_all (\<lambda>p. json_wf (snd p) \<and> nesting (snd p) \<le> m) (dict_union [] kvs)"
    using set_dict_union [of "[]" kvs] by (auto simp: list_all_iff)
  then show ?thesis
    using object by (auto simp: wf_dict_union foldr_max_le list_all_iff)
next
  case (array s' scan vs)
  have "list_all (\<lambda>v. json_wf v \<and> nesting v \<le> m) vs"
    using array(3) by (rule scan_bracket_all) (rule assms(2) [OF array(2)])
  then show ?thesis
    using array by (auto simp: foldr_max_le list_all_iff)
qed (auto dest: scan_number_scalar_value)

lemma scan_json_value: "scan_json rf depth s = Inr (j, r) \<Longrightarrow> json_wf j \<and> nesting j \<le> depth"
proof (induction depth arbitrary: s j r)
  case 0
  then show ?case
    using scan_once_value [of rf None s j r] by simp
next
  case (Suc depth)
  then show ?case
    using scan_once_value [of rf "Some (scan_json rf depth)" s j r depth] by simp
qed


definition parse_error :: "exn \<Rightarrow> bool" where
  "parse_error e \<longleftrightarrow> e = not_json \<or> e = too_deep"

lemma parse_error_simps [simp]: "parse_error not_json" "parse_error too_deep"
  by (simp_all add: parse_error_def)

lemma expect_error: "expect x = Inl e \<Longrightarrow> parse_error e"
  by (simp add: expect_def split: option.splits)

definition fails_well :: "'a scanner \<Rightarrow> bool" where
  "fails_well scan \<longleftrightarrow> (\<forall>s e. scan s = Inl e \<longrightarrow> parse_error e)"

lemma scan_items_error: "scan_items item close n s = Inl e \<Longrightarrow> fails_well item \<Longrightarrow> parse_error e"
proof (induction n arbitrary: s)
  case (Suc n)
  show ?case
  proof (cases "item s")
    case (Inl e')
    with Suc.prems show ?thesis by (simp add: fails_well_def)
  next
    case (Inr p)
    obtain v r where p: "p = (v, r)" by (cases p)
    show ?thesis
      using Suc.prems Inr p Suc.IH
      by (cases "skip_space r") (auto simp: bindR_Inl_iff split: if_splits)
  qed
qed simp

lemma fails_well_bracket: "fails_well item \<Longrightarrow> fails_well (scan_bracket item close)"
  unfolding fails_well_def [of "scan_bracket item close"]
  by (auto simp: scan_bracket_def Let_def simp del: scan_items.simps split: list.splits if_splits
      intro: scan_items_error)

lemma fails_well_member: "fails_well scan \<Longrightarrow> fails_well (scan_member scan)"
  unfolding fails_well_def [of "scan_member scan"]
proof (intro allI impI)
  fix s e assume scan: "fails_well scan" and e: "scan_member scan s = Inl e"
  show "parse_error e"
  proof (cases s)
    case (Cons c s')
    show ?thesis
    proof (cases "scan_string s'")
      case (Some p)
      obtain k r where p: "p = (k, r)" by (cases p)
      show ?thesis
        using scan e Cons Some p
        by (cases "skip_space r")
          (auto simp: scan_member_def expect_def bindR_Inl_iff fails_well_def split: if_splits)
    qed (use e Cons in \<open>auto simp: scan_member_def expect_def split: if_splits\<close>)
  qed (use e in \<open>simp add: scan_member_def\<close>)
qed

lemma fails_well_once:
  assumes "case nested of None \<Rightarrow> True | Some scan \<Rightarrow> fails_well scan"
  shows "fails_well (scan_once rf nested)"
proof (cases nested)
  case None
  then show ?thesis
    by (auto simp: fails_well_def scan_once_def bindR_Inl_iff dest: expect_error split: list.splits if_splits)
next
  case (Some scan)
  then have "fails_well (scan_bracket (scan_member scan) 125)" "fails_well (scan_bracket scan 93)"
    using assms by (simp_all add: fails_well_bracket fails_well_member)
  with Some show ?thesis
    by (auto simp: fails_well_def scan_once_def bindR_Inl_iff dest: expect_error split: list.splits if_splits)
qed

lemma fails_well_json: "fails_well (scan_json rf depth)"
  by (induction depth) (simp_all add: fails_well_once)

lemma scan_json_error: "scan_json rf depth s = Inl e \<Longrightarrow> parse_error e"
  using fails_well_json [of rf depth] by (simp add: fails_well_def)

lemma stdlib_loads_cases:
  "case stdlib_loads rf depth raw of
     Inr j \<Rightarrow> json_wf j \<and> nesting j \<le> depth
   | Inl e \<Rightarrow> e = not_json \<or> e = too_deep"
proof (cases "stdlib_loads rf depth raw")
  case (Inl e)
  then have "parse_error e"
    by (auto simp: stdlib_loads_def loads_text_def bindR_Inl_iff dest: expect_error scan_json_error
        split: if_splits)
  with Inl show ?thesis by (simp add: parse_error_def)
next
  case (Inr j)
  then show ?thesis
    by (auto simp: stdlib_loads_def loads_text_def bindR_Inr_iff dest: scan_json_value split: if_splits)
qed

subsection \<open>The documents of the encoder\<close>

text \<open>No object of a document repeats a key: all the \<^verbatim>\<open>_encode_\<dots>\<close> functions build dictionaries.\<close>

named_theorems wf_documents \<open>encoding functions return well-formed documents\<close>

lemma mapR_all: "mapR f xs = Inr ys \<Longrightarrow> (\<And>x y. f x = Inr y \<Longrightarrow> P y) \<Longrightarrow> list_all P ys"
  by (induction xs arbitrary: ys) (auto simp: bindR_Inr_iff)

lemma json_wf_omit_empty: "json_wf (JObj obj) \<Longrightarrow> json_wf (JObj (omit_empty obj))"
  by (auto simp: omit_empty_absent wf_dict_def list_all_iff distinct_map_filter)

lemma json_wf_scalars [simp]:
  "json_wf (int_or_none i)" "json_wf (opt_u64 t)" "json_wf (opt_float x)" "json_wf (opt_id b)"
  "json_wf (opt_str s)" "json_wf (implicit_float y)" "json_wf (u64_list cs)"
  by (auto simp: int_or_none_def opt_u64_def opt_float_def opt_id_def opt_str_def implicit_float_def
      u64_list_def list_all_iff split: option.split)

lemma wf_any_value [wf_documents]: "encode_any_value v = Inr j \<Longrightarrow> json_wf j"
proof (induction v arbitrary: j rule: any_value_induct)
  case (Map kvs)
  then obtain js where j: "j = JObj [(S ''kvlistValue'', JObj [(S ''values'', JArr js)])]"
    and js: "encode_attributes kvs = Inr js"
    by (auto simp: res_simps)
  have "list_all2 (\<lambda>p j. json_wf j) kvs js"
    using js unfolding encode_attributes_Inr_iff
    by (rule list.rel_mono_strong) (auto simp: wf_dict_def dest: Map.IH)
  then show ?case
    by (simp add: j wf_dict_def list_all_iff list_all2_conv_all_nth)
      (metis in_set_conv_nth)
next
  case (Seq vs)
  then obtain js where j: "j = JObj [(S ''arrayValue'', JObj [(S ''values'', JArr js)])]"
    and js: "list_all2 (\<lambda>x y. encode_any_value x = Inr y) vs js"
    by (auto simp: res_simps)
  have "list_all2 (\<lambda>v j. json_wf j) vs js"
    using js by (rule list.rel_mono_strong) (rule Seq.IH)
  then show ?case
    by (simp add: j wf_dict_def list_all_iff list_all2_conv_all_nth)
      (metis in_set_conv_nth)
qed (auto simp: wf_dict_def)

lemma wf_attributes [wf_documents]: "encode_attributes kvs = Inr js \<Longrightarrow> list_all json_wf js"
  unfolding encode_attributes.simps
  by (erule mapR_all) (auto simp: bindR_Inr_iff wf_dict_def wf_documents)

lemma wf_resource [wf_documents]: "encode_resource r = Inr j \<Longrightarrow> json_wf j"
  by (auto simp: encode_resource_def bindR_Inr_iff wf_dict_def
      simp del: omit_empty_Cons intro!: json_wf_omit_empty dest: wf_documents)

lemma wf_scope [wf_documents]: "encode_scope sc = Inr j \<Longrightarrow> json_wf j"
  by (auto simp: encode_scope_def bindR_Inr_iff wf_dict_def
      simp del: omit_empty_Cons intro!: json_wf_omit_empty dest: wf_documents)


lemma wf_fields: "wf_dict obj \<Longrightarrow> list_all (\<lambda>p. json_wf (snd p)) obj \<Longrightarrow> json_wf (JObj (omit_empty obj))"
  by (rule json_wf_omit_empty) simp

lemma value_field_cases:
  assumes "value_field m v = Inr fld"
  obtains i where "fld = (S ''asInt'', JStr (u64 i))" | x where "fld = (S ''asDouble'', JFloat x)"
  using assms by (auto simp: value_field_def split: number.splits)

lemma wf_exemplar [wf_documents]: "encode_exemplar e = Inr j \<Longrightarrow> json_wf j"
  by (auto simp: encode_exemplar_def bindR_Inr_iff wf_dict_def simp del: omit_empty_Cons
      intro!: wf_fields dest: wf_documents elim!: value_field_cases)

lemmas wf_exemplars [wf_documents] = mapR_all [OF _ wf_exemplar]

lemma wf_number_point: "encode_number_point p = Inr j \<Longrightarrow> json_wf j"
  by (auto simp: encode_number_point_def bindR_Inr_iff wf_dict_def simp del: omit_empty_Cons
      intro!: wf_fields dest: wf_documents elim!: value_field_cases)

lemma wf_lists [simp]: "list_all json_wf (map JFloat xs)" "list_all json_wf (map encode_quantile qs)"
  by (auto simp: list_all_iff encode_quantile_def wf_dict_def)

lemma wf_histogram_point: "encode_histogram_point p = Inr j \<Longrightarrow> json_wf j"
  by (auto simp: encode_histogram_point_def bindR_Inr_iff wf_dict_def simp del: omit_empty_Cons
      intro!: wf_fields dest: wf_documents)

lemma wf_buckets [simp]: "json_wf (encode_buckets b)"
  unfolding encode_buckets_def by (rule wf_fields) (simp_all add: wf_dict_def)

lemma wf_exponential_point: "encode_exponential_point p = Inr j \<Longrightarrow> json_wf j"
  by (auto simp: encode_exponential_point_def bindR_Inr_iff wf_dict_def simp del: omit_empty_Cons
      intro!: wf_fields dest: wf_documents)

lemma wf_summary_point: "encode_summary_point p = Inr j \<Longrightarrow> json_wf j"
  by (auto simp: encode_summary_point_def bindR_Inr_iff wf_dict_def
      simp del: omit_empty_Cons intro!: wf_fields dest: wf_documents)

lemmas wf_points [wf_documents] = mapR_all [OF _ wf_number_point] mapR_all [OF _ wf_histogram_point]
  mapR_all [OF _ wf_exponential_point] mapR_all [OF _ wf_summary_point]

lemma wf_metric_data:
  "encode_metric_data data = Inr (k, j) \<Longrightarrow> json_wf j \<and>
    k \<notin> {S ''name'', S ''description'', S ''unit''}"
  by (cases data) (auto simp: encode_metric_data_def bindR_Inr_iff wf_dict_def dest: wf_documents)

lemma wf_metric: "encode_metric m = Inr j \<Longrightarrow> json_wf j"
  by (auto simp: encode_metric_def bindR_Inr_iff wf_dict_def simp del: omit_empty_Cons
      intro!: wf_fields dest: wf_metric_data)

lemma wf_log_record: "encode_log_record r = Inr j \<Longrightarrow> json_wf j"
  by (auto simp: encode_log_record_def bindR_Inr_iff wf_dict_def simp del: omit_empty_Cons
      intro!: wf_fields dest: wf_documents)

lemma wf_span_event: "encode_span_event e = Inr j \<Longrightarrow> json_wf j"
  by (auto simp: encode_span_event_def bindR_Inr_iff wf_dict_def simp del: omit_empty_Cons
      intro!: wf_fields dest: wf_documents)

lemma wf_span_link: "encode_span_link l = Inr j \<Longrightarrow> json_wf j"
  by (auto simp: encode_span_link_def bindR_Inr_iff wf_dict_def simp del: omit_empty_Cons
      intro!: wf_fields dest: wf_documents)

lemma wf_status [simp]: "json_wf (encode_status st)"
proof (cases st)
  case (Some s)
  have "json_wf (JObj (omit_empty [(S ''code'', int_or_none (status_code_int (st_code s))),
      (S ''message'', JStr (st_message s))]))"
    by (rule wf_fields) (simp_all add: wf_dict_def)
  with Some show ?thesis by (simp add: encode_status_def)
qed (simp add: encode_status_def)

lemmas wf_span_parts [wf_documents] = mapR_all [OF _ wf_span_event] mapR_all [OF _ wf_span_link]

lemma wf_span: "encode_span s = Inr j \<Longrightarrow> json_wf j"
  by (auto simp: encode_span_def bindR_Inr_iff wf_dict_def simp del: omit_empty_Cons
      intro!: wf_fields dest: wf_documents)

lemmas wf_records [wf_documents] = mapR_all [OF _ wf_metric] mapR_all [OF _ wf_log_record]
  mapR_all [OF _ wf_span]

lemma wf_scopes:
  "encode_scope_metrics sm = Inr j \<Longrightarrow> json_wf j" "encode_scope_logs sl = Inr j \<Longrightarrow> json_wf j"
  "encode_scope_spans ss = Inr j \<Longrightarrow> json_wf j"
  by (auto simp: encode_scope_metrics_def encode_scope_logs_def encode_scope_spans_def bindR_Inr_iff
      wf_dict_def simp del: omit_empty_Cons intro!: wf_fields dest: wf_documents)

lemmas wf_all_scopes [wf_documents] = mapR_all [OF _ wf_scopes(1)] mapR_all [OF _ wf_scopes(2)]
  mapR_all [OF _ wf_scopes(3)]

lemma wf_resources:
  "encode_one_resource_metrics rm = Inr j \<Longrightarrow> json_wf j" "encode_one_resource_logs rl = Inr j \<Longrightarrow> json_wf j"
  "encode_one_resource_spans rs = Inr j \<Longrightarrow> json_wf j"
  by (auto simp: encode_one_resource_metrics_def encode_one_resource_logs_def encode_one_resource_spans_def
      bindR_Inr_iff wf_dict_def simp del: omit_empty_Cons intro!: wf_fields dest: wf_documents)

lemmas wf_all_resources [wf_documents] = mapR_all [OF _ wf_resources(1)] mapR_all [OF _ wf_resources(2)]
  mapR_all [OF _ wf_resources(3)]

lemma wf_wrong_envelope: "wrong_envelope rs cls attr j = Inr j' \<Longrightarrow> j' = j"
  by (auto simp: wrong_envelope_def bindR_Inr_iff split: list.splits)

lemma json_document_wf: "json_document kind data = Inr j \<Longrightarrow> json_wf j"
  by (cases kind; cases data)
    (auto simp: json_document_def metrics_document_def logs_document_def traces_document_def
      encode_resource_metrics_def encode_resource_logs_def encode_resource_spans_def bindR_Inr_iff
      wf_dict_def dest: wf_documents dest!: wf_wrong_envelope)


subsection \<open>Serializer and parser as one interface\<close>

text \<open>
  What a receiver and the response reader rely on: documents of some class are printed, what is
  printed reads back, and bytes that are no document raise one of two exceptions.
\<close>

locale json_codec =
  fixes dumps :: "json \<Rightarrow> bytes res"
    and loads :: "bytes \<Rightarrow> json res"
    and keeps :: "json \<Rightarrow> bool"
  assumes dumps_keeps: "keeps j \<Longrightarrow> \<exists>raw. dumps j = Inr raw"
    and loads_dumps: "keeps j \<Longrightarrow> dumps j = Inr raw \<Longrightarrow> loads raw = Inr j"
    and loads_wf: "loads raw = Inr j \<Longrightarrow> json_wf j"
    and loads_error: "loads raw = Inl e \<Longrightarrow> parse_error e"
begin

lemma encode_reads_back:
  assumes "json_document kind data = Inr doc" and "keeps doc"
  shows "\<exists>raw. json_encode dumps kind data = Inr raw \<and> loads raw = Inr doc"
  using assms dumps_keeps [of doc] loads_dumps [of doc] by (auto simp: json_encode_def)

lemma same_bytes_same_document:
  assumes "json_document kind data = Inr doc" and "json_document kind data' = Inr doc'"
    and "keeps doc" and "keeps doc'" and "json_encode dumps kind data = json_encode dumps kind data'"
  shows "doc = doc'"
  using assms encode_reads_back [of kind data doc] encode_reads_back [of kind data' doc'] by auto

lemma decode_response_error:
  assumes "json_decode_response loads show_other kind body = Inl e"
  shows "e = too_deep \<and> loads body = Inl too_deep \<or>
    (\<exists>m doc partial. e = OverflowError m \<and> loads body = Inr (JObj doc) \<and>
      map_of doc (S ''partialSuccess'') = Some (JObj partial) \<and>
      map_of partial (rejected_key kind) \<in> {Some (JFloat PInf), Some (JFloat NInf)})"
proof (cases "loads body")
  case (Inl e')
  with loads_error [OF Inl] assms show ?thesis
    by (auto simp: json_decode_response_def parse_error_def not_json_def too_deep_def split: if_splits)
next
  case (Inr j)
  with assms obtain doc partial where "j = JObj doc" "map_of doc (S ''partialSuccess'') = Some (JObj partial)"
      "rejected_count (dict_get_default partial (rejected_key kind) (JInt 0)) = Inl e"
    by (auto simp: json_decode_response_def bindR_Inl_iff split: if_splits json.splits option.splits)
  with rejected_count_infinite [OF this(3)] Inr show ?thesis
    by (auto simp: dict_get_default_def split: option.splits)
qed

end

interpretation stdlib: json_codec "stdlib_dumps repr_float" "stdlib_loads read_float depth"
    "\<lambda>j. text_ok repr_float read_float j \<and> nesting j \<le> depth"
  for repr_float read_float depth
proof unfold_locales
  show "\<exists>raw. stdlib_dumps repr_float j = Inr raw" if "text_ok repr_float read_float j \<and> nesting j \<le> depth" for j
    using that stdlib_dumps_ok by blast
  show "stdlib_loads read_float depth raw = Inr j"
    if "text_ok repr_float read_float j \<and> nesting j \<le> depth" "stdlib_dumps repr_float j = Inr raw" for j raw
    using that stdlib_loads_dumps by blast
  show "json_wf j" if "stdlib_loads read_float depth raw = Inr j" for raw j
    using stdlib_loads_cases [of depth read_float raw] that by simp
  show "parse_error e" if "stdlib_loads read_float depth raw = Inl e" for raw e
    using stdlib_loads_cases [of depth read_float raw] that by (auto simp: parse_error_def)
qed

text \<open>The part of \<open>text_ok\<close> that depends on the values, not on the shape of the document.\<close>

fun value_ok :: "(pyfloat \<Rightarrow> str) \<Rightarrow> (str \<Rightarrow> pyfloat) \<Rightarrow> json \<Rightarrow> bool" where
  "value_ok repr_float read_float (JObj d) = list_all (\<lambda>p. str_ok (fst p)) d"
| "value_ok repr_float read_float j = node_ok repr_float read_float j"

lemma text_ok_values: "text_ok fr rf j \<longleftrightarrow> json_wf j \<and> every_node (value_ok fr rf) j"
  unfolding text_ok_def json_wf_def
  by (induction j rule: json_induct) (fastforce simp: list_all_iff)+

text \<open>Too many opening brackets.\<close>

lemma scan_brackets: "scan_json rf depth (replicate (Suc depth) 91) = Inl too_deep"
proof (induction depth)
  case (Suc depth)
  then show ?case
    by (simp add: scan_once_def scan_bracket_def skip_space_stop)
qed (simp add: scan_once_def)


lemma stdlib_loads_brackets: "stdlib_loads rf depth (replicate (Suc depth) 91) = Inl too_deep"
proof -
  have p: "list_all printable (replicate (Suc depth) 91)"
    by (simp add: list_all_iff)
  have "map unat (replicate (Suc depth) 91 :: bytes) = replicate (Suc depth) 91"
    by simp
  moreover have "skip_space (replicate (Suc depth) 91) = replicate (Suc depth) 91"
    by (simp add: skip_space_stop)
  ultimately show ?thesis
    using printable_detected [OF p] scan_brackets [of rf depth]
    by (simp only: stdlib_loads_def loads_text_def expect_def option.case bindR.simps)
qed

text \<open>What a response document reports: a non-empty \<^verbatim>\<open>partialSuccess\<close> with its count and message.\<close>

definition reports :: "(json \<Rightarrow> str) \<Rightarrow> signal_kind \<Rightarrow> jobj \<Rightarrow> outcome \<Rightarrow> bool" where
  "reports show_other kind doc r \<longleftrightarrow>
     (\<exists>partial. map_of doc (S ''partialSuccess'') = Some (JObj partial) \<and> partial \<noteq> [] \<and>
        Inr (ps_rejected r) = rejected_count (dict_get_default partial (rejected_key kind) (JInt 0)) \<and>
        r = PartialSuccess (ps_rejected r)
          (json_str show_other (dict_get_default partial (S ''errorMessage'') (JStr []))))"

definition infinite_count :: "signal_kind \<Rightarrow> jobj \<Rightarrow> bool" where
  "infinite_count kind doc \<longleftrightarrow>
     (\<exists>partial. map_of doc (S ''partialSuccess'') = Some (JObj partial) \<and>
        map_of partial (rejected_key kind) \<in> {Some (JFloat PInf), Some (JFloat NInf)})"

lemma json_decode_response_Some:
  assumes "json_decode_response loads show_other kind body = Inr (Some r)"
  shows "\<exists>doc. loads body = Inr (JObj doc) \<and> reports show_other kind doc r"
  using assms
  by (auto simp: json_decode_response_def bindR_Inr_iff reports_def
      split: if_splits sum.splits exn.splits json.splits option.splits)

subsection \<open>Properties\<close>

text \<open>
  C11. The JSON text loses nothing: a document with distinct keys, whose floats the interpreter's
  \<^verbatim>\<open>repr\<close> and \<^verbatim>\<open>float\<close> round-trip and whose strings hold no split surrogate pair, is printed as
  printable ASCII, whatever its strings hold, and \<^verbatim>\<open>json.loads\<close> reads exactly the document back.
\<close>

theorem stdlib_json_roundtrip:
  assumes "text_ok repr_float read_float doc" and "nesting doc \<le> depth"
  shows "\<exists>raw. stdlib_dumps repr_float doc = Inr raw \<and> stdlib_loads read_float depth raw = Inr doc \<and>
    (\<forall>b \<in> set raw. 32 \<le> unat b \<and> unat b \<le> 126)"
proof -
  have p: "list_all printable (write_json repr_float doc)"
    using assms(1) by (rule printable_json)
  have "32 \<le> unat b \<and> unat b \<le> 126" if "b \<in> set (map of_nat (write_json repr_float doc))" for b :: byte
    using that p by (auto simp: list_all_iff printable_def unat_of_nat)
  then show ?thesis
    using stdlib_dumps_ok [OF assms(1)] stdlib_loads_dumps [OF assms] by blast
qed

definition sample_json :: json where
  "sample_json = JObj [(S ''n'', JArr [JInt (- 12), JFloat (Fin (1 / 2)), JFloat NInf, JNull, JBool True]),
     (S ''s'', JStr [233, 128512, 10, 34]), (S ''o'', JObj [])]"

definition half_repr :: "pyfloat \<Rightarrow> str" where
  "half_repr x = S ''0.5''"

definition half_read :: "str \<Rightarrow> pyfloat" where
  "half_read s = Fin (1 / 2)"

lemma half_literal: "float_literal (half_repr x)"
  by (simp add: half_repr_def float_literal_def str_simps scan_int_def scan_digits_def scan_fraction_def
      scan_exponent_def is_digit_def)

lemma sample_json_ok: "text_ok half_repr half_read sample_json" "nesting sample_json \<le> 2"
proof -
  show "text_ok half_repr half_read sample_json"
    by (simp add: text_ok_def sample_json_def half_literal half_read_def wf_dict_def str_simps
        is_high_def is_low_def dec_nat.simps)
  show "nesting sample_json \<le> 2"
    by (simp add: sample_json_def)
qed

lemma stdlib_json_roundtrip_witness:
  "\<exists>raw. stdlib_dumps half_repr sample_json = Inr raw \<and> stdlib_loads half_read 2 raw = Inr sample_json"
  using stdlib_json_roundtrip [OF sample_json_ok] by blast

text \<open>What an encoding prints parses to the envelope's document.\<close>

lemma encoded_reads_back:
  assumes "json_encode (stdlib_dumps repr_float) kind data = Inr raw"
    and "\<forall>doc. json_document kind data = Inr doc \<longrightarrow>
      every_node (value_ok repr_float read_float) doc \<and> nesting doc \<le> depth"
  shows "\<exists>doc. json_document kind data = Inr doc \<and> json_wf doc \<and> stdlib_loads read_float depth raw = Inr doc"
proof -
  obtain doc where doc: "json_document kind data = Inr doc"
    using assms(1) by (auto simp: json_encode_def bindR_Inr_iff)
  then have "text_ok repr_float read_float doc \<and> nesting doc \<le> depth"
    using assms(2) json_document_wf by (simp add: text_ok_values)
  from stdlib.encode_reads_back [OF doc this] doc assms(1) show ?thesis
    by (auto dest: json_document_wf)
qed

text \<open>
  The JSON encoder builds well-formed objects: in the document of any envelope, for every signal
  and at any depth (attribute values included), no object repeats a key.
\<close>

theorem json_documents_distinct_keys:
  assumes "json_document kind data = Inr doc"
  shows "every_node (\<lambda>j. case j of JObj d \<Rightarrow> distinct (map fst d) | _ \<Rightarrow> True) doc"
  using json_document_wf [OF assms] unfolding json_wf_def
  by (rule every_node_mono) (auto simp: wf_dict_def split: json.split)

definition nested_payload :: envelope where
  "nested_payload = LogsData [\<lparr>rl_resource = \<lparr>res_attributes =
     [(S ''k'', VMap [(S ''a'', VSeq [VInt 5, VStr (S ''b'')])])], res_dropped = 7\<rparr>, rl_scope_logs = []\<rparr>]"

lemma json_documents_distinct_keys_witness:
  "\<exists>doc. json_document LOGS nested_payload = Inr doc \<and>
     every_node (\<lambda>j. case j of JObj d \<Rightarrow> distinct (map fst d) | _ \<Rightarrow> True) doc"
proof -
  obtain doc where doc: "json_document LOGS nested_payload = Inr doc"
    by (simp add: nested_payload_def json_document_def logs_document_def encode_resource_logs_def
        encode_one_resource_logs_def encode_resource_def)
  from doc json_documents_distinct_keys [OF doc] show ?thesis by blast
qed

text \<open>
  C26. Reading a response, over all bytes: with \<^verbatim>\<open>json.loads\<close> the result is no partial success, or the
  partial success the parsed body reports; only two bodies raise, one whose rejected count is an
  infinite float (\<^verbatim>\<open>OverflowError\<close>) and one that nests deeper than the interpreter reads
  (\<^verbatim>\<open>RecursionError\<close>), and the second kind exists at every limit.
\<close>

theorem stdlib_decode_response:
  "(case json_decode_response (stdlib_loads read_float depth) show_other kind body of
      Inr None \<Rightarrow> True
    | Inr (Some r) \<Rightarrow> \<exists>doc. stdlib_loads read_float depth body = Inr (JObj doc) \<and> wf_dict doc \<and>
        reports show_other kind doc r
    | Inl e \<Rightarrow> e = too_deep \<and> stdlib_loads read_float depth body = Inl too_deep \<or>
        (\<exists>m doc. e = OverflowError m \<and> stdlib_loads read_float depth body = Inr (JObj doc) \<and>
          infinite_count kind doc)) \<and>
   json_decode_response (stdlib_loads read_float depth) show_other kind (replicate (Suc depth) 91) =
     Inl too_deep"
proof
  show "json_decode_response (stdlib_loads read_float depth) show_other kind (replicate (Suc depth) 91) =
      Inl too_deep"
    using stdlib_loads_brackets [of read_float depth] by (simp add: json_decode_response_def too_deep_def)
  have wf: "wf_dict doc" if "stdlib_loads read_float depth body = Inr (JObj doc)" for doc
    using stdlib.loads_wf [OF that] by simp
  show "case json_decode_response (stdlib_loads read_float depth) show_other kind body of
      Inr None \<Rightarrow> True
    | Inr (Some r) \<Rightarrow> \<exists>doc. stdlib_loads read_float depth body = Inr (JObj doc) \<and> wf_dict doc \<and>
        reports show_other kind doc r
    | Inl e \<Rightarrow> e = too_deep \<and> stdlib_loads read_float depth body = Inl too_deep \<or>
        (\<exists>m doc. e = OverflowError m \<and> stdlib_loads read_float depth body = Inr (JObj doc) \<and>
          infinite_count kind doc)"
  proof (cases "json_decode_response (stdlib_loads read_float depth) show_other kind body")
    case (Inl e)
    then show ?thesis
      using stdlib.decode_response_error [OF Inl] by (auto simp: infinite_count_def)
  next
    case (Inr x)
    then show ?thesis
      using json_decode_response_Some [of _ show_other kind body] wf by (cases x) fastforce+
  qed
qed

end
