(* ===== verification/TokenErrors.thy ===== *)
theory TokenErrors
  imports Credentials JsonCodec
begin

section \<open>What a token refresh raises\<close>

text \<open>
  The refresh of \<^verbatim>\<open>credentials.py\<close> with the \<^verbatim>\<open>json.loads\<close> of \<open>JsonText\<close>: every exception of
  \<^verbatim>\<open>_refresh\<close>, by the answer of the token endpoint that causes it.
\<close>

text \<open>An \<^verbatim>\<open>expires_in\<close> that no float can hold.\<close>

definition oversized_lifetime :: "jobj \<Rightarrow> bool" where
  "oversized_lifetime d \<longleftrightarrow>
     (\<exists>i. map_of d (S ''expires_in'') = Some (JInt i) \<and> overflow_bound \<le> \<bar>of_int i\<bar>)"

text \<open>The exceptions an answer of the token endpoint may lead to.\<close>

definition answer_raises :: "(str \<Rightarrow> pyfloat) \<Rightarrow> nat \<Rightarrow> int \<Rightarrow> bytes \<Rightarrow> exn \<Rightarrow> bool" where
  "answer_raises read_float depth status raw e \<longleftrightarrow>
     (case e of
        OTLPTransportError _ \<Rightarrow> status \<ge> 500
      | OTLPPermanentError _ \<Rightarrow> status < 500
      | OverflowError _ \<Rightarrow> status < 400 \<and>
          (\<exists>d. stdlib_loads read_float depth raw = Inr (JObj d) \<and> oversized_lifetime d)
      | _ \<Rightarrow> status < 500 \<and> e = too_deep \<and> stdlib_loads read_float depth raw = Inl too_deep)"

lemma json_float_raises:
  assumes "json_float j = Inl e"
  shows "(\<exists>m. e = TypeError m) \<or> (\<exists>m. e = ValueError m) \<or>
    (\<exists>m i. e = OverflowError m \<and> j = JInt i \<and> overflow_bound \<le> \<bar>of_int i\<bar>)"
  using assms by (cases j) (auto split: if_splits option.splits)

lemma parse_ttl_raises:
  assumes "parse_ttl default_ttl j = Inl e"
  shows "(\<exists>m. e = OTLPPermanentError m) \<or>
    (\<exists>m i. e = OverflowError m \<and> j = JInt i \<and> overflow_bound \<le> \<bar>of_int i\<bar>)"
proof (cases "json_float j")
  case (Inl e')
  then show ?thesis
    using assms json_float_raises [OF Inl] by (auto simp: parse_ttl_def split: json.splits)
next
  case (Inr x)
  with assms show ?thesis
    by (auto simp: parse_ttl_def split: json.splits)
qed

lemma oversized_lifetimeI:
  "dict_get_default d (S ''expires_in'') JNull = JInt i \<Longrightarrow> overflow_bound \<le> \<bar>of_int i\<bar> \<Longrightarrow> oversized_lifetime d"
  by (auto simp: oversized_lifetime_def dict_get_default_def split: option.splits)

lemma token_of_response_raises:
  assumes "token_of_response c (env\<lparr>oe_loads := stdlib_loads read_float depth\<rparr>) status raw = Inl e"
  shows "answer_raises read_float depth status raw e"
proof (cases "status \<ge> 500")
  case True
  with assms show ?thesis
    by (auto simp: token_of_response_def answer_raises_def)
next
  case False
  show ?thesis
  proof (cases "stdlib_loads read_float depth raw")
    case (Inl e')
    then show ?thesis
      using assms False stdlib_loads_cases [of depth read_float raw]
      by (auto simp: token_of_response_def answer_raises_def not_json_def too_deep_def)
  next
    case (Inr body)
    show ?thesis
    proof (cases "(\<exists>m. e = OTLPPermanentError m)")
      case True
      with False show ?thesis
        by (auto simp: answer_raises_def)
    next
      case noperm: False
      then obtain d where d: "body = JObj d" "status < 400"
        "parse_ttl (oc_default_ttl c) (dict_get_default d (S ''expires_in'') JNull) = Inl e"
        using assms False Inr
        by (auto simp: token_of_response_def bindR_Inl_iff Let_def split: if_splits json.splits)
      then show ?thesis
        using parse_ttl_raises [OF d(3)] noperm Inr oversized_lifetimeI
        by (auto simp: answer_raises_def)
    qed
  qed
qed

lemma unreachable_endpoint_cases:
  "(\<exists>m. unreachable_endpoint e = OTLPTransportError m) \<and> is_connection_failure e \<or>
    unreachable_endpoint e = e \<and> \<not> is_connection_failure e"
  by (cases e) (auto simp: unreachable_endpoint_def is_connection_failure_def)

lemma auth_header_raises: "oauth_auth_header c = Inl e \<Longrightarrow> unreachable_endpoint e = e \<and> \<not> is_OTLPError e"
  by (auto simp: oauth_auth_header_def bindR_Inl_iff quote_plus_def utf8_encode_def unreachable_endpoint_def
      is_OTLPError_def split: if_splits)

text \<open>
  C31. Every exception of a refresh has one of three causes: client credentials that have no UTF-8 form;
  the request, whose connection failures and timeouts become \<^verbatim>\<open>OTLPTransportError\<close>; or the answer, with
  \<^verbatim>\<open>OTLPTransportError\<close> for a status from 500, \<^verbatim>\<open>OTLPPermanentError\<close> below it, and two that no handler
  expects: \<^verbatim>\<open>RecursionError\<close> for a body nested too deeply, and \<^verbatim>\<open>OverflowError\<close> for an integer
  \<^verbatim>\<open>expires_in\<close> past the largest float.
\<close>

theorem oauth_refresh_error_sources:
  assumes "oauth_refresh c (env\<lparr>oe_loads := stdlib_loads read_float depth\<rparr>) (s, w) = Some (Inl e, (s', w'))"
  shows "oauth_auth_header c = Inl e \<and> \<not> is_OTLPError e \<or>
    (\<exists>hs e0. oauth_auth_header c = Inr hs \<and>
      oe_post env (oc_token_url c) (oauth_form c) hs w = Some (Inl e0, w') \<and>
      (if is_connection_failure e0 then \<exists>m. e = OTLPTransportError m else e = e0)) \<or>
    (\<exists>hs status raw. oauth_auth_header c = Inr hs \<and>
      oe_post env (oc_token_url c) (oauth_form c) hs w = Some (Inr (status, raw), w') \<and>
      answer_raises read_float depth status raw e)"
proof (cases "oauth_auth_header c")
  case (Inl e0)
  with assms auth_header_raises [OF Inl] show ?thesis
    by (simp add: oauth_refresh_def)
next
  case (Inr hs)
  with assms consider (unsent) e0 where "oe_post env (oc_token_url c) (oauth_form c) hs w = Some (Inl e0, w')"
      "e = unreachable_endpoint e0"
    | (answered) status raw where "oe_post env (oc_token_url c) (oauth_form c) hs w = Some (Inr (status, raw), w')"
      "token_of_response c (env\<lparr>oe_loads := stdlib_loads read_float depth\<rparr>) status raw = Inl e"
    by (auto simp: oauth_refresh_def Let_def split: option.splits sum.splits prod.splits)
  then show ?thesis
  proof cases
    case unsent
    with Inr unreachable_endpoint_cases [of e0] show ?thesis by auto
  next
    case answered
    with Inr token_of_response_raises [OF answered(2)] show ?thesis by blast
  qed
qed

text \<open>A token for longer than a float can tell.\<close>

definition endless :: int where
  "endless = 2 ^ 1024"

definition endless_token :: json where
  "endless_token = JObj [(S ''access_token'', JStr (S ''t'')), (S ''expires_in'', JInt endless)]"

lemma endless_oversized: "overflow_bound \<le> \<bar>of_int endless\<bar>"
  unfolding endless_def overflow_bound_def of_int_power of_int_numeral power_abs abs_numeral
  using zero_le_power [of "2::rat" 970] by linarith

lemma dec_nat_length: "n < 10 ^ Suc k \<Longrightarrow> length (dec_nat n) \<le> Suc k"
proof (induction k arbitrary: n)
  case 0
  then show ?case by (simp add: dec_nat.simps [of n])
next
  case (Suc k)
  then have "n div 10 < 10 ^ Suc k"
    by (simp add: less_mult_imp_div_less)
  from Suc.IH [OF this] show ?case
    by (simp add: dec_nat.simps [of n])
qed

lemma endless_printable: "printable_int (JInt endless)"
proof -
  have "(2::nat) ^ 1024 < 10 ^ Suc 1023"
    using power_strict_mono [of "2::nat" 10 "Suc 1023"] by (simp only: numeral_nat)
  moreover have "nat \<bar>endless\<bar> = 2 ^ 1024"
    unfolding endless_def by (simp only: power_abs abs_numeral nat_power_eq zero_le_numeral nat_numeral)
  ultimately have "length (dec_nat (nat \<bar>endless\<bar>)) \<le> Suc 1023"
    by (intro dec_nat_length) (simp only:)
  also have "\<dots> \<le> 4300"
    by simp
  finally show ?thesis
    by (simp only: printable_int.simps)
qed

lemma endless_token_text:
  obtains raw where "stdlib_loads half_read 1 raw = Inr endless_token"
proof -
  have "text_ok half_repr half_read endless_token" "nesting endless_token \<le> 1"
    using endless_printable
    by (simp_all add: text_ok_def endless_token_def wf_dict_def str_simps is_high_def del: printable_int.simps)
  with stdlib_dumps_ok stdlib_loads_dumps show thesis
    using that by blast
qed

text \<open>A token endpoint that answers every request with the same body.\<close>

definition answering :: "bytes \<Rightarrow> rat oauth_env" where
  "answering raw = (sample_token_endpoint JNull)
     \<lparr>oe_post := (\<lambda>_ _ _. returnE (200, raw)), oe_loads := stdlib_loads half_read 1\<rparr>"

lemma answering_simps [simp]:
  "oe_post (answering raw) u f h w = Some (Inr (200, raw), w)"
  "oe_loads (answering raw) = stdlib_loads half_read 1"
  "(answering raw)\<lparr>oe_loads := stdlib_loads half_read 1\<rparr> = answering raw"
  by (simp_all add: answering_def)

lemma endless_refresh:
  assumes "stdlib_loads half_read 1 raw = Inr endless_token"
  shows "\<exists>m s. oauth_refresh sample_oauth (answering raw) (oauth_init True, 10) = Some (Inl (OverflowError m), (s, 10))"
  using assms endless_oversized
  by (simp add: oauth_refresh_def sample_oauth_def oauth_auth_header_def token_of_response_def
      endless_token_def dict_get_default_def parse_ttl_def)

lemma oauth_refresh_error_sources_witness:
  "\<exists>raw m s. oauth_refresh sample_oauth (answering raw) (oauth_init True, 10) = Some (Inl (OverflowError m), (s, 10)) \<and>
     (\<exists>d. stdlib_loads half_read 1 raw = Inr (JObj d) \<and> oversized_lifetime d)"
proof -
  obtain raw where raw: "stdlib_loads half_read 1 raw = Inr endless_token"
    using endless_token_text .
  obtain m s where run: "oauth_refresh sample_oauth (answering raw) (oauth_init True, 10) =
      Some (Inl (OverflowError m), (s, 10))"
    using endless_refresh [OF raw] by blast
  then have "oauth_refresh sample_oauth ((answering raw)\<lparr>oe_loads := stdlib_loads half_read 1\<rparr>)
      (oauth_init True, 10) = Some (Inl (OverflowError m), (s, 10))"
    by (simp only: answering_simps)
  from oauth_refresh_error_sources [OF this] have "\<exists>d. stdlib_loads half_read 1 raw = Inr (JObj d) \<and> oversized_lifetime d"
    by (simp add: oauth_auth_header_def sample_oauth_def answer_raises_def)
  with run show ?thesis by blast
qed

end
