(* ===== verification/HttpDate.thy ===== *)
theory HttpDate
  imports Parsing
begin

section \<open>HTTP dates\<close>

text \<open>
  What \<^verbatim>\<open>parse_retry_after\<close> of \<^verbatim>\<open>retry.py\<close> uses of the standard library: \<^verbatim>\<open>parsedate_to_datetime\<close>
  (\<^verbatim>\<open>email.utils\<close>, with \<^verbatim>\<open>_parsedate_tz\<close>), the constructors of \<^verbatim>\<open>datetime\<close>, \<^verbatim>\<open>timezone\<close> and \<^verbatim>\<open>timedelta\<close> as far
  as it calls them, and \<^verbatim>\<open>timestamp\<close>. Then the calendar behind them: the day numbers count days, and
  the formats a server may send (RFC 9110, 5.6.7) are read.
\<close>

subsection \<open>Splitting\<close>

text \<open>\<^verbatim>\<open>s.split()\<close>: the maximal runs without white space.\<close>

fun space_fields :: "str \<Rightarrow> str list" where
  "space_fields [] = [[]]"
| "space_fields (c # s) =
     (if is_space c then [] # space_fields s
      else (case space_fields s of [] \<Rightarrow> [[c]] | p # ps \<Rightarrow> (c # p) # ps))"

definition split_words :: "str \<Rightarrow> str list" where
  "split_words s = filter (\<lambda>w. w \<noteq> []) (space_fields s)"

text \<open>\<^verbatim>\<open>s.find(c)\<close> for one character, \<open>None\<close> for -1.\<close>

definition find_char :: "nat \<Rightarrow> str \<Rightarrow> nat option" where
  "find_char c s = (if c \<in> set s then Some (length (takeWhile (\<lambda>x. x \<noteq> c) s)) else None)"

definition upper_char :: "nat \<Rightarrow> nat" where
  "upper_char c = (if 97 \<le> c \<and> c \<le> 122 then c - 32 else c)"

definition upper :: "str \<Rightarrow> str" where
  "upper s = map upper_char s"

definition ends_with :: "nat \<Rightarrow> str \<Rightarrow> bool" where
  "ends_with c s \<longleftrightarrow> s \<noteq> [] \<and> last s = c"

definition drop_comma :: "str \<Rightarrow> str" where
  "drop_comma s = (if ends_with 44 s then butlast s else s)"

subsection \<open>The fields of a date\<close>

definition monthnames :: "str list" where
  "monthnames = map S [''jan'', ''feb'', ''mar'', ''apr'', ''may'', ''jun'', ''jul'', ''aug'', ''sep'',
     ''oct'', ''nov'', ''dec'', ''january'', ''february'', ''march'', ''april'', ''may'', ''june'', ''july'',
     ''august'', ''september'', ''october'', ''november'', ''december'']"

definition daynames :: "str list" where
  "daynames = map S [''mon'', ''tue'', ''wed'', ''thu'', ''fri'', ''sat'', ''sun'']"

definition timezones :: "(str \<times> int) list" where
  "timezones = map (\<lambda>(n, v). (S n, v))
     [(''UT'', 0), (''UTC'', 0), (''GMT'', 0), (''Z'', 0), (''AST'', - 400), (''ADT'', - 300),
      (''EST'', - 500), (''EDT'', - 400), (''CST'', - 600), (''CDT'', - 500), (''MST'', - 700),
      (''MDT'', - 600), (''PST'', - 800), (''PDT'', - 700)]"

fun index_of :: "str \<Rightarrow> str list \<Rightarrow> nat option" where
  "index_of x [] = None"
| "index_of x (y # ys) = (if x = y then Some 0 else map_option Suc (index_of x ys))"

definition month_number :: "str \<Rightarrow> int option" where
  "month_number name =
     map_option (\<lambda>i. if Suc i > 12 then int (Suc i) - 12 else int (Suc i)) (index_of name monthnames)"

text \<open>The day of the week goes, with or without its comma; a comma inside the word ends it.\<close>

definition drop_dayname :: "str list \<Rightarrow> str list" where
  "drop_dayname data =
     (case data of
        [] \<Rightarrow> []
      | d # ds \<Rightarrow>
          if ends_with 44 d \<or> lower d \<in> set daynames then ds
          else rev (takeWhile (\<lambda>c. c \<noteq> 44) (rev d)) # ds)"

text \<open>Three words: an RFC 850 date, with hyphens.\<close>

definition split_hyphens :: "str list \<Rightarrow> str list" where
  "split_hyphens data =
     (if length data = 3 \<and> length (split_on 45 (hd data)) = 3
      then split_on 45 (hd data) @ tl data else data)"

text \<open>Four words: a zone may be glued to the time, else there is none.\<close>

definition split_zone :: "str list \<Rightarrow> str list" where
  "split_zone data =
     (if length data = 4
      then (let s = data ! 3;
                i = (case find_char 43 s of None \<Rightarrow> find_char 45 s | Some i \<Rightarrow> Some i)
            in case i of
                 Some (Suc n) \<Rightarrow> take 3 data @ [take (Suc n) s, drop (Suc n) s]
               | _ \<Rightarrow> data @ [[]])
      else data)"

text \<open>Day and month, in either order.\<close>

definition day_month :: "str \<Rightarrow> str \<Rightarrow> (str \<times> int) option" where
  "day_month dd mm =
     (case month_number (lower mm) of
        Some m \<Rightarrow> Some (dd, m)
      | None \<Rightarrow> map_option (\<lambda>m. (lower mm, m)) (month_number (lower dd)))"

text \<open>
  Year, time and zone: the first two may be swapped, then the first and the last. The superscripts
  are digits for \<^verbatim>\<open>isdigit\<close>.
\<close>

definition isdigit :: "nat \<Rightarrow> bool" where
  "isdigit c \<longleftrightarrow> is_digit c \<or> c \<in> {178, 179, 185}"

definition year_time_zone :: "str \<Rightarrow> str \<Rightarrow> str \<Rightarrow> (str \<times> str \<times> str) option" where
  "year_time_zone yy tm tz =
     (let (yy, tm) = (case find_char 58 yy of Some (Suc _) \<Rightarrow> (tm, yy) | _ \<Rightarrow> (yy, tm));
          yy = drop_comma yy
      in if yy = [] then None
         else (let (yy, tz) = (if isdigit (hd yy) then (yy, tz) else (tz, yy))
               in Some (yy, drop_comma tm, tz)))"

definition time_fields :: "str \<Rightarrow> (str \<times> str \<times> str) option" where
  "time_fields tm =
     (case split_on 58 tm of
        [h, m] \<Rightarrow> Some (h, m, S ''0'')
      | [h, m, s] \<Rightarrow> Some (h, m, s)
      | [t] \<Rightarrow>
          if 46 \<in> set t
          then (case split_on 46 t of
                  [h, m] \<Rightarrow> Some (h, m, S ''0'')
                | [h, m, s] \<Rightarrow> Some (h, m, s)
                | _ \<Rightarrow> None)
          else None
      | _ \<Rightarrow> None)"

text \<open>Two digits: 1969 to 2068.\<close>

definition full_year :: "int \<Rightarrow> int" where
  "full_year yy = (if yy < 100 then (if yy > 68 then yy + 1900 else yy + 2000) else yy)"

text \<open>Hours and minutes to seconds; \<open>None\<close> for a zone that is not known, or known to be unknown.\<close>

definition zone_offset :: "str \<Rightarrow> int option" where
  "zone_offset tz =
     (let seconds = (\<lambda>n. if n < 0 then - ((- n) div 100 * 3600 + (- n) mod 100 * 60)
                         else n div 100 * 3600 + n mod 100 * 60)
      in case map_of timezones (upper tz) of
           Some n \<Rightarrow> Some (seconds n)
         | None \<Rightarrow>
             (case py_int_of_str (upper tz) of
                None \<Rightarrow> None
              | Some n \<Rightarrow> if n = 0 \<and> take 1 tz = [45] then None else Some (seconds n)))"

record parsed_date =
  pd_year :: int
  pd_month :: int
  pd_day :: int
  pd_hour :: int
  pd_minute :: int
  pd_second :: int
  pd_offset :: "int option"

definition parsedate_fields :: "str \<Rightarrow> str \<Rightarrow> str \<Rightarrow> str \<Rightarrow> str \<Rightarrow> parsed_date option" where
  "parsedate_fields dd mm yy tm tz =
     (if dd = [] \<or> mm = [] \<or> yy = [] then None
      else case (day_month dd mm, year_time_zone yy tm tz) of
        (Some (dd, m), Some (yy, tm, tz)) \<Rightarrow>
          (case time_fields tm of
             None \<Rightarrow> None
           | Some (thh, tmm, tss) \<Rightarrow>
               (case (py_int_of_str yy, py_int_of_str (drop_comma dd), py_int_of_str thh,
                  py_int_of_str tmm, py_int_of_str tss) of
                  (Some y, Some d, Some h, Some mi, Some s) \<Rightarrow>
                    Some \<lparr>pd_year = full_year y, pd_month = m, pd_day = d, pd_hour = h, pd_minute = mi,
                      pd_second = s, pd_offset = zone_offset tz\<rparr>
                | _ \<Rightarrow> None))
      | _ \<Rightarrow> None)"

definition parsedate_tz :: "str \<Rightarrow> parsed_date option" where
  "parsedate_tz s =
     (case split_words s of
        [] \<Rightarrow> None
      | data \<Rightarrow>
          (case split_zone (split_hyphens (drop_dayname data)) of
             dd # mm # yy # tm # tz # _ \<Rightarrow> parsedate_fields dd mm yy tm tz
           | _ \<Rightarrow> None))"

subsection \<open>Dates and times\<close>

definition leap_year :: "int \<Rightarrow> bool" where
  "leap_year y \<longleftrightarrow> y mod 4 = 0 \<and> (y mod 100 \<noteq> 0 \<or> y mod 400 = 0)"

definition days_in_month :: "int \<Rightarrow> int \<Rightarrow> int" where
  "days_in_month y m = (if m = 2 then (if leap_year y then 29 else 28) else if m \<in> {4, 6, 9, 11} then 30 else 31)"

text \<open>A C \<^verbatim>\<open>int\<close>, which the constructors of \<^verbatim>\<open>datetime\<close> read their arguments into.\<close>

definition fits_int :: "int \<Rightarrow> bool" where
  "fits_int i \<longleftrightarrow> - (2 ^ 31) \<le> i \<and> i < 2 ^ 31"

definition date_overflow :: exn where
  "date_overflow = OverflowError (S ''signed integer is greater than maximum'')"

definition check_datetime :: "parsed_date \<Rightarrow> parsed_date res" where
  "check_datetime d =
     (if \<not> list_all (\<lambda>f. fits_int (f d)) [pd_year, pd_month, pd_day, pd_hour, pd_minute, pd_second]
        then Inl date_overflow
      else if \<not> (1 \<le> pd_year d \<and> pd_year d \<le> 9999) then Inl (ValueError (S ''year is out of range''))
      else if \<not> (1 \<le> pd_month d \<and> pd_month d \<le> 12) then Inl (ValueError (S ''month must be in 1..12''))
      else if \<not> (1 \<le> pd_day d \<and> pd_day d \<le> days_in_month (pd_year d) (pd_month d))
        then Inl (ValueError (S ''day is out of range for month''))
      else if \<not> (0 \<le> pd_hour d \<and> pd_hour d \<le> 23) then Inl (ValueError (S ''hour must be in 0..23''))
      else if \<not> (0 \<le> pd_minute d \<and> pd_minute d \<le> 59) then Inl (ValueError (S ''minute must be in 0..59''))
      else if \<not> (0 \<le> pd_second d \<and> pd_second d \<le> 59) then Inl (ValueError (S ''second must be in 0..59''))
      else Inr d)"

text \<open>\<^verbatim>\<open>timezone(timedelta(seconds=n))\<close>: the difference has a bound of its own.\<close>

definition check_offset :: "int option \<Rightarrow> unit res" where
  "check_offset off =
     (case off of
        None \<Rightarrow> Inr ()
      | Some n \<Rightarrow>
          if \<bar>n div 86400\<bar> > 999999999 then Inl date_overflow
          else if \<bar>n\<bar> \<ge> 86400 then Inl (ValueError (S ''offset must be strictly between -24 and 24 hours''))
          else Inr ())"

definition parsedate_to_datetime :: "str \<Rightarrow> parsed_date res" where
  "parsedate_to_datetime s =
     (case parsedate_tz s of
        None \<Rightarrow> Inl (ValueError (S ''Invalid date value or format''))
      | Some d \<Rightarrow> bindR (check_offset (pd_offset d)) (\<lambda>_. check_datetime d))"

text \<open>The day number: days since the first of January 1970.\<close>

definition leap_days :: "int \<Rightarrow> int" where
  "leap_days y = y div 4 - y div 100 + y div 400"

definition days_before_year :: "int \<Rightarrow> int" where
  "days_before_year y = (y - 1) * 365 + leap_days (y - 1)"

definition days_before_month :: "int \<Rightarrow> int \<Rightarrow> int" where
  "days_before_month y m = (\<Sum>k\<leftarrow>[1..m - 1]. days_in_month y k)"

definition epoch_day :: "int \<Rightarrow> int \<Rightarrow> int \<Rightarrow> int" where
  "epoch_day y m d = days_before_year y + days_before_month y m + d - 719163"

definition utc_seconds :: "parsed_date \<Rightarrow> int" where
  "utc_seconds d =
     epoch_day (pd_year d) (pd_month d) (pd_day d) * 86400 +
       pd_hour d * 3600 + pd_minute d * 60 + pd_second d"

text \<open>
  \<^verbatim>\<open>timestamp()\<close>: a date without a zone is in local time, which only the machine knows; the
  parameter \<open>local\<close> may raise (\<^verbatim>\<open>mktime\<close> at the ends of its range does).
\<close>

definition timestamp :: "(parsed_date \<Rightarrow> pyfloat res) \<Rightarrow> parsed_date \<Rightarrow> pyfloat res" where
  "timestamp local d =
     (case pd_offset d of
        None \<Rightarrow> local d
      | Some off \<Rightarrow> Inr (Fin (of_int (utc_seconds d - off))))"

subsection \<open>Day numbers count days\<close>

definition valid_date :: "int \<Rightarrow> int \<Rightarrow> int \<Rightarrow> bool" where
  "valid_date y m d \<longleftrightarrow> 1 \<le> m \<and> m \<le> 12 \<and> 1 \<le> d \<and> d \<le> days_in_month y m"

text \<open>The reference: the day after a day of the Gregorian calendar.\<close>

fun next_date :: "int \<times> int \<times> int \<Rightarrow> int \<times> int \<times> int" where
  "next_date (y, m, d) =
     (if d < days_in_month y m then (y, m, d + 1) else if m < 12 then (y, m + 1, 1) else (y + 1, 1, 1))"

definition date_of :: "nat \<Rightarrow> int \<times> int \<times> int" where
  "date_of n = (next_date ^^ n) (1970, 1, 1)"

lemma days_in_month_bounds: "28 \<le> days_in_month y m" "days_in_month y m \<le> 31"
  by (simp_all add: days_in_month_def)

lemma days_before_month_next: "1 \<le> m \<Longrightarrow> days_before_month y (m + 1) = days_before_month y m + days_in_month y m"
  by (simp add: days_before_month_def upto_rec2 [of 1 m])

lemma div_next:
  assumes "(0::int) < k"
  shows "y div k = (y - 1) div k + (if y mod k = 0 then 1 else 0)"
proof (cases "y mod k = 0")
  case True
  then have "y - 1 = k * (y div k - 1) + (k - 1)"
    using mult_div_mod_eq [of k y] by (simp add: right_diff_distrib)
  then have "(y - 1) div k = y div k - 1"
    by (rule int_div_pos_eq) (use assms in simp_all)
  with True show ?thesis by simp
next
  case False
  then have "y - 1 = k * (y div k) + (y mod k - 1)" "0 \<le> y mod k - 1" "y mod k - 1 < k"
    using assms pos_mod_sign [of k y] pos_mod_bound [of k y] mult_div_mod_eq [of k y] by linarith+
  then have "(y - 1) div k = y div k"
    by (intro int_div_pos_eq)
  with False show ?thesis by simp
qed

lemma count_leaps:
  fixes a b c :: int
  assumes "a = a' + (if p then 1 else 0)" and "b = b' + (if q then 1 else 0)" and "c = c' + (if r then 1 else 0)"
    and "r \<Longrightarrow> q" and "q \<Longrightarrow> p"
  shows "a - b + c = a' - b' + c' + (if p \<and> (\<not> q \<or> r) then 1 else 0)"
  using assms by (cases p; cases q; cases r) simp_all

lemma leap_days_next: "leap_days y = leap_days (y - 1) + (if leap_year y then 1 else 0)"
proof -
  have "(100::int) dvd 400" "(4::int) dvd 100"
    by simp_all
  then have "y mod 400 = 0 \<Longrightarrow> y mod 100 = 0" "y mod 100 = 0 \<Longrightarrow> y mod 4 = 0"
    unfolding mod_eq_0_iff_dvd by (blast intro: dvd_trans)+
  then show ?thesis
    unfolding leap_days_def leap_year_def by (intro count_leaps div_next zero_less_numeral)
qed

lemma days_before_year_next: "days_before_year (y + 1) = days_before_year y + (if leap_year y then 366 else 365)"
  using leap_days_next [of y] by (simp add: days_before_year_def)

lemma days_before_january [simp]: "days_before_month y 1 = 0"
  by (simp add: days_before_month_def)

lemma days_before_december: "days_before_month y 12 = (if leap_year y then 335 else 334)"
  by (simp add: days_before_month_def days_in_month_def upto.simps)

lemma epoch_day_next:
  assumes "valid_date y m d" and "next_date (y, m, d) = (y', m', d')"
  shows "valid_date y' m' d' \<and> epoch_day y' m' d' = epoch_day y m d + 1 \<and> y \<le> y'"
proof -
  consider "d < days_in_month y m" | "d = days_in_month y m" "m < 12" | "d = days_in_month y m" "m = 12"
    using assms(1) unfolding valid_date_def by linarith
  then show ?thesis
  proof cases
    case 1
    with assms show ?thesis
      by (auto simp: valid_date_def epoch_day_def)
  next
    case 2
    with assms days_in_month_bounds [of y "m + 1"] show ?thesis
      by (auto simp: valid_date_def epoch_day_def days_before_month_next)
  next
    case 3
    then have "y' = y + 1" "m' = 1" "d' = 1" "d = 31"
      using assms by (simp_all add: days_in_month_def)
    moreover have "1 \<le> days_in_month (y + 1) 1"
      using days_in_month_bounds(1) [of "y + 1" 1] by simp
    ultimately show ?thesis
      using 3 by (simp add: valid_date_def epoch_day_def days_before_year_next days_before_december)
  qed
qed

lemma date_of_epoch_day:
  "date_of n = (y, m, d) \<Longrightarrow> valid_date y m d \<and> epoch_day y m d = int n \<and> 1970 \<le> y"
proof (induction n arbitrary: y m d)
  case 0
  then show ?case
    by (simp add: date_of_def valid_date_def days_in_month_def epoch_day_def days_before_year_def
        leap_days_def)
next
  case (Suc n)
  obtain y0 m0 d0 where d0: "date_of n = (y0, m0, d0)"
    by (cases "date_of n")
  with Suc.prems have "next_date (y0, m0, d0) = (y, m, d)"
    by (simp add: date_of_def)
  from epoch_day_next [OF _ this] Suc.IH [OF d0] show ?case
    by simp
qed

lemma days_before_month_bound: "days_before_month y m \<le> 31 * max 0 (m - 1)"
proof -
  have "(\<Sum>k\<leftarrow>[1..m - 1]. days_in_month y k) \<le> (\<Sum>k\<leftarrow>[1..m - 1]. 31)"
    by (intro sum_list_mono days_in_month_bounds(2))
  then show ?thesis
    by (simp add: days_before_month_def sum_list_triv max_def split: if_splits)
qed

lemma date_of_bound:
  assumes "date_of n = (y, m, d)" and "y \<le> 9999"
  shows "int n \<le> 5000000"
proof -
  note date = date_of_epoch_day [OF assms(1)]
  have "0 \<le> y - 1"
    using date by simp
  then have "(y - 1) div 4 \<le> y - 1" "0 \<le> (y - 1) div 100" "(y - 1) div 400 \<le> y - 1"
    using zdiv_mono2 [of "y - 1" 1 4] zdiv_mono2 [of "y - 1" 1 400] by (simp_all add: pos_imp_zdiv_nonneg_iff)
  moreover have "a - b + c \<le> 2 * z" if "a \<le> z" "0 \<le> b" "c \<le> z" for a b c z :: int
    using that by simp
  ultimately have "leap_days (y - 1) \<le> 2 * (y - 1)"
    unfolding leap_days_def by blast
  moreover have "days_before_month y m \<le> 341" "d \<le> 31"
    using date days_before_month_bound [of y m] days_in_month_bounds(2) [of y m]
    by (auto simp: valid_date_def max_def split: if_splits)
  moreover have "n \<le> 5000000"
    if "l \<le> 2 * (y - 1)" "b \<le> 341" "d \<le> 31" "(y - 1) * 365 + l + b + d - 719163 = n" for l b n :: int
    using that assms(2) by (simp add: algebra_simps)
  ultimately show ?thesis
    using date unfolding epoch_day_def days_before_year_def by blast
qed

subsection \<open>The formats of an HTTP date\<close>

definition two :: "int \<Rightarrow> str" where
  "two n = [48 + nat (n div 10), 48 + nat (n mod 10)]"

definition four :: "int \<Rightarrow> str" where
  "four n = two (n div 100) @ two (n mod 100)"

definition day_abbrs :: "str list" where
  "day_abbrs = map S [''Mon'', ''Tue'', ''Wed'', ''Thu'', ''Fri'', ''Sat'', ''Sun'']"

definition month_abbr :: "int \<Rightarrow> str" where
  "month_abbr m = map S [''Jan'', ''Feb'', ''Mar'', ''Apr'', ''May'', ''Jun'', ''Jul'', ''Aug'', ''Sep'',
     ''Oct'', ''Nov'', ''Dec''] ! nat (m - 1)"

definition clock_text :: "int \<Rightarrow> int \<Rightarrow> int \<Rightarrow> str" where
  "clock_text h mi s = two h @ 58 # two mi @ 58 # two s"

text \<open>\<^verbatim>\<open>Sun, 06 Nov 1994 08:49:37 GMT\<close>, and the two forms a server of old may still send.\<close>

definition imf_fixdate :: "str \<Rightarrow> int \<Rightarrow> int \<Rightarrow> int \<Rightarrow> int \<Rightarrow> int \<Rightarrow> int \<Rightarrow> str" where
  "imf_fixdate wd y m d h mi s =
     (wd @ [44]) @ 32 # two d @ 32 # month_abbr m @ 32 # four y @ 32 # clock_text h mi s @ 32 # S ''GMT''"

definition rfc850_date :: "str \<Rightarrow> int \<Rightarrow> int \<Rightarrow> int \<Rightarrow> int \<Rightarrow> int \<Rightarrow> int \<Rightarrow> str" where
  "rfc850_date weekday y m d h mi s =
     (weekday @ [44]) @ 32 # (two d @ 45 # month_abbr m @ 45 # two (y mod 100)) @ 32 # clock_text h mi s @
       32 # S ''GMT''"

definition asctime_date :: "str \<Rightarrow> int \<Rightarrow> int \<Rightarrow> int \<Rightarrow> int \<Rightarrow> int \<Rightarrow> int \<Rightarrow> str" where
  "asctime_date wd y m d h mi s =
     wd @ 32 # month_abbr m @ 32 # (if d < 10 then [32, 48 + nat d] else two d) @ 32 # clock_text h mi s @
       32 # four y"

definition valid_time :: "int \<Rightarrow> int \<Rightarrow> int \<Rightarrow> bool" where
  "valid_time h mi s \<longleftrightarrow> 0 \<le> h \<and> h < 24 \<and> 0 \<le> mi \<and> mi < 60 \<and> 0 \<le> s \<and> s < 60"

lemma space_fields_word: "(\<And>c. c \<in> set w \<Longrightarrow> \<not> is_space c) \<Longrightarrow> space_fields w = [w]"
  by (induction w) auto

lemma space_fields_append:
  "(\<And>c. c \<in> set w \<Longrightarrow> \<not> is_space c) \<Longrightarrow> space_fields (w @ 32 # s) = w # space_fields s"
  by (induction w) (auto simp: is_space_def)

lemma split_words_append:
  "(\<And>c. c \<in> set w \<Longrightarrow> \<not> is_space c) \<Longrightarrow>
    split_words (w @ 32 # s) = (if w = [] then split_words s else w # split_words s)"
  by (simp add: split_words_def space_fields_append)

lemma split_words_word:
  "(\<And>c. c \<in> set w \<Longrightarrow> \<not> is_space c) \<Longrightarrow> split_words w = (if w = [] then [] else [w])"
  by (simp add: split_words_def space_fields_word)

lemma py_int_digits:
  assumes "list_all is_digit ds" and "ds \<noteq> []" and "length ds \<le> 4300"
  shows "py_int_of_str ds = Some (int (dec_val ds))"
proof -
  have strip: "num_strip ds = ds"
    using assms(1) by (intro num_strip_no_space) (auto simp: list_all_iff is_digit_def is_space_def)
  have "filter (\<lambda>c. c \<noteq> 95) ds = ds"
    using assms(1) by (auto simp: list_all_iff is_digit_def filter_id_conv)
  then have "drop_underscores ds = Some ds"
    using underscores_ok_digits [OF assms(1)] by (simp add: drop_underscores_def)
  moreover have "take_sign ds = (False, ds)"
    using assms(1,2) by (cases ds) (auto simp: take_sign_def is_digit_def)
  ultimately show ?thesis
    using assms by (simp add: py_int_of_str_def strip)
qed

lemma two_digits: "0 \<le> n \<Longrightarrow> n < 100 \<Longrightarrow> list_all is_digit (two n)"
  by (auto simp: two_def is_digit_def nat_le_iff)

lemma two_value: "0 \<le> n \<Longrightarrow> int (dec_val (two n)) = n"
  by (simp add: two_def dec_val_def pos_imp_zdiv_nonneg_iff)

lemma four_digits: "0 \<le> n \<Longrightarrow> n < 10000 \<Longrightarrow> list_all is_digit (four n)"
  by (auto simp: four_def intro!: two_digits)

lemma dec_val_append: "dec_val (a @ b) = dec_val a * 10 ^ length b + dec_val b"
proof (induction b rule: rev_induct)
  case Nil
  then show ?case by (simp add: dec_val_def)
next
  case (snoc c b)
  have "dec_val (a @ b @ [c]) = 10 * dec_val (a @ b) + (c - 48)"
    using dec_val_snoc [of "a @ b" c] by simp
  with snoc show ?case
    by (simp add: dec_val_snoc)
qed

lemma length_two [simp]: "length (two n) = 2" and two_not_Nil [simp]: "two n \<noteq> []"
  by (simp_all add: two_def)

lemma four_value:
  assumes "0 \<le> n"
  shows "int (dec_val (four n)) = n"
proof -
  have "int (dec_val (four n)) = int (dec_val (two (n div 100))) * 100 + int (dec_val (two (n mod 100)))"
    by (simp add: four_def dec_val_append)
  also have "\<dots> = n div 100 * 100 + n mod 100"
    using assms by (simp only: two_value pos_imp_zdiv_nonneg_iff zero_less_numeral pos_mod_sign)
  also have "\<dots> = n"
    by (rule div_mult_mod_eq)
  finally show ?thesis .
qed

lemma py_int_two: "0 \<le> n \<Longrightarrow> n < 100 \<Longrightarrow> py_int_of_str (two n) = Some n"
  by (simp add: py_int_digits two_digits two_value)

lemma py_int_four: "0 \<le> n \<Longrightarrow> n < 10000 \<Longrightarrow> py_int_of_str (four n) = Some n"
  using py_int_digits [OF four_digits, of n] by (simp add: four_value) (simp add: four_def)

lemma digits_plain:
  assumes "list_all is_digit s" and "c \<in> set s"
  shows "\<not> is_space c" "c \<noteq> 44" "c \<noteq> 45" "c \<noteq> 58" "c \<noteq> 43" "c \<noteq> 46"
  using assms by (auto simp: list_all_iff is_digit_def is_space_def)

lemma drop_comma_digits: "list_all is_digit s \<Longrightarrow> drop_comma s = s"
  by (cases s rule: rev_cases) (auto simp: drop_comma_def ends_with_def is_digit_def)

lemma find_char_none: "c \<notin> set s \<Longrightarrow> find_char c s = None"
  by (simp add: find_char_def)

lemma month_cases:
  assumes "1 \<le> m" and "m \<le> (12::int)"
  obtains "m = 1" | "m = 2" | "m = 3" | "m = 4" | "m = 5" | "m = 6" | "m = 7" | "m = 8" | "m = 9"
    | "m = 10" | "m = 11" | "m = 12"
proof -
  have "m \<in> set [1..12]"
    using assms by simp
  then have "m = 1 \<or> m = 2 \<or> m = 3 \<or> m = 4 \<or> m = 5 \<or> m = 6 \<or> m = 7 \<or> m = 8 \<or> m = 9 \<or> m = 10 \<or> m = 11 \<or> m = 12"
    by (simp add: upto.simps del: set_upto)
  then show thesis
    using that by argo
qed

lemma month_abbr_cases:
  assumes "1 \<le> m" and "m \<le> (12::int)"
  shows "month_number (lower (month_abbr m)) = Some m \<and> month_abbr m \<noteq> [] \<and>
    list_all (\<lambda>c. is_alpha c) (month_abbr m)"
  using assms
  by (cases rule: month_cases)
    (simp_all add: month_number_def month_abbr_def monthnames_def lower_def lower_char_def str_simps is_alpha_def)


lemma month_plain:
  assumes "1 \<le> m" and "m \<le> (12::int)" and "c \<in> set (month_abbr m)"
  shows "\<not> is_space c" "c \<noteq> 44" "c \<noteq> 45" "c \<noteq> 58" "c \<noteq> 43"
  using month_abbr_cases [OF assms(1,2)] assms(3)
  by (auto simp: list_all_iff is_alpha_def is_space_def)

lemma find_char_later: "c \<noteq> x \<Longrightarrow> c \<in> set s \<Longrightarrow> \<exists>n. find_char c (x # s) = Some (Suc n)"
  by (simp add: find_char_def)

lemma split_on_digits:
  "list_all is_digit w \<Longrightarrow> \<not> is_digit c \<Longrightarrow> split_on c (w @ c # s) = w # split_on c s"
  "list_all is_digit w \<Longrightarrow> \<not> is_digit c \<Longrightarrow> split_on c w = [w]"
  by (induction w) (auto split: list.splits)

lemma clock_fields:
  assumes "valid_time h mi s"
  shows "time_fields (clock_text h mi s) = Some (two h, two mi, two s)"
proof -
  have "list_all is_digit (two h)" "list_all is_digit (two mi)" "list_all is_digit (two s)" "\<not> is_digit 58"
    using assms by (auto simp: valid_time_def is_digit_def intro!: two_digits)
  then have "split_on 58 (clock_text h mi s) = [two h, two mi, two s]"
    by (simp add: clock_text_def split_on_digits)
  then show ?thesis
    by (simp add: time_fields_def)
qed

lemma clock_plain:
  assumes "valid_time h mi s"
  shows "c \<in> set (clock_text h mi s) \<Longrightarrow> \<not> is_space c" and "drop_comma (clock_text h mi s) = clock_text h mi s"
    and "\<exists>n. find_char 58 (clock_text h mi s) = Some (Suc n)"
proof -
  have d: "list_all is_digit (two h)" "list_all is_digit (two mi)" "list_all is_digit (two s)"
    using assms by (auto simp: valid_time_def intro!: two_digits)
  then show "c \<in> set (clock_text h mi s) \<Longrightarrow> \<not> is_space c"
    by (auto simp: clock_text_def is_space_def dest: digits_plain(1))
  have "last (clock_text h mi s) = last (two s)"
    by (simp add: clock_text_def)
  moreover have "last (two s) \<in> set (two s)"
    by simp
  ultimately show "drop_comma (clock_text h mi s) = clock_text h mi s"
    using digits_plain(2) [OF d(3)] by (simp add: drop_comma_def ends_with_def)
  have "hd (two h) \<noteq> 58"
    using digits_plain(4) [OF d(1)] by (simp add: two_def)
  then show "\<exists>n. find_char 58 (clock_text h mi s) = Some (Suc n)"
    unfolding clock_text_def two_def append_Cons
    by (intro find_char_later) auto
qed

lemma day_of_digits:
  assumes "list_all is_digit dd" and "dd \<noteq> []"
  shows "month_number (lower dd) = None" "lower dd = dd"
proof -
  show low: "lower dd = dd"
    using assms(1) by (auto simp: lower_def lower_char_def list_all_iff is_digit_def intro!: map_idI)
  obtain c cs where "dd = c # cs" "is_digit c"
    using assms by (cases dd) auto
  then show "month_number (lower dd) = None"
    unfolding low by (simp add: month_number_def monthnames_def str_simps is_digit_def)
qed

text \<open>Day, month, year and time, in the order of HTTP and in that of \<^verbatim>\<open>asctime\<close>.\<close>

lemma parsedate_fields_read:
  assumes "list_all is_digit dd" "dd \<noteq> []" "py_int_of_str dd = Some d"
    and "list_all is_digit yy" "yy \<noteq> []" "py_int_of_str yy = Some y"
    and "1 \<le> m" "m \<le> (12::int)" and time: "valid_time h mi s"
  shows "parsedate_fields dd (month_abbr m) yy (clock_text h mi s) tz =
      Some \<lparr>pd_year = full_year y, pd_month = m, pd_day = d, pd_hour = h, pd_minute = mi, pd_second = s,
        pd_offset = zone_offset tz\<rparr>"
    and "parsedate_fields (month_abbr m) dd (clock_text h mi s) yy tz =
      Some \<lparr>pd_year = full_year y, pd_month = m, pd_day = d, pd_hour = h, pd_minute = mi, pd_second = s,
        pd_offset = zone_offset tz\<rparr>"
proof -
  note month = month_abbr_cases [OF assms(7,8)]
  have no_colon: "find_char 58 yy = None"
    using digits_plain(4) [OF assms(4)] by (auto intro: find_char_none)
  have year: "isdigit (hd yy)"
    using assms(4,5) by (cases yy) (simp_all add: isdigit_def)
  obtain n where colon: "find_char 58 (clock_text h mi s) = Some (Suc n)"
    using clock_plain(3) [OF time] by blast
  have numbers: "py_int_of_str (two h) = Some h" "py_int_of_str (two mi) = Some mi"
    "py_int_of_str (two s) = Some s"
    using time by (simp_all add: valid_time_def py_int_two)
  have ne: "clock_text h mi s \<noteq> []"
    by (simp add: clock_text_def)
  show "parsedate_fields dd (month_abbr m) yy (clock_text h mi s) tz =
      Some \<lparr>pd_year = full_year y, pd_month = m, pd_day = d, pd_hour = h, pd_minute = mi, pd_second = s,
        pd_offset = zone_offset tz\<rparr>"
    using assms(1-6) month no_colon year clock_fields [OF time] clock_plain(2) [OF time] numbers
    by (simp add: parsedate_fields_def day_month_def year_time_zone_def drop_comma_digits)
  show "parsedate_fields (month_abbr m) dd (clock_text h mi s) yy tz =
      Some \<lparr>pd_year = full_year y, pd_month = m, pd_day = d, pd_hour = h, pd_minute = mi, pd_second = s,
        pd_offset = zone_offset tz\<rparr>"
    using assms(1-6) month colon year ne clock_fields [OF time] clock_plain(2) [OF time] numbers
      day_of_digits [OF assms(1,2)]
    by (simp add: parsedate_fields_def day_month_def year_time_zone_def drop_comma_digits)
qed


subsection \<open>The formats are read\<close>

definition day_names :: "str list" where
  "day_names = map S [''Monday'', ''Tuesday'', ''Wednesday'', ''Thursday'', ''Friday'', ''Saturday'', ''Sunday'']"

text \<open>The first letter of a day: no number starts with it.\<close>

definition day_initial :: "nat \<Rightarrow> bool" where
  "day_initial c \<longleftrightarrow> c \<in> {70, 77, 83, 84, 87}"

lemma day_abbr_cases:
  assumes "wd \<in> set day_abbrs"
  shows "wd \<noteq> [] \<and> lower wd \<in> set daynames \<and> list_all is_alpha wd \<and> day_initial (hd wd)"
  using assms
  by (auto simp: day_abbrs_def daynames_def lower_def lower_char_def str_simps is_alpha_def day_initial_def)

lemma day_name_cases:
  assumes "wd \<in> set day_names"
  shows "wd \<noteq> [] \<and> list_all is_alpha wd \<and> day_initial (hd wd)"
  using assms by (auto simp: day_names_def str_simps is_alpha_def day_initial_def)

lemma alpha_plain: "list_all is_alpha w \<Longrightarrow> c \<in> set w \<Longrightarrow> \<not> is_space c"
  by (auto simp: list_all_iff is_alpha_def is_space_def)

lemma valid_date_day:
  assumes "valid_date y m d"
  shows "0 \<le> d" "d < 100" "1 \<le> m" "m \<le> 12"
  using assms days_in_month_bounds(2) [of y m] by (auto simp: valid_date_def)

text \<open>Words without white space.\<close>

definition plain_word :: "str \<Rightarrow> bool" where
  "plain_word w \<longleftrightarrow> w \<noteq> [] \<and> (\<forall>c \<in> set w. \<not> is_space c)"

lemma split_words_plain:
  "plain_word w \<Longrightarrow> split_words (w @ 32 # s) = w # split_words s" "plain_word w \<Longrightarrow> split_words w = [w]"
  by (simp_all add: plain_word_def split_words_append split_words_word)

lemma plain_word_append: "plain_word v \<Longrightarrow> plain_word w \<Longrightarrow> plain_word (v @ w)"
  by (auto simp: plain_word_def)

lemma plain_word_char: "plain_word [c] \<longleftrightarrow> \<not> is_space c"
  by (simp add: plain_word_def)

lemma plain_word_digits: "list_all is_digit w \<Longrightarrow> w \<noteq> [] \<Longrightarrow> plain_word w"
  by (auto simp: plain_word_def dest: digits_plain(1))

lemma plain_word_alpha: "list_all is_alpha w \<Longrightarrow> w \<noteq> [] \<Longrightarrow> plain_word w"
  by (auto simp: plain_word_def dest: alpha_plain)

lemma plain_word_clock: "valid_time h mi s \<Longrightarrow> plain_word (clock_text h mi s)"
  by (auto simp: plain_word_def dest: clock_plain(1)) (simp add: clock_text_def)

lemma plain_separators: "\<not> is_space 44" "\<not> is_space 45" "plain_word (S ''GMT'')"
  by (simp_all add: is_space_def plain_word_def str_simps)

lemma gmt_offset: "zone_offset (S ''GMT'') = Some 0" "zone_offset [] = None"
  by (simp_all add: zone_offset_def timezones_def upper_def upper_char_def str_simps py_int_of_str_def
      drop_underscores_def take_sign_def)

text \<open>The year may have any number of digits.\<close>

lemma imf_fields:
  assumes wd: "list_all is_alpha wd" and date: "valid_date y0 m d" and time: "valid_time h mi s"
    and yy: "list_all is_digit yy" "yy \<noteq> []" "py_int_of_str yy = Some y"
  shows "parsedate_tz ((wd @ [44]) @ 32 # two d @ 32 # month_abbr m @ 32 # yy @ 32 # clock_text h mi s @
      32 # S ''GMT'') =
    Some \<lparr>pd_year = full_year y, pd_month = m, pd_day = d, pd_hour = h, pd_minute = mi, pd_second = s,
      pd_offset = Some 0\<rparr>"
proof -
  note dd = valid_date_day [OF date]
  have day: "list_all is_digit (two d)"
    using dd by (simp add: two_digits)
  have "plain_word (wd @ [44])"
    using plain_separators plain_word_alpha [OF wd]
    by (cases "wd = []") (simp_all add: plain_word_append plain_word_char)
  then have "split_words ((wd @ [44]) @ 32 # two d @ 32 # month_abbr m @ 32 # yy @ 32 # clock_text h mi s @
      32 # S ''GMT'') = [wd @ [44], two d, month_abbr m, yy, clock_text h mi s, S ''GMT'']"
    by (simp only: split_words_plain plain_word_digits [OF day two_not_Nil]
        plain_word_digits [OF yy(1,2)] plain_word_alpha month_abbr_cases [OF dd(3,4)]
        plain_word_clock [OF time] plain_separators simp_thms)
  then show ?thesis
    using parsedate_fields_read(1) [OF day _ py_int_two [OF dd(1,2)] yy dd(3,4) time]
    by (simp add: parsedate_tz_def drop_dayname_def ends_with_def split_hyphens_def split_zone_def gmt_offset)
qed

lemma imf_fixdate_fields:
  assumes wd: "list_all is_alpha wd" and date: "valid_date y m d" and y: "100 \<le> y" "y \<le> 9999"
    and time: "valid_time h mi s"
  shows "parsedate_tz (imf_fixdate wd y m d h mi s) =
    Some \<lparr>pd_year = y, pd_month = m, pd_day = d, pd_hour = h, pd_minute = mi, pd_second = s,
      pd_offset = Some 0\<rparr>"
proof -
  have "list_all is_digit (four y)" "full_year y = y" "py_int_of_str (four y) = Some y" "four y \<noteq> []"
    using y by (simp_all add: four_digits full_year_def py_int_four) (simp add: four_def)
  then show ?thesis
    using imf_fields [OF wd date time] by (simp add: imf_fixdate_def)
qed

lemma rfc850_date_fields:
  assumes wd: "list_all is_alpha wd" and date: "valid_date y m d" and y: "1969 \<le> y" "y \<le> 2068"
    and time: "valid_time h mi s"
  shows "parsedate_tz (rfc850_date wd y m d h mi s) =
    Some \<lparr>pd_year = y, pd_month = m, pd_day = d, pd_hour = h, pd_minute = mi, pd_second = s,
      pd_offset = Some 0\<rparr>"
proof -
  note dd = valid_date_day [OF date]
  have yy: "0 \<le> y mod 100" "y mod 100 < 100"
    by simp_all
  have digits: "list_all is_digit (two d)" "list_all is_digit (two (y mod 100))"
    using dd yy by (simp_all only: two_digits)
  note month = month_abbr_cases [OF dd(3,4)]
  have year: "full_year (y mod 100) = y"
  proof -
    have "y - 1900 = y mod 100 \<or> y - 2000 = y mod 100"
    proof (cases "y < 2000")
      case True
      have "(y - 1900 + 100 * 19) mod 100 = (y - 1900) mod 100"
        by (rule mod_mult_self2)
      with True y show ?thesis by simp
    next
      case False
      have "(y - 2000 + 100 * 20) mod 100 = (y - 2000) mod 100"
        by (rule mod_mult_self2)
      with False y show ?thesis by simp
    qed
    then show ?thesis
      using y yy unfolding full_year_def by (auto split: if_splits)
  qed
  let ?day = "two d @ 45 # month_abbr m @ 45 # two (y mod 100)"
  have hyphen: "45 \<notin> set (two d)" "45 \<notin> set (month_abbr m)" "45 \<notin> set (two (y mod 100))"
    using digits_plain(3) [OF digits(1)] digits_plain(3) [OF digits(2)] month_plain(3) [OF dd(3,4)] by auto
  have "plain_word (wd @ [44])"
    using plain_separators plain_word_alpha [OF wd]
    by (cases "wd = []") (simp_all add: plain_word_append plain_word_char)
  moreover have "plain_word ?day"
    using plain_word_digits [OF digits(1)] plain_word_digits [OF digits(2)] plain_word_alpha month plain_separators
    by (auto simp: plain_word_def)
  ultimately have "split_words (rfc850_date wd y m d h mi s) =
      [wd @ [44], ?day, clock_text h mi s, S ''GMT'']"
    unfolding rfc850_date_def
    by (simp only: split_words_plain plain_word_clock [OF time] plain_separators simp_thms)
  moreover have "split_on 45 ?day = [two d, month_abbr m, two (y mod 100)]"
    using hyphen by (simp only: split_on_append split_on_no_sep simp_thms)
  ultimately show ?thesis
    using parsedate_fields_read(1) [OF digits(1) _ py_int_two [OF dd(1,2)] digits(2) _ py_int_two [OF yy] dd(3,4) time]
    by (simp add: parsedate_tz_def drop_dayname_def ends_with_def split_hyphens_def split_zone_def year gmt_offset)
qed

lemma split_words_space: "split_words (32 # s) = split_words s"
  by (simp add: split_words_def is_space_def)

lemma asctime_date_fields:
  assumes wd: "wd \<in> set day_abbrs" and date: "valid_date y m d" and y: "100 \<le> y" "y \<le> 9999"
    and time: "valid_time h mi s"
  shows "parsedate_tz (asctime_date wd y m d h mi s) =
    Some \<lparr>pd_year = y, pd_month = m, pd_day = d, pd_hour = h, pd_minute = mi, pd_second = s,
      pd_offset = None\<rparr>"
proof -
  note dd = valid_date_day [OF date]
  define day where "day = (if d < 10 then [48 + nat d] else two d)"
  have "0 \<le> d \<and> d < 10 \<Longrightarrow> int (dec_val [48 + nat d]) = d"
    by (simp add: dec_val_def)
  then have day: "list_all is_digit day" "day \<noteq> []" "py_int_of_str day = Some d"
    using dd py_int_digits [of "[48 + nat d]"] py_int_two [OF dd(1,2)] two_digits [OF dd(1,2)]
    by (auto simp: day_def is_digit_def)
  have digits: "list_all is_digit (four y)" "four y \<noteq> []"
    using y by (simp_all add: four_digits) (simp add: four_def)
  have year: "full_year y = y" "py_int_of_str (four y) = Some y"
    using y by (simp_all add: full_year_def py_int_four)
  note month = month_abbr_cases [OF dd(3,4)]
  note wd = day_abbr_cases [OF wd]
  have rest: "split_words (day @ 32 # clock_text h mi s @ 32 # four y) = [day, clock_text h mi s, four y]"
    by (simp only: split_words_plain plain_word_digits [OF day(1,2)] plain_word_digits [OF digits]
        plain_word_clock [OF time])
  have "split_words ((if d < 10 then [32, 48 + nat d] else two d) @ 32 # clock_text h mi s @ 32 # four y) =
      [day, clock_text h mi s, four y]"
    using rest split_words_space [of "day @ 32 # clock_text h mi s @ 32 # four y"]
    by (cases "d < 10") (simp_all add: day_def)
  then have words: "split_words (asctime_date wd y m d h mi s) =
      [wd, month_abbr m, day, clock_text h mi s, four y]"
    unfolding asctime_date_def using wd month
    by (simp add: split_words_plain plain_word_alpha)
  have "find_char 43 (four y) = None" "find_char 45 (four y) = None"
    using digits_plain(3,5) [OF digits(1)] by (auto intro!: find_char_none)
  then show ?thesis
    using wd parsedate_fields_read(2) [OF day digits year(2) dd(3,4) time, of "[]"]
    by (simp add: parsedate_tz_def words drop_dayname_def split_hyphens_def split_zone_def year gmt_offset
        numeral_nat)
qed

lemma check_datetime_valid:
  assumes "valid_date y m d" and "1 \<le> y" "y \<le> 9999" and "valid_time h mi s"
  shows "check_datetime \<lparr>pd_year = y, pd_month = m, pd_day = d, pd_hour = h, pd_minute = mi, pd_second = s,
      pd_offset = off\<rparr> =
    Inr \<lparr>pd_year = y, pd_month = m, pd_day = d, pd_hour = h, pd_minute = mi, pd_second = s, pd_offset = off\<rparr>"
  using assms days_in_month_bounds(2) [of y m]
  by (simp add: check_datetime_def fits_int_def valid_date_def valid_time_def)

lemma http_dates_read:
  assumes "valid_date y m d" and "valid_time h mi s"
  shows "list_all is_alpha wd \<Longrightarrow> 100 \<le> y \<Longrightarrow> y \<le> 9999 \<Longrightarrow>
      parsedate_to_datetime (imf_fixdate wd y m d h mi s) =
        Inr \<lparr>pd_year = y, pd_month = m, pd_day = d, pd_hour = h, pd_minute = mi, pd_second = s, pd_offset = Some 0\<rparr>"
    and "list_all is_alpha wd \<Longrightarrow> 1969 \<le> y \<Longrightarrow> y \<le> 2068 \<Longrightarrow>
      parsedate_to_datetime (rfc850_date wd y m d h mi s) =
        Inr \<lparr>pd_year = y, pd_month = m, pd_day = d, pd_hour = h, pd_minute = mi, pd_second = s, pd_offset = Some 0\<rparr>"
    and "wd \<in> set day_abbrs \<Longrightarrow> 100 \<le> y \<Longrightarrow> y \<le> 9999 \<Longrightarrow>
      parsedate_to_datetime (asctime_date wd y m d h mi s) =
        Inr \<lparr>pd_year = y, pd_month = m, pd_day = d, pd_hour = h, pd_minute = mi, pd_second = s, pd_offset = None\<rparr>"
  using assms
  by (simp_all add: parsedate_to_datetime_def imf_fixdate_fields rfc850_date_fields asctime_date_fields
      check_offset_def check_datetime_valid)

subsection \<open>Dates are not numbers\<close>

lemma strip_ends:
  assumes "\<not> is_space (hd s)" and "\<not> is_space (last s)"
  shows "strip s = s"
proof (cases "s = []")
  case False
  have "dropWhile is_space s = s"
    using assms(1) False by (cases s) auto
  moreover have "dropWhile is_space (rev s) = rev s"
    using assms(2) False by (cases s rule: rev_cases) auto
  ultimately show ?thesis
    by (simp add: strip_def)
qed simp

lemma day_is_no_number:
  assumes "day_initial (hd s)" and "s \<noteq> []"
  shows "py_float_of_str s = None"
proof -
  obtain c cs where s: "s = c # cs" "day_initial c"
    using assms by (cases s) auto
  then have c: "c \<noteq> 95" "c \<noteq> 45" "c \<noteq> 43" "\<not> is_digit c" "c \<noteq> 46" "lower_char c \<notin> {105, 110}" "\<not> is_space c"
    by (auto simp: day_initial_def is_digit_def lower_char_def is_space_def)
  obtain ds where strip: "num_strip (c # cs) = c # ds"
    using num_strip_Cons [OF c(7)] .
  have "parse_decimal False (c # t) = None" for t
    using c by (simp add: parse_decimal_def)
  then show ?thesis
    using c unfolding s(1)
    by (auto simp: py_float_of_str_def strip Let_def drop_underscores_def take_sign_def lower_def str_simps
        split: option.splits)
qed

end
