(* ===== verification/Retry.thy ===== *)
theory Retry
  imports Config HttpDate
begin

section \<open>The retry loop\<close>

text \<open>
  \<^verbatim>\<open>retry.py\<close>: the policy, the reading of a \<^verbatim>\<open>Retry-After\<close> header and the loop. The operation, the
  sleep, the clock and the jitter the loop is given are parameters over the world. The loop is unbounded, so \<open>with_retry\<close> is a partial
  function whose value is \<open>None\<close> when it never returns.
\<close>

definition RETRYABLE_STATUSES :: "int set" where
  "RETRYABLE_STATUSES = {429, 502, 503, 504}"

record retry_policy =
  rp_initial_backoff :: pyfloat
  rp_max_backoff :: pyfloat
  rp_multiplier :: pyfloat
  rp_max_elapsed :: pyfloat

definition policy_from_config :: "config \<Rightarrow> retry_policy" where
  "policy_from_config c =
     \<lparr>rp_initial_backoff = cfg_initial_backoff c, rp_max_backoff = cfg_max_backoff c,
      rp_multiplier = cfg_backoff_multiplier c, rp_max_elapsed = cfg_max_elapsed c\<rparr>"

text \<open>
  \<^verbatim>\<open>except (TypeError, ValueError)\<close> guards the parser of dates alone: what else it raises escapes, and
  so does what \<^verbatim>\<open>when.timestamp()\<close> raises.
\<close>

definition parse_retry_after ::
  "(parsed_date \<Rightarrow> pyfloat res) \<Rightarrow> str \<Rightarrow> pyfloat \<Rightarrow> pyfloat option res" where
  "parse_retry_after local val now_wall =
     (let t = strip val
      in if t = [] then Inr None
         else case py_float_of_str t of
           Some x \<Rightarrow> Inr (Some (py_max (Fin 0) x))
         | None \<Rightarrow>
             (case parsedate_to_datetime t of
                Inl (TypeError _) \<Rightarrow> Inr None
              | Inl (ValueError _) \<Rightarrow> Inr None
              | Inl e \<Rightarrow> Inl e
              | Inr d \<Rightarrow> bindR (timestamp local d) (\<lambda>s.
                  Inr (Some (py_max (Fin 0) (f_sub s now_wall))))))"

subsection \<open>One turn of the loop\<close>

record 'w retry_env =
  re_op :: "('w, outcome) io"
  re_sleep :: "pyfloat \<Rightarrow> ('w, unit) io"
  re_monotonic :: "'w \<Rightarrow> pyfloat \<times> 'w"
  re_jitter :: "'w \<Rightarrow> pyfloat \<times> 'w"

text \<open>
  The body of the loop up to the sleep: it leaves the loop with an outcome or an exception, or
  sleeps for a delay and goes round again.
\<close>

datatype turn = Leave "outcome res" | Wait pyfloat

definition choose_delay ::
  "'w retry_env \<Rightarrow> retry_policy \<Rightarrow> nat \<Rightarrow> outcome \<Rightarrow> 'w \<Rightarrow> pyfloat res \<times> 'w" where
  "choose_delay env policy attempt out w =
     (case py_pow (rp_multiplier policy) attempt of
        Inl e \<Rightarrow> (Inl e, w)
      | Inr m \<Rightarrow>
          (let capped = py_min (rp_max_backoff policy) (f_mul (rp_initial_backoff policy) m)
           in case rt_retry_after out of
                Some d \<Rightarrow> (Inr d, w)
              | None \<Rightarrow> (let (j, w') = re_jitter env w in (Inr (f_mul j capped), w'))))"

definition retry_turn ::
  "'w retry_env \<Rightarrow> retry_policy \<Rightarrow> pyfloat \<Rightarrow> nat \<Rightarrow> 'w \<Rightarrow> (turn \<times> 'w) option" where
  "retry_turn env policy started attempt w =
     (case re_op env w of
        None \<Rightarrow> None
      | Some (Inl e, w1) \<Rightarrow> Some (Leave (Inl e), w1)
      | Some (Inr out, w1) \<Rightarrow>
          if \<not> is_retryable out then Some (Leave (Inr out), w1)
          else
            (let (now, w2) = re_monotonic env w1; elapsed = f_sub now started
             in if f_le (rp_max_elapsed policy) elapsed then Some (Leave (Inr out), w2)
                else
                  (case choose_delay env policy attempt out w2 of
                     (Inl e, w3) \<Rightarrow> Some (Leave (Inl e), w3)
                   | (Inr delay, w3) \<Rightarrow>
                       if f_less (f_sub (rp_max_elapsed policy) elapsed) delay
                       then Some (Leave (Inr out), w3)
                       else Some (Wait delay, w3))))"

partial_function (option) retry_loop ::
  "'w retry_env \<Rightarrow> retry_policy \<Rightarrow> pyfloat \<Rightarrow> nat \<Rightarrow> 'w \<Rightarrow> (outcome res \<times> 'w) option" where
  "retry_loop env policy started attempt w =
     (case retry_turn env policy started attempt w of
        None \<Rightarrow> None
      | Some (t, w1) \<Rightarrow>
          (case t of
             Leave r \<Rightarrow> Some (r, w1)
           | Wait delay \<Rightarrow>
               (case re_sleep env delay w1 of
                  None \<Rightarrow> None
                | Some (r, w2) \<Rightarrow>
                    (case r of
                       Inl e \<Rightarrow> Some (Inl e, w2)
                     | Inr _ \<Rightarrow> retry_loop env policy started (Suc attempt) w2))))"

definition with_retry :: "'w retry_env \<Rightarrow> retry_policy \<Rightarrow> ('w, outcome) io" where
  "with_retry env policy w =
     (let (started, w1) = re_monotonic env w in retry_loop env policy started 0 w1)"

subsection \<open>The loop as steps\<close>

text \<open>
  A step is a turn that waits, with the sleep that follows it. The loop returns exactly what
  the first turn that ends it, reached by such steps, gives.
\<close>

inductive retry_step ::
  "'w retry_env \<Rightarrow> retry_policy \<Rightarrow> pyfloat \<Rightarrow> nat \<times> 'w \<Rightarrow> nat \<times> 'w \<Rightarrow> bool"
  for env :: "'w retry_env" and policy :: retry_policy and started :: pyfloat where
  wait: "retry_turn env policy started a w = Some (Wait d, w1) \<Longrightarrow>
    re_sleep env d w1 = Some (Inr u, w2) \<Longrightarrow> retry_step env policy started (a, w) (Suc a, w2)"

inductive retry_ends ::
  "'w retry_env \<Rightarrow> retry_policy \<Rightarrow> pyfloat \<Rightarrow> nat \<times> 'w \<Rightarrow> outcome res \<times> 'w \<Rightarrow> bool"
  for env :: "'w retry_env" and policy :: retry_policy and started :: pyfloat where
  leave: "retry_turn env policy started a w = Some (Leave r, w1) \<Longrightarrow>
    retry_ends env policy started (a, w) (r, w1)"
| interrupted: "retry_turn env policy started a w = Some (Wait d, w1) \<Longrightarrow>
    re_sleep env d w1 = Some (Inl e, w2) \<Longrightarrow> retry_ends env policy started (a, w) (Inl e, w2)"

inductive_cases retry_step_elim: "retry_step env policy started (a, w) s"
inductive_cases retry_ends_elim: "retry_ends env policy started (a, w) r"

definition retry_reaches ::
  "'w retry_env \<Rightarrow> retry_policy \<Rightarrow> pyfloat \<Rightarrow> nat \<times> 'w \<Rightarrow> nat \<times> 'w \<Rightarrow> bool" where
  "retry_reaches env policy started = (retry_step env policy started)\<^sup>*\<^sup>*"

lemma retry_loop_returned:
  "retry_loop env policy started a w = Some r \<Longrightarrow>
    \<exists>s. retry_reaches env policy started (a, w) s \<and> retry_ends env policy started s r"
proof (rule retry_loop.raw_induct [where P = "\<lambda>env policy started a w r.
    \<exists>s. retry_reaches env policy started (a, w) s \<and> retry_ends env policy started s r"])
  fix loop :: "'a retry_env \<Rightarrow> retry_policy \<Rightarrow> pyfloat \<Rightarrow> nat \<Rightarrow> 'a \<Rightarrow> (outcome res \<times> 'a) option"
    and env policy started a w r
  assume IH: "\<And>env policy started a w r. loop env policy started a w = Some r \<Longrightarrow>
      \<exists>s. retry_reaches env policy started (a, w) s \<and> retry_ends env policy started s r"
    and run: "(case retry_turn env policy started a w of None \<Rightarrow> None
      | Some (t, w1) \<Rightarrow>
          (case t of Leave r \<Rightarrow> Some (r, w1)
           | Wait delay \<Rightarrow>
               (case re_sleep env delay w1 of None \<Rightarrow> None
                | Some (r, w2) \<Rightarrow> (case r of Inl e \<Rightarrow> Some (Inl e, w2)
                     | Inr _ \<Rightarrow> loop env policy started (Suc a) w2)))) = Some r"
  from run consider (leave) r0 w1 where "retry_turn env policy started a w = Some (Leave r0, w1)"
      "r = (r0, w1)"
    | (interrupted) d w1 e w2 where "retry_turn env policy started a w = Some (Wait d, w1)"
      "re_sleep env d w1 = Some (Inl e, w2)" "r = (Inl e, w2)"
    | (wait) d w1 u w2 where "retry_turn env policy started a w = Some (Wait d, w1)"
      "re_sleep env d w1 = Some (Inr u, w2)" "loop env policy started (Suc a) w2 = Some r"
    by (auto split: option.splits turn.splits sum.splits)
  then show "\<exists>s. retry_reaches env policy started (a, w) s \<and> retry_ends env policy started s r"
  proof cases
    case wait
    from IH [OF wait(3)] obtain s where s: "retry_reaches env policy started (Suc a, w2) s"
      "retry_ends env policy started s r"
      by blast
    from retry_step.wait [OF wait(1,2)] s(1) have "retry_reaches env policy started (a, w) s"
      unfolding retry_reaches_def by (rule converse_rtranclp_into_rtranclp)
    with s(2) show ?thesis by blast
  qed (auto simp: retry_reaches_def intro: retry_ends.intros)
qed

lemma retry_loop_step:
  "retry_step env policy started (a, w) (a', w') \<Longrightarrow>
    retry_loop env policy started a w = retry_loop env policy started a' w'"
  by (erule retry_step_elim, subst retry_loop.simps) simp

lemma retry_loop_ends:
  "retry_ends env policy started (a, w) r \<Longrightarrow> retry_loop env policy started a w = Some r"
  by (erule retry_ends_elim) (subst retry_loop.simps, simp)+

lemma retry_loop_reaches:
  "retry_reaches env policy started s t \<Longrightarrow>
    retry_loop env policy started (fst s) (snd s) = retry_loop env policy started (fst t) (snd t)"
  unfolding retry_reaches_def
  by (induction rule: converse_rtranclp_induct) (auto dest!: retry_loop_step simp: split_paired_all)

theorem retry_loop_iff:
  "retry_loop env policy started a w = Some r \<longleftrightarrow>
    (\<exists>s. retry_reaches env policy started (a, w) s \<and> retry_ends env policy started s r)"
proof
  assume "\<exists>s. retry_reaches env policy started (a, w) s \<and> retry_ends env policy started s r"
  then obtain a' w' where "retry_reaches env policy started (a, w) (a', w')"
    "retry_ends env policy started (a', w') r"
    by auto
  then show "retry_loop env policy started a w = Some r"
    using retry_loop_reaches [of env policy started "(a, w)" "(a', w')"] retry_loop_ends by simp
qed (rule retry_loop_returned)

lemma with_retry_iff:
  "with_retry env policy w = Some r \<longleftrightarrow>
    (\<exists>s. retry_reaches env policy (fst (re_monotonic env w)) (0, snd (re_monotonic env w)) s \<and>
      retry_ends env policy (fst (re_monotonic env w)) s r)"
  by (simp add: with_retry_def Let_def case_prod_unfold retry_loop_iff del: split_paired_Ex)

subsection \<open>What a turn does\<close>

lemma retry_turn_outcome:
  assumes "re_op env w = Some (Inr out, w1)" and "is_retryable out"
    and "re_monotonic env w1 = (now, w2)"
  shows "retry_turn env policy started a w =
    (if f_le (rp_max_elapsed policy) (f_sub now started) then Some (Leave (Inr out), w2)
     else (case choose_delay env policy a out w2 of
         (Inl e, w3) \<Rightarrow> Some (Leave (Inl e), w3)
       | (Inr d, w3) \<Rightarrow>
           if f_less (f_sub (rp_max_elapsed policy) (f_sub now started)) d
           then Some (Leave (Inr out), w3) else Some (Wait d, w3)))"
  using assms by (simp add: retry_turn_def)

lemma retry_turn_cases:
  assumes "retry_turn env policy started a w = Some (t, w')"
  obtains (raised) e where "re_op env w = Some (Inl e, w')" "t = Leave (Inl e)"
  | (final) out where "re_op env w = Some (Inr out, w')" "\<not> is_retryable out" "t = Leave (Inr out)"
  | (expired) out w1 now where "re_op env w = Some (Inr out, w1)" "is_retryable out"
      "re_monotonic env w1 = (now, w')" "f_le (rp_max_elapsed policy) (f_sub now started)"
      "t = Leave (Inr out)"
  | (delay_error) out w1 now w2 e where "re_op env w = Some (Inr out, w1)" "is_retryable out"
      "re_monotonic env w1 = (now, w2)" "choose_delay env policy a out w2 = (Inl e, w')"
      "t = Leave (Inl e)"
  | (too_long) out w1 now w2 d where "re_op env w = Some (Inr out, w1)" "is_retryable out"
      "re_monotonic env w1 = (now, w2)" "choose_delay env policy a out w2 = (Inr d, w')"
      "f_less (f_sub (rp_max_elapsed policy) (f_sub now started)) d" "t = Leave (Inr out)"
  | (waits) out w1 now w2 d where "re_op env w = Some (Inr out, w1)" "is_retryable out"
      "re_monotonic env w1 = (now, w2)" "\<not> f_le (rp_max_elapsed policy) (f_sub now started)"
      "choose_delay env policy a out w2 = (Inr d, w')"
      "\<not> f_less (f_sub (rp_max_elapsed policy) (f_sub now started)) d" "t = Wait d"
proof -
  obtain r w1 where op: "re_op env w = Some (r, w1)"
    using assms by (auto simp: retry_turn_def split: option.splits)
  show thesis
  proof (cases r)
    case (Inl e)
    then show thesis
      using assms op by (intro raised) (auto simp: retry_turn_def)
  next
    case (Inr out)
    show thesis
    proof (cases "is_retryable out")
      case False
      then show thesis
        using assms op Inr by (intro final) (auto simp: retry_turn_def)
    next
      case True
      obtain now w2 where now: "re_monotonic env w1 = (now, w2)" by (cases "re_monotonic env w1")
      obtain d w3 where d: "choose_delay env policy a out w2 = (d, w3)"
        by (cases "choose_delay env policy a out w2")
      note turn = assms [unfolded retry_turn_outcome [OF op [unfolded Inr] True now]]
      show thesis
        using turn op Inr True now d
        by (cases d) (auto split: if_splits intro: expired delay_error too_long waits)
    qed
  qed
qed

subsection \<open>Invariants of the loop\<close>

text \<open>
  Carrying an invariant through the loop: \<open>P\<close> holds before a call of the operation and \<open>Q\<close> after
  it; reading the clock and drawing jitter keep both, and a sleep that returns leads back to \<open>P\<close>.
\<close>

definition loop_invariant :: "'w retry_env \<Rightarrow> ('w \<Rightarrow> bool) \<Rightarrow> ('w \<Rightarrow> bool) \<Rightarrow> bool" where
  "loop_invariant env P Q \<longleftrightarrow>
     (\<forall>w. P w \<longrightarrow> P (snd (re_monotonic env w))) \<and>
     (\<forall>w. Q w \<longrightarrow> Q (snd (re_monotonic env w)) \<and> Q (snd (re_jitter env w))) \<and>
     (\<forall>w r w'. P w \<longrightarrow> re_op env w = Some (r, w') \<longrightarrow> Q w') \<and>
     (\<forall>w d r w'. Q w \<longrightarrow> re_sleep env d w = Some (r, w') \<longrightarrow> Q w' \<and> (\<forall>u. r = Inr u \<longrightarrow> P w'))"

lemma loop_invariantI:
  assumes "\<And>w. P w \<Longrightarrow> P (snd (re_monotonic env w))"
    and "\<And>w. Q w \<Longrightarrow> Q (snd (re_monotonic env w))" and "\<And>w. Q w \<Longrightarrow> Q (snd (re_jitter env w))"
    and "\<And>w r w'. P w \<Longrightarrow> re_op env w = Some (r, w') \<Longrightarrow> Q w'"
    and "\<And>w d s w'. Q w \<Longrightarrow> re_sleep env d w = Some (s, w') \<Longrightarrow> Q w'"
    and "\<And>w d u w'. Q w \<Longrightarrow> re_sleep env d w = Some (Inr u, w') \<Longrightarrow> P w'"
  shows "loop_invariant env P Q"
  using assms unfolding loop_invariant_def by blast

lemma loop_invariantD:
  assumes "loop_invariant env P Q"
  shows "P w \<Longrightarrow> P (snd (re_monotonic env w))"
    and "Q w \<Longrightarrow> Q (snd (re_monotonic env w))" and "Q w \<Longrightarrow> Q (snd (re_jitter env w))"
    and "P w \<Longrightarrow> re_op env w = Some (r, w') \<Longrightarrow> Q w'"
    and "Q w \<Longrightarrow> re_sleep env d w = Some (s, w') \<Longrightarrow> Q w'"
    and "Q w \<Longrightarrow> re_sleep env d w = Some (Inr u, w') \<Longrightarrow> P w'"
  using assms unfolding loop_invariant_def by blast+

lemma invariant_delay:
  assumes "loop_invariant env P Q" and "Q w" and "choose_delay env policy a out w = (r, w')"
  shows "Q w'"
  using loop_invariantD(3) [OF assms(1,2)] assms(2,3)
  by (auto simp: choose_delay_def Let_def split: sum.splits option.splits prod.splits)

lemma invariant_turn:
  assumes "loop_invariant env P Q" and "P w" and "retry_turn env policy started a w = Some (t, w')"
  shows "Q w'"
proof -
  note inv = loop_invariantD [OF assms(1)]
  have op: "re_op env w = Some (r, w1) \<Longrightarrow> Q w1" for r w1
    by (rule inv(4) [OF assms(2)])
  have clock: "re_op env w = Some (r, w1) \<Longrightarrow> re_monotonic env w1 = (now, w2) \<Longrightarrow> Q w2" for r w1 now w2
    using inv(2) [OF op] by (metis snd_conv)
  from assms(3) show ?thesis
    by (cases rule: retry_turn_cases) (auto intro: op clock invariant_delay [OF assms(1)])
qed

lemma invariant_reaches:
  assumes "loop_invariant env P Q" and "P w"
    and "retry_reaches env policy started (a, w) (a', w')"
  shows "P w'"
  using assms(3,2) unfolding retry_reaches_def
proof (induction "(a, w)" arbitrary: a w rule: converse_rtranclp_induct)
  case (step s)
  obtain b v where s: "s = (b, v)" by (cases s)
  obtain d u w1 where "retry_turn env policy started a w = Some (Wait d, w1)"
    "re_sleep env d w1 = Some (Inr u, v)"
    using step.hyps(1) [unfolded s] by (auto elim: retry_step_elim)
  then have "P v"
    using loop_invariantD(6) [OF assms(1) invariant_turn [OF assms(1) step.prems]] by blast
  with step.hyps(3) [OF s] show ?case .
qed

lemma with_retry_invariant:
  assumes "loop_invariant env P Q" and "P w" and "with_retry env policy w = Some (r, w')"
  shows "Q w'"
proof -
  obtain a wa where "retry_reaches env policy (fst (re_monotonic env w))
      (0, snd (re_monotonic env w)) (a, wa)"
    and ends: "retry_ends env policy (fst (re_monotonic env w)) (a, wa) (r, w')"
    using assms(3) unfolding with_retry_iff by (metis surj_pair)
  then have "P wa"
    using invariant_reaches [OF assms(1)] loop_invariantD(1) [OF assms(1,2)] by blast
  with ends show ?thesis
    by (auto elim!: retry_ends_elim dest: invariant_turn [OF assms(1)] loop_invariantD(5) [OF assms(1)])
qed

subsection \<open>Properties of the loop\<close>

text \<open>The budget is spent, or the next delay would outlast it.\<close>

definition gives_up ::
  "'w retry_env \<Rightarrow> retry_policy \<Rightarrow> pyfloat \<Rightarrow> nat \<Rightarrow> outcome \<Rightarrow> 'w \<Rightarrow> bool" where
  "gives_up env policy started a out w \<longleftrightarrow>
     (let (now, w2) = re_monotonic env w; elapsed = f_sub now started
      in f_le (rp_max_elapsed policy) elapsed \<or>
         (case fst (choose_delay env policy a out w2) of
            Inl _ \<Rightarrow> False
          | Inr d \<Rightarrow> f_less (f_sub (rp_max_elapsed policy) elapsed) d))"

text \<open>
  C4. What the retry loop returns: the outcome comes from the last call of the operation; a
  retryable one is given back only when the budget is spent, or when the chosen delay would
  outlast what is left of it. So a delivered or permanently failed export is never retried.
\<close>

theorem with_retry_result:
  assumes "with_retry env policy w = Some (Inr out, w')"
  shows "\<exists>a wa wb. retry_reaches env policy (fst (re_monotonic env w))
      (0, snd (re_monotonic env w)) (a, wa) \<and>
    re_op env wa = Some (Inr out, wb) \<and>
    (is_retryable out \<longrightarrow> gives_up env policy (fst (re_monotonic env w)) a out wb)"
proof -
  let ?s = "fst (re_monotonic env w)"
  obtain a wa where reach: "retry_reaches env policy ?s (0, snd (re_monotonic env w)) (a, wa)"
    and ends: "retry_ends env policy ?s (a, wa) (Inr out, w')"
    using assms unfolding with_retry_iff by (metis surj_pair)
  from ends have turn: "retry_turn env policy ?s a wa = Some (Leave (Inr out), w')"
    by (auto elim: retry_ends_elim)
  then have "\<exists>wb. re_op env wa = Some (Inr out, wb) \<and>
      (is_retryable out \<longrightarrow> gives_up env policy ?s a out wb)"
    by (rule retry_turn_cases) (auto simp: gives_up_def)
  with reach show ?thesis by blast
qed

definition one_shot :: "outcome \<Rightarrow> unit retry_env" where
  "one_shot out = \<lparr>re_op = returnE out, re_sleep = (\<lambda>_. returnE ()),
     re_monotonic = Pair (Fin 0), re_jitter = Pair (Fin 0)\<rparr>"

definition default_policy :: retry_policy where
  "default_policy = policy_from_config (OTLPConfig (S ''http://localhost:4318''))"

lemma default_policy_simps [simp]:
  "rp_initial_backoff default_policy = Fin 1" "rp_max_backoff default_policy = Fin 30"
  "rp_multiplier default_policy = Fin (3 / 2)" "rp_max_elapsed default_policy = Fin 90"
  by (simp_all add: default_policy_def policy_from_config_def OTLPConfig_def)

lemma one_shot_run: "\<not> is_retryable out \<Longrightarrow> with_retry (one_shot out) default_policy () = Some (Inr out, ())"
  by (simp add: with_retry_def one_shot_def retry_loop.simps retry_turn_def)

lemma with_retry_result_witness:
  "\<exists>a wb. re_op (one_shot Success) wb = Some (Inr Success, ()) \<and>
     retry_reaches (one_shot Success) default_policy (Fin 0) (0, ()) (a, wb)"
  using with_retry_result [OF one_shot_run [of Success]] by (auto simp: one_shot_def)

text \<open>
  Every sleep respects the server and the budget: the loop sleeps only after a retryable
  outcome, before the budget is spent, for no longer than what is left of it, and for exactly
  the delay the server asked for when it asked for one.
\<close>

theorem retry_wait_respects:
  assumes "retry_turn env policy started a w = Some (Wait d, w')"
  shows "\<exists>out w1. re_op env w = Some (Inr out, w1) \<and> is_retryable out \<and>
    (let elapsed = f_sub (fst (re_monotonic env w1)) started
     in \<not> f_le (rp_max_elapsed policy) elapsed \<and>
        \<not> f_less (f_sub (rp_max_elapsed policy) elapsed) d) \<and>
    (case rt_retry_after out of None \<Rightarrow> True | Some asked \<Rightarrow> d = asked)"
  using assms
proof (cases rule: retry_turn_cases)
  case (waits out w1 now w2 d')
  then show ?thesis
    by (auto simp: choose_delay_def Let_def split: sum.splits option.splits)
qed auto

definition throttled :: "rat \<Rightarrow> unit retry_env" where
  "throttled seconds = (one_shot Success)
     \<lparr>re_op := returnE (Retryable (Some 429) [] (Some (Fin seconds)))\<rparr>"

lemma retry_wait_respects_witness:
  "\<not> f_le (Fin 90) (Fin 0) \<and> retry_turn (throttled 5) default_policy (Fin 0) 0 () = Some (Wait (Fin 5), ())"
proof -
  have "f_sub (Fin 0) (Fin 0) = Fin 0"
    using overflow_bound_gt_1 by (intro f_sub_Fin [of 0 0, simplified]) simp
  moreover have "f_sub (Fin 90) (Fin 0) = Fin 90 \<or> f_sub (Fin 90) (Fin 0) = PInf"
    by (simp add: f_sub_def f_add_def f_fin_def overflow_bound_def)
  ultimately have run: "retry_turn (throttled 5) default_policy (Fin 0) 0 () = Some (Wait (Fin 5), ())"
    by (auto simp: retry_turn_def throttled_def one_shot_def choose_delay_def py_pow_def f_less_def)
  show ?thesis
    using retry_wait_respects [OF run] run by (auto simp: throttled_def one_shot_def Let_def)
qed

subsection \<open>Termination and bounds\<close>

text \<open>A clock in which every call of the operation takes at least \<open>delta\<close> seconds.\<close>

definition ticking :: "'w retry_env \<Rightarrow> ('w \<Rightarrow> rat) \<Rightarrow> rat \<Rightarrow> bool" where
  "ticking env clock delta \<longleftrightarrow> 0 < delta \<and>
     (\<forall>w. re_monotonic env w = (Fin (clock w), w)) \<and>
     (\<forall>w. \<exists>r w1. re_op env w = Some (r, w1) \<and> clock w + delta \<le> clock w1) \<and>
     (\<forall>d w. \<exists>r w1. re_sleep env d w = Some (r, w1) \<and> clock w \<le> clock w1) \<and>
     (\<forall>w. clock w \<le> clock (snd (re_jitter env w)))"

lemma tickingD:
  assumes "ticking env clock delta"
  shows "0 < delta" and "re_monotonic env w = (Fin (clock w), w)"
    and "\<exists>r w1. re_op env w = Some (r, w1) \<and> clock w + delta \<le> clock w1"
    and "\<exists>r w1. re_sleep env d w = Some (r, w1) \<and> clock w \<le> clock w1"
    and "clock w \<le> clock (snd (re_jitter env w))"
  using assms by (simp_all add: ticking_def)

lemma op_advances: "ticking env clock delta \<Longrightarrow> re_op env w = Some (r, w1) \<Longrightarrow> clock w + delta \<le> clock w1"
  using tickingD(3) [of env clock delta w] by auto

lemma sleep_advances: "ticking env clock delta \<Longrightarrow> re_sleep env d w = Some (r, w1) \<Longrightarrow> clock w \<le> clock w1"
  using tickingD(4) [of env clock delta d w] by auto

lemma delay_advances:
  "ticking env clock delta \<Longrightarrow> choose_delay env policy a out w = (r, w1) \<Longrightarrow> clock w \<le> clock w1"
  using tickingD(5) [of env clock delta w]
  by (auto simp: choose_delay_def Let_def split: sum.splits option.splits prod.splits)

lemma turn_returns:
  assumes "ticking env clock delta"
  shows "\<exists>t w1. retry_turn env policy started a w = Some (t, w1)"
proof -
  obtain r w1 where "re_op env w = Some (r, w1)"
    using tickingD(3) [OF assms] by blast
  then show ?thesis
    by (cases r) (auto simp: retry_turn_def Let_def split: prod.splits sum.splits)
qed

lemma elapsed_spent: "0 < m \<Longrightarrow> m \<le> p - q \<Longrightarrow> f_le (Fin m) (f_sub (Fin p) (Fin q))"
  using overflow_bound_gt_1 by (auto simp: f_sub_def f_add_def f_fin_def f_le_def)

lemma step_bounds:
  assumes tick: "ticking env clock delta" and m: "rp_max_elapsed policy = Fin m" "0 < m"
    and step: "retry_step env policy (Fin s) (a, w) (a', w')"
  shows "a' = Suc a \<and> clock w + delta \<le> clock w' \<and> clock w + delta - s < m"
proof -
  obtain d u w1 where turn: "retry_turn env policy (Fin s) a w = Some (Wait d, w1)"
    and sleep: "re_sleep env d w1 = Some (Inr u, w')" and a': "a' = Suc a"
    using step by (auto elim: retry_step_elim)
  from turn show ?thesis
  proof (cases rule: retry_turn_cases)
    case (waits out w0 now w2 d')
    then have "\<not> f_le (Fin m) (f_sub (Fin (clock w0)) (Fin s))"
      using m by (auto simp: tickingD(2) [OF tick])
    then have "clock w0 - s < m"
      using elapsed_spent [OF m(2), of "clock w0" s] by (meson not_le)
    moreover have "clock w + delta \<le> clock w0"
      using waits op_advances [OF tick] by blast
    moreover have "clock w0 \<le> clock w'"
      using waits delay_advances [OF tick waits(5)] sleep_advances [OF tick sleep] by (simp add: tickingD(2) [OF tick])
    ultimately show ?thesis
      using a' by simp
  qed auto
qed

lemma reaches_bounds:
  assumes tick: "ticking env clock delta" and m: "rp_max_elapsed policy = Fin m" "0 < m"
    and reach: "retry_reaches env policy (Fin s) (0, w) (a, wa)" and "s \<le> clock w"
  shows "s + of_nat a * delta \<le> clock wa \<and> (a = 0 \<or> of_nat a * delta < m)"
  using reach unfolding retry_reaches_def
proof (induction "(a, wa)" arbitrary: a wa rule: rtranclp_induct)
  case base
  then show ?case using assms(5) by simp
next
  case (step y)
  obtain b wb where y: "y = (b, wb)" by (cases y)
  from step.hyps(3) [OF y] step_bounds [OF tick m step.hyps(2) [unfolded y]]
  show ?case by (auto simp: algebra_simps)
qed

lemma loop_returns:
  assumes tick: "ticking env clock delta" and m: "rp_max_elapsed policy = Fin m" "0 < m"
  shows "s + m \<le> clock w + of_nat n * delta \<Longrightarrow>
    \<exists>r. retry_loop env policy (Fin s) a w = Some r"
proof (induction n arbitrary: a w)
  case 0
  obtain t w1 where turn: "retry_turn env policy (Fin s) a w = Some (t, w1)"
    using turn_returns [OF tick] by blast
  then have "\<exists>r. t = Leave r"
  proof (cases rule: retry_turn_cases)
    case (waits out w0 now w2 d)
    then have "\<not> f_le (Fin m) (f_sub (Fin (clock w0)) (Fin s))"
      using m by (auto simp: tickingD(2) [OF tick])
    moreover have "m \<le> clock w0 - s"
      using op_advances [OF tick waits(1)] 0 tickingD(1) [OF tick] by simp
    ultimately show ?thesis
      using elapsed_spent [OF m(2)] by blast
  qed auto
  with turn show ?case
    by (auto simp: retry_loop.simps)
next
  case (Suc n)
  obtain t w1 where turn: "retry_turn env policy (Fin s) a w = Some (t, w1)"
    using turn_returns [OF tick] by blast
  show ?case
  proof (cases t)
    case (Leave r)
    with turn show ?thesis by (auto simp: retry_loop.simps)
  next
    case (Wait d)
    obtain r w2 where sleep: "re_sleep env d w1 = Some (r, w2)"
      using tickingD(4) [OF tick] by blast
    show ?thesis
    proof (cases r)
      case (Inl e)
      with turn sleep Wait show ?thesis by (auto simp: retry_loop.simps)
    next
      case (Inr u)
      then have step: "retry_step env policy (Fin s) (a, w) (Suc a, w2)"
        using turn sleep Wait by (auto intro: retry_step.wait)
      then have "s + m \<le> clock w2 + of_nat n * delta"
        using step_bounds [OF tick m step] Suc.prems by (auto simp: algebra_simps)
      then show ?thesis
        using Suc.IH retry_loop_step [OF step] by simp
    qed
  qed
qed

lemma with_retry_returns:
  assumes tick: "ticking env clock delta" and m: "rp_max_elapsed policy = Fin m" "0 < m"
  shows "\<exists>r w'. with_retry env policy w = Some (r, w')"
proof -
  obtain n where "m / delta \<le> of_nat n"
    using real_arch_simple by blast
  then have "clock w + m \<le> clock w + of_nat n * delta"
    using tickingD(1) [OF tick] by (simp add: pos_divide_le_eq)
  then show ?thesis
    using loop_returns [OF tick m] by (auto simp: with_retry_def tickingD(2) [OF tick])
qed

text \<open>
  C19. The retry loop returns: if every call of the operation returns and takes at least some
  fixed time on the clock, and sleeps return, then \<^verbatim>\<open>with_retry\<close> with a finite positive budget
  returns an outcome or raises, and it sleeps fewer than budget-over-that-time times.
\<close>

theorem with_retry_terminates:
  assumes "ticking env clock delta" and "rp_max_elapsed policy = Fin m" and "0 < m"
  shows "(\<exists>r w'. with_retry env policy w = Some (r, w')) \<and>
    (\<forall>a wa. retry_reaches env policy (Fin (clock w)) (0, w) (a, wa) \<longrightarrow> a = 0 \<or> of_nat a * delta < m)"
  using with_retry_returns [OF assms] reaches_bounds [OF assms] by blast

text \<open>A world of one clock: an operation that is always throttled and takes a second.\<close>

definition slow_server :: "rat retry_env" where
  "slow_server = \<lparr>re_op = (\<lambda>t. Some (Inr (Retryable (Some 503) [] None), t + 1)),
     re_sleep = (\<lambda>d t. Some (Inr (), t + f_val (py_max (Fin 0) d))),
     re_monotonic = (\<lambda>t. (Fin t, t)), re_jitter = Pair (Fin (1 / 2))\<rparr>"

lemma slow_server_ticks: "ticking slow_server (\<lambda>t. t) 1"
proof -
  have "0 \<le> f_val (py_max (Fin 0) d)" for d
    by (cases d) (auto simp: py_max_def f_less_def)
  then show ?thesis
    by (simp add: ticking_def slow_server_def)
qed

lemma with_retry_terminates_witness:
  "\<exists>r t. with_retry slow_server default_policy 0 = Some (r, t)"
  using with_retry_terminates [OF slow_server_ticks, of default_policy 90 0] by simp

text \<open>
  The exponential backoff is computed before it is known to be needed, and \<^verbatim>\<open>float ** int\<close> raises
  instead of returning an infinity.
\<close>

lemma bernoulli: "0 \<le> (d :: rat) \<Longrightarrow> 1 + of_nat n * d \<le> (1 + d) ^ n"
proof (induction n)
  case (Suc n)
  have "1 + of_nat (Suc n) * d \<le> (1 + of_nat n * d) * (1 + d)"
    using Suc.prems by (simp add: algebra_simps)
  also have "\<dots> \<le> (1 + d) ^ n * (1 + d)"
    using Suc by (intro mult_right_mono) auto
  finally show ?case by (simp add: mult.commute)
qed simp

lemma power_unbounded: "1 < (q :: rat) \<Longrightarrow> \<exists>n. x \<le> q ^ n"
proof -
  assume q: "1 < q"
  obtain n where n: "x / (q - 1) \<le> of_nat n"
    using real_arch_simple by blast
  then have "x \<le> of_nat n * (q - 1)"
    using q by (simp add: pos_divide_le_eq)
  also have "\<dots> \<le> q ^ n"
    using bernoulli [of "q - 1" n] q by simp
  finally show ?thesis by auto
qed

definition always_throttled :: "'w retry_env \<Rightarrow> bool" where
  "always_throttled env \<longleftrightarrow> (\<forall>w. \<exists>st msg t. re_op env w = Some (Inr (Retryable st msg (Some (Fin 0))), w) \<and>
     re_monotonic env w = (Fin t, w)) \<and>
     (\<forall>w v. fst (re_monotonic env w) = fst (re_monotonic env v)) \<and>
     (\<forall>d w. re_sleep env d w = Some (Inr (), w))"

lemma throttled_turn:
  assumes "always_throttled env" and "rp_max_elapsed policy = Fin m" "0 < m"
    and "started = fst (re_monotonic env w)"
  shows "retry_turn env policy started a w =
    (case py_pow (rp_multiplier policy) a of Inl e \<Rightarrow> Some (Leave (Inl e), w)
     | Inr _ \<Rightarrow> Some (Wait (Fin 0), w))"
proof -
  obtain st msg t where op: "re_op env w = Some (Inr (Retryable st msg (Some (Fin 0))), w)"
    and now: "re_monotonic env w = (Fin t, w)"
    using assms(1) unfolding always_throttled_def by blast
  have sub: "f_sub (Fin t) (Fin t) = Fin 0"
    using f_sub_Fin [of t t] overflow_bound_gt_1 by simp
  have "\<not> f_less (f_sub (Fin m) (Fin 0)) (Fin 0)"
    using assms(3) overflow_bound_gt_1 by (auto simp: f_sub_def f_add_def f_fin_def f_less_def)
  then show ?thesis
    using assms(2-4) op now sub
    by (auto simp: retry_turn_def choose_delay_def f_le_def Let_def split: sum.splits)
qed

lemma throttled_loop:
  assumes "always_throttled env" and "rp_max_elapsed policy = Fin m" "0 < m"
    and "rp_multiplier policy = Fin q" "1 < q" and "started = fst (re_monotonic env w)"
  shows "overflow_bound \<le> q ^ (a + n) \<Longrightarrow>
    \<exists>msg. retry_loop env policy started a w = Some (Inl (OverflowError msg), w)"
proof (induction n arbitrary: a)
  case 0
  then have "overflow_bound \<le> \<bar>q ^ a\<bar>" by simp
  moreover have "a \<noteq> 0"
    using 0 overflow_bound_gt_1 by (cases a) auto
  ultimately show ?case
    using throttled_turn [OF assms(1-3,6), of a] assms(4)
    by (auto simp: retry_loop.simps py_pow_def)
next
  case (Suc n)
  show ?case
  proof (cases "py_pow (Fin q) a")
    case (Inl e)
    then have "\<exists>msg. e = OverflowError msg"
      by (auto simp: py_pow_def split: if_splits)
    then show ?thesis
      using throttled_turn [OF assms(1-3,6), of a] assms(4) Inl by (auto simp: retry_loop.simps)
  next
    case (Inr x)
    have "re_sleep env (Fin 0) w = Some (Inr (), w)"
      using assms(1) by (simp add: always_throttled_def)
    then show ?thesis
      using throttled_turn [OF assms(1-3,6), of a] assms(4) Inr Suc.IH [of "Suc a"] Suc.prems
      by (simp add: retry_loop.simps [of env policy started a])
  qed
qed

text \<open>
  C38. A defect: against a server that keeps answering \<^verbatim>\<open>Retry-After: 0\<close> faster than the clock moves,
  the retry loop does not end with the server's outcome but raises \<^verbatim>\<open>OverflowError\<close>, once the
  multiplier's power leaves the range of a float, although the computed backoff is not used.
\<close>

theorem with_retry_overflows:
  assumes "always_throttled env" and "rp_max_elapsed policy = Fin m" "0 < m"
    and "rp_multiplier policy = Fin q" "1 < q"
  shows "\<exists>msg. with_retry env policy w = Some (Inl (OverflowError msg), w)"
proof -
  obtain n where "overflow_bound \<le> q ^ n"
    using power_unbounded [OF assms(5)] by blast
  moreover have "snd (re_monotonic env w) = w"
    using assms(1) by (metis always_throttled_def snd_conv)
  ultimately show ?thesis
    using throttled_loop [OF assms refl, of 0 n w] by (simp add: with_retry_def Let_def case_prod_unfold)
qed

lemma with_retry_overflows_witness:
  "\<exists>msg. with_retry (throttled 0) default_policy () = Some (Inl (OverflowError msg), ())"
  by (rule with_retry_overflows [of _ _ 90 "3 / 2"])
    (simp_all add: always_throttled_def throttled_def one_shot_def)

subsection \<open>Backoff and \<open>Retry-After\<close>\<close>

lemma f_fin_pos: "0 \<le> q \<Longrightarrow> f_fin False q = (if overflow_bound \<le> q then PInf else Fin q)"
  using overflow_bound_gt_1 by (auto simp: f_fin_def)

text \<open>
  Full jitter is bounded: with a finite non-negative policy, a delay the loop computes itself
  (the server named none) is between zero and the policy's maximum backoff, whatever the number
  of attempts, and there is no computed delay at all once the power overflows.
\<close>

theorem computed_delay_bounded:
  assumes "rp_initial_backoff policy = Fin i" "0 \<le> i" and "rp_max_backoff policy = Fin b" "0 \<le> b"
    and "b < overflow_bound" and "rp_multiplier policy = Fin q" "0 \<le> q"
    and "re_jitter env w = (Fin j, w')" "0 \<le> j" "j \<le> 1"
  shows "case choose_delay env policy a (Retryable st msg None) w of
      (Inr d, _) \<Rightarrow> (\<exists>x. d = Fin x \<and> 0 \<le> x \<and> x \<le> b)
    | (Inl e, _) \<Rightarrow> overflow_bound \<le> q ^ a"
proof (cases "py_pow (Fin q) a")
  case (Inl e)
  then show ?thesis
    using assms by (auto simp: choose_delay_def py_pow_def split: if_splits)
next
  case (Inr m)
  then obtain x where m: "m = Fin x" "0 \<le> x"
    using assms(7) by (auto simp: py_pow_def split: if_splits)
  have prod: "f_mul (Fin i) (Fin x) = (if overflow_bound \<le> i * x then PInf else Fin (i * x))"
    using assms(2) m(2) by (simp add: f_mul_def f_fin_pos)
  let ?capped = "py_min (Fin b) (f_mul (Fin i) m)"
  have "?capped = (if overflow_bound \<le> i * x \<or> b \<le> i * x then Fin b else Fin (i * x))"
    unfolding m prod by (auto simp: py_min_def f_less_def)
  moreover have "0 \<le> i * x"
    using assms(2) m(2) by simp
  ultimately obtain y where y: "?capped = Fin y" "0 \<le> y" "y \<le> b"
    using assms(4) by (auto split: if_splits)
  have "j * y \<le> b"
    using assms(9,10) y(2,3) by (metis dual_order.trans mult_left_le_one_le)
  then have "f_mul (Fin j) (Fin y) = Fin (j * y) \<and> 0 \<le> j * y"
    using assms(5,9) y by (simp add: f_mul_Fin)
  then show ?thesis
    using \<open>j * y \<le> b\<close> assms Inr y by (simp add: choose_delay_def Let_def)
qed

lemma computed_delay_bounded_witness:
  "case choose_delay slow_server default_policy 2 (Retryable None [] None) 7 of
      (Inr d, _) \<Rightarrow> (\<exists>x. d = Fin x \<and> 0 \<le> x \<and> x \<le> 30)
    | (Inl e, _) \<Rightarrow> overflow_bound \<le> (3 / 2) ^ 2"
  by (rule computed_delay_bounded [where i = 1 and j = "1 / 2" and w' = 7])
    (simp_all add: slow_server_def less_overflow_bound)

subsection \<open>Retry-After\<close>

lemma retry_after_date:
  assumes "day_initial (hd text)" and "text \<noteq> []" and "strip text = text"
    and "parsedate_to_datetime text = Inr d"
  shows "parse_retry_after local text now =
    bindR (timestamp local d) (\<lambda>s. Inr (Some (py_max (Fin 0) (f_sub s now))))"
  using assms day_is_no_number [OF assms(1,2)] by (simp add: parse_retry_after_def)

lemma delay_until:
  assumes "\<bar>p\<bar> \<le> 2 ^ 52" and "\<bar>q\<bar> < 2 ^ 52"
  shows "py_max (Fin 0) (f_sub (Fin q) (Fin p)) = Fin (max 0 (q - p))"
proof -
  have "\<bar>q - p\<bar> < overflow_bound"
    using assms by (intro less_overflow_bound) (simp add: abs_if split: if_splits)
  then show ?thesis
    by (simp add: f_sub_Fin py_max_def f_less_def max_def)
qed

lemma http_date_delay:
  assumes "date_of n = (y, m, d)" and "y \<le> 9999" and time: "valid_time h mi s" and "\<bar>now\<bar> \<le> 2 ^ 52"
    and "\<bar>off\<bar> \<le> 86400"
  shows "bindR (timestamp local \<lparr>pd_year = y, pd_month = m, pd_day = d, pd_hour = h, pd_minute = mi,
      pd_second = s, pd_offset = Some off\<rparr>) (\<lambda>s. Inr (Some (py_max (Fin 0) (f_sub s (Fin now))))) =
    Inr (Some (Fin (max 0 (of_nat n * 86400 + of_int (h * 3600 + mi * 60 + s) - of_int off - now))))"
proof -
  let ?secs = "int n * 86400 + (h * 3600 + mi * 60 + s) - off"
  have day: "epoch_day y m d = int n" "int n \<le> 5000000"
    using date_of_epoch_day [OF assms(1)] date_of_bound [OF assms(1,2)] by simp_all
  have "\<bar>?secs\<bar> < 2 ^ 52"
    using day(2) time assms(5) by (simp add: valid_time_def abs_if split: if_splits)
  then have "\<bar>of_int ?secs :: rat\<bar> < of_int (2 ^ 52)"
    by (simp only: of_int_abs [symmetric] of_int_less_iff)
  then have "py_max (Fin 0) (f_sub (Fin (of_int ?secs)) (Fin now)) = Fin (max 0 (of_int ?secs - now))"
    using assms(4) by (intro delay_until) simp_all
  then show ?thesis
    by (simp add: timestamp_def utc_seconds_def day algebra_simps)
qed

lemma http_date_text:
  assumes "text = w @ t" and "day_initial (hd w)" and "w \<noteq> []" and "last t = 84 \<or> is_digit (last t)" and "t \<noteq> []"
  shows "day_initial (hd text)" "text \<noteq> []" "strip text = text"
  using assms
  by (auto intro!: strip_ends simp: day_initial_def is_space_def is_digit_def)

lemma imf_fixdate_text:
  assumes "wd \<in> set day_abbrs"
  shows "day_initial (hd (imf_fixdate wd y m d h mi s))" "imf_fixdate wd y m d h mi s \<noteq> []"
    "strip (imf_fixdate wd y m d h mi s) = imf_fixdate wd y m d h mi s"
proof -
  have "imf_fixdate wd y m d h mi s =
      wd @ 44 # 32 # two d @ 32 # month_abbr m @ 32 # four y @ 32 # clock_text h mi s @ 32 # S ''GMT''"
    by (simp add: imf_fixdate_def)
  from http_date_text [OF this] day_abbr_cases [OF assms]
  show "day_initial (hd (imf_fixdate wd y m d h mi s))" "imf_fixdate wd y m d h mi s \<noteq> []"
    "strip (imf_fixdate wd y m d h mi s) = imf_fixdate wd y m d h mi s"
    by (simp_all add: str_simps)
qed

lemma rfc850_date_text:
  assumes "wd \<in> set day_names"
  shows "day_initial (hd (rfc850_date wd y m d h mi s))" "rfc850_date wd y m d h mi s \<noteq> []"
    "strip (rfc850_date wd y m d h mi s) = rfc850_date wd y m d h mi s"
proof -
  have "rfc850_date wd y m d h mi s =
      wd @ 44 # 32 # two d @ 45 # month_abbr m @ 45 # two (y mod 100) @ 32 # clock_text h mi s @ 32 # S ''GMT''"
    by (simp add: rfc850_date_def)
  from http_date_text [OF this] day_name_cases [OF assms]
  show "day_initial (hd (rfc850_date wd y m d h mi s))" "rfc850_date wd y m d h mi s \<noteq> []"
    "strip (rfc850_date wd y m d h mi s) = rfc850_date wd y m d h mi s"
    by (simp_all add: str_simps)
qed

lemma asctime_date_text:
  assumes "wd \<in> set day_abbrs" and "0 \<le> y" "y \<le> 9999"
  shows "day_initial (hd (asctime_date wd y m d h mi s))" "asctime_date wd y m d h mi s \<noteq> []"
    "strip (asctime_date wd y m d h mi s) = asctime_date wd y m d h mi s"
proof -
  have four: "is_digit (last (four y))" "four y \<noteq> []"
    using four_digits [of y] assms(2,3) by (auto simp: four_def two_def split: if_splits)
  have "asctime_date wd y m d h mi s =
      wd @ 32 # month_abbr m @ 32 # (if d < 10 then [32, 48 + nat d] else two d) @ 32 # clock_text h mi s @ 32 # four y"
    by (simp only: asctime_date_def)
  from http_date_text [OF this] day_abbr_cases [OF assms(1)] four
  show "day_initial (hd (asctime_date wd y m d h mi s))" "asctime_date wd y m d h mi s \<noteq> []"
    "strip (asctime_date wd y m d h mi s) = asctime_date wd y m d h mi s"
    by simp_all
qed

text \<open>The time left until a time of day, \<open>n\<close> days after the first of January 1970.\<close>

definition time_left :: "nat \<Rightarrow> int \<Rightarrow> int \<Rightarrow> int \<Rightarrow> rat \<Rightarrow> rat" where
  "time_left n h mi s now = of_nat n * 86400 + of_int (h * 3600 + mi * 60 + s) - now"

text \<open>A machine whose clock is \<open>zone\<close> seconds ahead of GMT.\<close>

definition zone_clock :: "int \<Rightarrow> parsed_date \<Rightarrow> pyfloat res" where
  "zone_clock zone when = Inr (Fin (of_int (utc_seconds when - zone)))"

lemma imf_fixdate_delay:
  assumes "date_of n = (y, m, d)" and "y \<le> 9999" and "valid_time h mi s" and "\<bar>now\<bar> \<le> 2 ^ 52"
    and "wd \<in> set day_abbrs"
  shows "parse_retry_after local (imf_fixdate wd y m d h mi s) (Fin now) =
    Inr (Some (Fin (max 0 (time_left n h mi s now))))"
proof -
  have date: "valid_date y m d" "1970 \<le> y"
    using date_of_epoch_day [OF assms(1)] by simp_all
  show ?thesis
    using date(2) assms(2) day_abbr_cases [OF assms(5)] http_date_delay [OF assms(1-4), of 0, simplified]
      retry_after_date [OF imf_fixdate_text [OF assms(5)] http_dates_read(1) [OF date(1) assms(3)]]
    by (simp add: time_left_def)
qed

lemma rfc850_date_delay:
  assumes "date_of n = (y, m, d)" and "y \<le> 2068" and "valid_time h mi s" and "\<bar>now\<bar> \<le> 2 ^ 52"
    and "wd \<in> set day_names"
  shows "parse_retry_after local (rfc850_date wd y m d h mi s) (Fin now) =
    Inr (Some (Fin (max 0 (time_left n h mi s now))))"
proof -
  have date: "valid_date y m d" "1970 \<le> y" "y \<le> 9999"
    using date_of_epoch_day [OF assms(1)] assms(2) by simp_all
  show ?thesis
    using date(2) assms(2) day_name_cases [OF assms(5)] http_date_delay [OF assms(1) date(3) assms(3,4), of 0, simplified]
      retry_after_date [OF rfc850_date_text [OF assms(5)] http_dates_read(2) [OF date(1) assms(3)]]
    by (simp add: time_left_def)
qed

lemma asctime_date_delay:
  assumes "date_of n = (y, m, d)" and "y \<le> 9999" and "valid_time h mi s" and "\<bar>now\<bar> \<le> 2 ^ 52"
    and "wd \<in> set day_abbrs" and "\<bar>zone\<bar> \<le> 86400"
  shows "parse_retry_after (zone_clock zone) (asctime_date wd y m d h mi s) (Fin now) =
    Inr (Some (Fin (max 0 (time_left n h mi s now - of_int zone))))"
proof -
  have date: "valid_date y m d" "1970 \<le> y"
    using date_of_epoch_day [OF assms(1)] by simp_all
  show ?thesis
    using date(2) assms(2) http_dates_read(3) [OF date(1) assms(3,5)]
      http_date_delay [OF assms(1-4,6), of "\<lambda>_. Inr (Fin 0)"] retry_after_date [OF asctime_date_text [OF assms(5)]]
    by (simp add: timestamp_def utc_seconds_def zone_clock_def time_left_def algebra_simps)
qed

text \<open>
  C33. A \<^verbatim>\<open>Retry-After\<close> date, in each of the forms of RFC 9110, for the day \<open>n\<close> days after the first of
  January 1970. Written as a server must write it, or in the RFC 850 form of old, it is read as the
  instant it names: the delay is the time left until then, or none when it is past. The third form,
  \<^verbatim>\<open>asctime\<close>'s, names no zone and means GMT as well, but is read in the machine's local time: where that
  is \<open>zone\<close> seconds ahead of GMT the retry comes that much early.
\<close>

theorem retry_after_http_date:
  assumes "date_of n = (y, m, d)" and "y \<le> 9999" and "valid_time h mi s" and "\<bar>now\<bar> \<le> 2 ^ 52"
    and "wd \<in> set day_abbrs" and "weekday \<in> set day_names" and "\<bar>zone\<bar> \<le> 86400"
  shows "parse_retry_after (zone_clock zone) (imf_fixdate wd y m d h mi s) (Fin now) =
      Inr (Some (Fin (max 0 (time_left n h mi s now)))) \<and>
    (y \<le> 2068 \<longrightarrow> parse_retry_after (zone_clock zone) (rfc850_date weekday y m d h mi s) (Fin now) =
      Inr (Some (Fin (max 0 (time_left n h mi s now))))) \<and>
    parse_retry_after (zone_clock zone) (asctime_date wd y m d h mi s) (Fin now) =
      Inr (Some (Fin (max 0 (time_left n h mi s now - of_int zone))))"
  using imf_fixdate_delay [OF assms(1-5)] rfc850_date_delay [OF assms(1) _ assms(3,4,6)]
    asctime_date_delay [OF assms(1-5,7)]
  by blast

lemma retry_after_http_date_witness:
  "parse_retry_after (zone_clock 3600) (S ''Fri, 02 Jan 1970 00:01:00 GMT'') (Fin 86400) = Inr (Some (Fin 60)) \<and>
   parse_retry_after (zone_clock 3600) (S ''Friday, 02-Jan-70 00:01:00 GMT'') (Fin 86400) = Inr (Some (Fin 60)) \<and>
   parse_retry_after (zone_clock 3600) (S ''Fri Jan  2 00:01:00 1970'') (Fin 86400) = Inr (Some (Fin 0))"
proof -
  have "date_of 1 = (1970, 1, 2)"
    by (simp add: date_of_def days_in_month_def)
  moreover have "imf_fixdate (S ''Fri'') 1970 1 2 0 1 0 = S ''Fri, 02 Jan 1970 00:01:00 GMT''"
    "rfc850_date (S ''Friday'') 1970 1 2 0 1 0 = S ''Friday, 02-Jan-70 00:01:00 GMT''"
    "asctime_date (S ''Fri'') 1970 1 2 0 1 0 = S ''Fri Jan  2 00:01:00 1970''"
    by (simp_all add: imf_fixdate_def rfc850_date_def asctime_date_def two_def four_def month_abbr_def
        clock_text_def str_simps)
  ultimately show ?thesis
    using retry_after_http_date [of 1 1970 1 2 0 1 0 86400 "S ''Fri''" "S ''Friday''" 3600]
    by (simp add: valid_time_def day_abbrs_def day_names_def time_left_def)
qed

text \<open>A year that a C \<^verbatim>\<open>int\<close> cannot hold.\<close>

definition far_date :: str where
  "far_date = S ''Fri, 31 Dec 99999999999 23:59:59 GMT''"

lemma far_date_overflows: "parse_retry_after local far_date now = Inl date_overflow"
proof -
  have words: "far_date = (S ''Fri'' @ [44]) @ 32 # two 31 @ 32 # month_abbr 12 @ 32 # S ''99999999999'' @
      32 # clock_text 23 59 59 @ 32 # S ''GMT''"
    by (simp add: far_date_def two_def month_abbr_def clock_text_def str_simps)
  have year: "list_all is_digit (S ''99999999999'')" "S ''99999999999'' \<noteq> []"
    by (simp_all add: str_simps is_digit_def)
  have number: "py_int_of_str (S ''99999999999'') = Some 99999999999"
    using py_int_digits [OF year] by (simp add: str_simps dec_val_def)
  have "list_all is_alpha (S ''Fri'')" "valid_date 2000 12 31" "valid_time 23 59 59"
    by (simp_all add: str_simps is_alpha_def valid_date_def days_in_month_def valid_time_def)
  from imf_fields [OF this year number]
  have "parsedate_tz far_date = Some \<lparr>pd_year = 99999999999, pd_month = 12, pd_day = 31, pd_hour = 23,
      pd_minute = 59, pd_second = 59, pd_offset = Some 0\<rparr>"
    unfolding words by (simp only: full_year_def) simp
  then have "parsedate_to_datetime far_date = Inl date_overflow"
    by (simp add: parsedate_to_datetime_def check_offset_def check_datetime_def fits_int_def)
  moreover have "day_initial (hd far_date)" "far_date \<noteq> []" "strip far_date = far_date"
    by (simp_all add: far_date_def day_initial_def str_simps strip_def is_space_def)
  ultimately show ?thesis
    using day_is_no_number by (simp add: parse_retry_after_def date_overflow_def)
qed

lemma py_float_of_Nil: "py_float_of_str [] = None"
  by (simp add: py_float_of_str_def drop_underscores_def take_sign_def parse_decimal_def lower_def str_simps)

lemma parsedate_to_datetime_errors:
  "parsedate_to_datetime text = Inl e \<Longrightarrow> e = date_overflow \<or> (\<exists>m. e = ValueError m)"
  by (auto simp: parsedate_to_datetime_def bindR_Inl_iff check_offset_def check_datetime_def
      split: option.splits if_splits)

lemma retry_after_count:
  "parse_retry_after local (dec_nat n) now =
     Inr (Some (if of_nat n < overflow_bound then Fin (of_nat n) else PInf))"
proof -
  have "strip (dec_nat n) = dec_nat n"
    using dec_nat_digits [of n]
    by (intro strip_no_space) (auto simp: list_all_iff is_digit_def is_space_def)
  then show ?thesis
    using py_float_dec_nat [of n]
    by (auto simp: parse_retry_after_def dec_nat_not_Nil f_fin_pos py_max_def f_less_def)
qed

lemma retry_after_sane:
  "parse_retry_after local text now = Inr (Some d) \<Longrightarrow> f_le (Fin 0) d \<and> \<not> f_negative d"
  by (auto simp: parse_retry_after_def Let_def bindR_Inr_iff max_zero_nonneg max_zero_not_negative
      split: if_splits option.splits sum.splits exn.splits)

lemma retry_after_raises:
  "parse_retry_after local text now = Inl e \<Longrightarrow>
    e = date_overflow \<or> (\<exists>d. parsedate_to_datetime (strip text) = Inr d \<and> pd_offset d = None \<and> local d = Inl e)"
  using parsedate_to_datetime_errors [of "strip text"]
  by (auto simp: parse_retry_after_def Let_def bindR_Inl_iff timestamp_def
      split: if_splits option.splits sum.splits exn.splits)

lemma retry_after_unreadable:
  "parse_retry_after local text now = Inr None \<Longrightarrow>
    py_float_of_str (strip text) = None \<and>
    (strip text = [] \<or> (\<exists>m. parsedate_to_datetime (strip text) = Inl (ValueError m)))"
  using parsedate_to_datetime_errors [of "strip text"]
  by (auto simp: parse_retry_after_def Let_def bindR_Inr_iff py_float_of_Nil date_overflow_def
      split: if_splits option.splits sum.splits exn.splits)

text \<open>
  C32. What a \<^verbatim>\<open>Retry-After\<close> gives: a delay that is never negative and never NaN, a plain count of seconds
  being read as that count; \<^verbatim>\<open>None\<close> only for a value that is neither a number nor a date; or an
  exception, contrary to the docstring: of the local time, for a date without a zone, or of a date
  whose numbers are too large, as in \<open>far_date\<close>.
\<close>

theorem parse_retry_after_sane:
  "(case parse_retry_after local text now of
      Inr (Some d) \<Rightarrow> f_le (Fin 0) d \<and> \<not> f_negative d
    | Inr None \<Rightarrow> py_float_of_str (strip text) = None \<and>
        (strip text = [] \<or> (\<exists>m. parsedate_to_datetime (strip text) = Inl (ValueError m)))
    | Inl e \<Rightarrow> e = date_overflow \<or>
        (\<exists>d. parsedate_to_datetime (strip text) = Inr d \<and> pd_offset d = None \<and> local d = Inl e)) \<and>
   parse_retry_after local (dec_nat n) now =
     Inr (Some (if of_nat n < overflow_bound then Fin (of_nat n) else PInf)) \<and>
   parse_retry_after local far_date now = Inl date_overflow"
  using retry_after_sane [of local "text" now] retry_after_raises [of local "text" now]
    retry_after_unreadable [of local "text" now]
  by (simp add: retry_after_count far_date_overflows split: sum.split option.split)

end
