(* ===== verification/HttpTransport.thy ===== *)
theory HttpTransport
  imports Retry JsonEncoder
begin

section \<open>The OTLP/HTTP transport\<close>

text \<open>
  \<^verbatim>\<open>transport/http.py\<close> (and the interface of \<^verbatim>\<open>transport/base.py\<close>): the TLS context, and \<open>http_send\<close>,
  which builds the request, posts it and classifies the response. The HTTP client, gzip, the
  wall clock and the date parser are parameters.
\<close>

subsection \<open>The transport and encoder objects\<close>

record 'w transport =
  tp_send :: "signal_kind \<Rightarrow> bytes \<Rightarrow> headers \<Rightarrow> ('w, outcome) io"
  tp_aclose :: "('w, unit) io"

record encoder =
  en_content_type :: str
  en_encode :: "signal_kind \<Rightarrow> envelope \<Rightarrow> bytes res"
  en_decode :: "signal_kind \<Rightarrow> bytes \<Rightarrow> outcome option res"

definition json_encoder_of ::
  "(json \<Rightarrow> bytes res) \<Rightarrow> (bytes \<Rightarrow> json res) \<Rightarrow> (json \<Rightarrow> str) \<Rightarrow> encoder" where
  "json_encoder_of dumps loads show_other =
     \<lparr>en_content_type = json_content_type, en_encode = json_encode dumps,
      en_decode = json_decode_response loads show_other\<rparr>"

text \<open>\<^verbatim>\<open>partial if partial is not None else Success()\<close>.\<close>

definition outcome_of_response :: "encoder \<Rightarrow> signal_kind \<Rightarrow> bytes \<Rightarrow> outcome res" where
  "outcome_of_response enc kind raw =
     bindR (en_decode enc kind raw) (\<lambda>partial.
       Inr (case partial of Some p \<Rightarrow> p | None \<Rightarrow> Success))"

subsection \<open>TLS\<close>

text \<open>A context as the code configures it; reading the certificate files is \<open>load_ca\<close> and \<open>load_chain\<close>.\<close>

record ssl_context =
  sc_cafile :: "str option"
  sc_verify :: bool
  sc_chain :: "(str \<times> str option) option"

definition given :: "str option \<Rightarrow> bool" where
  "given s \<longleftrightarrow> s \<noteq> None \<and> s \<noteq> Some []"

definition build_ssl_context ::
  "(str option \<Rightarrow> unit res) \<Rightarrow> (str \<Rightarrow> str option \<Rightarrow> unit res) \<Rightarrow> config \<Rightarrow> ssl_context option res" where
  "build_ssl_context load_ca load_chain c =
     (if \<not> (given (cfg_certificate_file c) \<or> given (cfg_client_certificate_file c) \<or>
            cfg_insecure_skip_verify c)
      then Inr None
      else bindR (load_ca (cfg_certificate_file c)) (\<lambda>_.
        (let context = \<lparr>sc_cafile = cfg_certificate_file c,
                        sc_verify = \<not> cfg_insecure_skip_verify c, sc_chain = None\<rparr>
         in case cfg_client_certificate_file c of
              Some cert \<Rightarrow>
                if cert = [] then Inr (Some context)
                else bindR (load_chain cert (cfg_client_key_file c)) (\<lambda>_.
                  Inr (Some (context\<lparr>sc_chain := Some (cert, cfg_client_key_file c)\<rparr>)))
            | None \<Rightarrow> Inr (Some context))))"

subsection \<open>Sending\<close>

record http_response =
  hr_status :: int
  hr_header :: "str \<Rightarrow> str option"
  hr_body :: bytes

record http_request =
  rq_url :: str
  rq_body :: bytes
  rq_headers :: headers
  rq_timeout :: pyfloat
  rq_ssl :: "ssl_context option"

record 'w http_env =
  he_post :: "http_request \<Rightarrow> ('w, http_response) io"
  he_gzip :: "bytes \<Rightarrow> bytes"
  he_gzip_thread :: "bytes \<Rightarrow> ('w, bytes) io"
  he_time :: "'w \<Rightarrow> pyfloat \<times> 'w"
  he_local_timestamp :: "parsed_date \<Rightarrow> pyfloat res"
  he_close :: "('w, unit) io"

record http_transport =
  ht_config :: config
  ht_encoder :: encoder
  ht_owns_session :: bool
  ht_ssl :: "ssl_context option"

text \<open>\<^verbatim>\<open>create\<close>: a session that is not passed in is made, and owned, by the transport.\<close>

definition http_create ::
  "(str option \<Rightarrow> unit res) \<Rightarrow> (str \<Rightarrow> str option \<Rightarrow> unit res) \<Rightarrow> config \<Rightarrow> encoder \<Rightarrow> bool \<Rightarrow>
   http_transport res" where
  "http_create load_ca load_chain c enc session_given =
     bindR (build_ssl_context load_ca load_chain c) (\<lambda>context.
     Inr \<lparr>ht_config = c, ht_encoder = enc, ht_owns_session = \<not> session_given, ht_ssl = context\<rparr>)"

definition http_compress :: "http_transport \<Rightarrow> 'w http_env \<Rightarrow> bytes \<Rightarrow> ('w, bytes) io" where
  "http_compress t env payload =
     (if int (length payload) \<ge> cfg_gzip_threshold (ht_config t)
      then he_gzip_thread env payload
      else returnE (he_gzip env payload))"

definition request_headers :: "http_transport \<Rightarrow> headers \<Rightarrow> headers" where
  "request_headers t hs = dict_union hs [(S ''Content-Type'', en_content_type (ht_encoder t))]"

definition error_message :: "bytes \<Rightarrow> str" where
  "error_message raw = take 512 (utf8_decode (map unat raw))"

definition classify_response ::
  "http_transport \<Rightarrow> 'w http_env \<Rightarrow> signal_kind \<Rightarrow> http_response \<Rightarrow> ('w, outcome) io" where
  "classify_response t env kind r w =
     (if 200 \<le> hr_status r \<and> hr_status r < 300
      then Some (outcome_of_response (ht_encoder t) kind (hr_body r), w)
      else if hr_status r \<in> RETRYABLE_STATUSES
      then (let header = (case hr_header r (S ''Retry-After'') of None \<Rightarrow> [] | Some h \<Rightarrow> h)
            in if header = []
               then Some (Inr (Retryable (Some (hr_status r)) (error_message (hr_body r)) None), w)
               else (let (now, w') = he_time env w
                     in Some (bindR (parse_retry_after (he_local_timestamp env) header now)
                          (\<lambda>d. Inr (Retryable (Some (hr_status r)) (error_message (hr_body r)) d)), w')))
      else Some (Inr (Permanent (Some (hr_status r)) (error_message (hr_body r))), w))"

text \<open>\<^verbatim>\<open>except (aiohttp.ClientError, TimeoutError)\<close>.\<close>

definition connection_failure :: "exn \<Rightarrow> ('w, outcome) io" where
  "connection_failure e =
     (case e of
        ClientError cls m \<Rightarrow> returnE (Retryable None (cls @ S '': '' @ m) None)
      | TimeoutError m \<Rightarrow> returnE (Retryable None (S ''TimeoutError'' @ S '': '' @ m) None)
      | _ \<Rightarrow> raiseE e)"

definition http_exchange ::
  "http_transport \<Rightarrow> 'w http_env \<Rightarrow> signal_kind \<Rightarrow> bytes \<Rightarrow> headers \<Rightarrow> ('w, outcome) io" where
  "http_exchange t env kind body hs =
     catchE
       (bindE (liftR (endpoint_for (ht_config t) kind)) (\<lambda>url.
        bindE (he_post env
          \<lparr>rq_url = url, rq_body = body, rq_headers = hs,
           rq_timeout = timeout_for (ht_config t) kind, rq_ssl = ht_ssl t\<rparr>)
          (classify_response t env kind)))
       connection_failure"

definition http_send ::
  "http_transport \<Rightarrow> 'w http_env \<Rightarrow> signal_kind \<Rightarrow> bytes \<Rightarrow> headers \<Rightarrow> ('w, outcome) io" where
  "http_send t env kind payload hs =
     (if compression_for (ht_config t) kind = GZIP
      then bindE (http_compress t env payload) (\<lambda>body.
        http_exchange t env kind body
          (dict_set (S ''Content-Encoding'') (S ''gzip'') (request_headers t hs)))
      else http_exchange t env kind payload (request_headers t hs))"

definition http_aclose :: "http_transport \<Rightarrow> 'w http_env \<Rightarrow> ('w, unit) io" where
  "http_aclose t env = (if ht_owns_session t then he_close env else returnE ())"

definition http_transport_of :: "http_transport \<Rightarrow> 'w http_env \<Rightarrow> 'w transport" where
  "http_transport_of t env = \<lparr>tp_send = http_send t env, tp_aclose = http_aclose t env\<rparr>"

subsection \<open>Helpers\<close>

definition sane_delay :: "pyfloat option \<Rightarrow> bool" where
  "sane_delay d \<longleftrightarrow> (case d of None \<Rightarrow> True | Some x \<Rightarrow> f_le (Fin 0) x \<and> \<not> f_negative x)"

lemma retry_after_of_parse: "parse_retry_after local text now = Inr d \<Longrightarrow> sane_delay d"
  using retry_after_sane by (auto simp: sane_delay_def split: option.split)

lemma outcome_of_response_delivered:
  assumes "otlp_encoder (en_encode enc) (en_decode enc)" and "outcome_of_response enc kind raw = Inr r"
  shows "is_delivered r"
  using otlp_encoder.response_outcome_delivered [OF assms(1), of kind raw r] assms(2)
  by (auto simp: outcome_of_response_def otlp_encoder.response_outcome_def [OF assms(1)] bindR_Inr_iff)

subsection \<open>The transport contract\<close>

text \<open>
  What the client relies on, whatever the transport: a delay a retryable outcome carries is a
  time that can be slept, never negative and never NaN.
\<close>

locale otlp_transport =
  fixes send :: "signal_kind \<Rightarrow> bytes \<Rightarrow> headers \<Rightarrow> ('w, outcome) io"
  assumes retry_delay: "send kind payload hs w = Some (Inr r, w') \<Longrightarrow> is_retryable r \<Longrightarrow>
    sane_delay (rt_retry_after r)"
begin

lemma retry_delay_sleepable:
  assumes "send kind payload hs w = Some (Inr (Retryable st msg (Some d)), w')"
  shows "f_le (Fin 0) d \<and> \<not> f_negative d"
  using retry_delay [OF assms] by (simp add: sane_delay_def)

end

lemma classify_response_delay:
  assumes "otlp_encoder (en_encode (ht_encoder t)) (en_decode (ht_encoder t))"
    and "classify_response t env kind r w = Some (Inr out, w')" and "is_retryable out"
  shows "sane_delay (rt_retry_after out)"
  using assms(2,3) outcome_of_response_delivered [OF assms(1), of kind "hr_body r" out] retry_after_of_parse
  unfolding classify_response_def Let_def
  by (auto simp: bindR_Inr_iff delivered_iff sane_delay_def [of None] split: if_splits prod.splits)

lemma connection_failure_delay:
  "connection_failure e w = Some (Inr out, w') \<Longrightarrow> \<exists>m. out = Retryable None m None"
  by (cases e) (auto simp: connection_failure_def)

lemma http_keeps_contract:
  assumes "otlp_encoder (en_encode (ht_encoder t)) (en_decode (ht_encoder t))"
  shows "otlp_transport (http_send t env)"
proof
  have exchange: "http_exchange t env kind body h w = Some (Inr r, w') \<Longrightarrow> is_retryable r \<Longrightarrow>
      sane_delay (rt_retry_after r)" for kind body h w r w'
    unfolding http_exchange_def catchE_Some_iff bindE_Some_iff
    by (auto simp: sane_delay_def [of None]
        dest: classify_response_delay [OF assms] connection_failure_delay)
  then show "http_send t env kind payload hs w = Some (Inr r, w') \<Longrightarrow> is_retryable r \<Longrightarrow>
      sane_delay (rt_retry_after r)" for kind payload hs w r w'
    by (auto simp: http_send_def bindE_Some_iff split: if_splits)
qed

interpretation http_json: otlp_transport
    "http_send (t\<lparr>ht_encoder := json_encoder_of dumps loads show_other\<rparr>) env"
  for t and env :: "'w http_env" and dumps loads show_other
  by (rule http_keeps_contract) (simp add: json_encoder_of_def json_encoder.otlp_encoder_axioms)

subsection \<open>Properties of the HTTP transport\<close>

text \<open>
  C28. A response is classified by its status alone: 2xx is delivered, exactly 429, 502, 503 and
  504 are retryable, and every other status is permanent; the status is kept, the message is
  at most 512 characters, and a delay taken from \<^verbatim>\<open>Retry-After\<close> is never negative.
\<close>

theorem http_classification:
  assumes "otlp_encoder (en_encode (ht_encoder t)) (en_decode (ht_encoder t))"
    and "classify_response t env kind r w = Some (Inr out, w')"
  shows "(is_delivered out \<longleftrightarrow> 200 \<le> hr_status r \<and> hr_status r < 300) \<and>
    (is_retryable out \<longleftrightarrow> hr_status r \<in> {429, 502, 503, 504}) \<and>
    (case out of
       Retryable st msg d \<Rightarrow> st = Some (hr_status r) \<and> length msg \<le> 512 \<and>
         (case d of None \<Rightarrow> True | Some x \<Rightarrow> f_le (Fin 0) x \<and> \<not> f_negative x)
     | Permanent st msg \<Rightarrow> st = Some (hr_status r) \<and> length msg \<le> 512
     | _ \<Rightarrow> True)"
proof -
  consider "200 \<le> hr_status r" "hr_status r < 300"
    | "\<not> (200 \<le> hr_status r \<and> hr_status r < 300)" "hr_status r \<in> RETRYABLE_STATUSES"
    | "\<not> (200 \<le> hr_status r \<and> hr_status r < 300)" "hr_status r \<notin> RETRYABLE_STATUSES"
    by blast
  then show ?thesis
  proof cases
    case 1
    then have "is_delivered out"
      using assms outcome_of_response_delivered [OF assms(1)] by (auto simp: classify_response_def)
    with 1 show ?thesis
      by (cases out) auto
  next
    case 2
    obtain d where "out = Retryable (Some (hr_status r)) (error_message (hr_body r)) d" "sane_delay d"
    proof (cases "case hr_header r (S ''Retry-After'') of None \<Rightarrow> [] | Some h \<Rightarrow> h")
      case Nil
      then have "out = Retryable (Some (hr_status r)) (error_message (hr_body r)) None"
        using 2 assms(2) unfolding classify_response_def Let_def by (auto split: if_splits)
      then show thesis by (rule that) (simp add: sane_delay_def)
    next
      case (Cons c s)
      then obtain now d where "parse_retry_after (he_local_timestamp env) (c # s) now = Inr d"
        "out = Retryable (Some (hr_status r)) (error_message (hr_body r)) d"
        using 2 assms(2) unfolding classify_response_def Let_def
        by (auto simp: bindR_Inr_iff split: prod.splits if_splits)
      then show thesis
        using retry_after_of_parse that by blast
    qed
    with 2 show ?thesis
      by (auto simp: RETRYABLE_STATUSES_def error_message_def sane_delay_def)
  next
    case 3
    then show ?thesis
      using assms(2) by (auto simp: classify_response_def RETRYABLE_STATUSES_def error_message_def)
  qed
qed

definition sample_http :: http_transport where
  "sample_http = \<lparr>ht_config = OTLPConfig (S ''http://h''),
     ht_encoder = json_encoder_of (\<lambda>_. Inr [1]) (\<lambda>_. Inr JNull) (\<lambda>_. []),
     ht_owns_session = False, ht_ssl = None\<rparr>"

lemma sample_http_encoder:
  "otlp_encoder (en_encode (ht_encoder sample_http)) (en_decode (ht_encoder sample_http))"
  by (simp add: sample_http_def json_encoder_of_def json_encoder.otlp_encoder_axioms)

text \<open>A server that keeps the requests it gets and answers each with the same response.\<close>

definition recording_server :: "http_response \<Rightarrow> http_request list http_env" where
  "recording_server resp =
     \<lparr>he_post = (\<lambda>rq past. Some (Inr resp, past @ [rq])), he_gzip = (\<lambda>b. 31 # b),
      he_gzip_thread = (\<lambda>b. returnE (31 # b)), he_time = (\<lambda>past. (Fin 0, past)),
      he_local_timestamp = (\<lambda>_. Inr (Fin 0)), he_close = returnE ()\<rparr>"

definition throttled_response :: http_response where
  "throttled_response = \<lparr>hr_status = 429, hr_header = (\<lambda>_. None), hr_body = []\<rparr>"

lemma http_classification_witness:
  "classify_response sample_http (recording_server throttled_response) LOGS throttled_response [] =
     Some (Inr (Retryable (Some 429) [] None), []) \<and> \<not> is_delivered (Retryable (Some 429) [] None)"
proof -
  have run: "classify_response sample_http (recording_server throttled_response) LOGS throttled_response [] =
     Some (Inr (Retryable (Some 429) [] None), [])"
    by (simp add: classify_response_def throttled_response_def RETRYABLE_STATUSES_def error_message_def)
  then show ?thesis
    using http_classification [OF sample_http_encoder run] by (simp add: throttled_response_def)
qed

lemma request_headers_get:
  "map_of (request_headers t hs) k =
    (if k = S ''Content-Type'' then Some (en_content_type (ht_encoder t)) else map_of hs k)"
  by (simp add: request_headers_def dict_union_Cons map_of_dict_set)

text \<open>
  C22. One send is one request: whatever the response, \<^verbatim>\<open>send\<close> posts exactly once, to the signal's
  endpoint with the signal's timeout; the encoder's content type replaces any other, the body
  is the payload, gzipped and marked so exactly when the signal's compression asks for it,
  and every other header is the caller's.
\<close>

theorem http_send_one_request:
  assumes "endpoint_for (ht_config t) kind = Inr url"
    and "\<And>rq past. he_post env rq past = Some (resp rq, past @ [rq])"
    and "\<And>past. snd (he_time env past) = past"
    and "\<And>b past. he_gzip_thread env b past = Some (Inr (he_gzip env b), past)"
    and "http_send t env kind payload hs past = Some (r, past')"
  shows "\<exists>rq. past' = past @ [rq] \<and> rq_url rq = url \<and> rq_timeout rq = timeout_for (ht_config t) kind \<and>
    rq_body rq = (if compression_for (ht_config t) kind = GZIP then he_gzip env payload else payload) \<and>
    map_of (rq_headers rq) (S ''Content-Type'') = Some (en_content_type (ht_encoder t)) \<and>
    map_of (rq_headers rq) (S ''Content-Encoding'') =
      (if compression_for (ht_config t) kind = GZIP then Some (S ''gzip'')
       else map_of hs (S ''Content-Encoding'')) \<and>
    (\<forall>k. k \<noteq> S ''Content-Type'' \<and> k \<noteq> S ''Content-Encoding'' \<longrightarrow>
       map_of (rq_headers rq) k = map_of hs k)"
proof -
  have keep: "classify_response t env kind x l = Some (y, l') \<Longrightarrow> l' = l" for x y l l'
    using assms(3) [of l]
    by (auto simp: classify_response_def Let_def split: if_splits prod.splits)
  have fail: "connection_failure e l = Some (y, l') \<Longrightarrow> l' = l" for e :: exn and l y l'
    by (cases e) (auto simp: connection_failure_def)
  have exchange: "http_exchange t env kind body h past = Some (r, past') \<Longrightarrow>
      past' = past @ [\<lparr>rq_url = url, rq_body = body, rq_headers = h,
        rq_timeout = timeout_for (ht_config t) kind, rq_ssl = ht_ssl t\<rparr>]" for body h
    unfolding http_exchange_def catchE_Some_iff bindE_Some_iff
    by (auto simp: assms(1,2) dest!: keep fail)
  have compress: "http_compress t env payload past = Some (Inr (he_gzip env payload), past)"
    by (simp add: http_compress_def assms(4))
  show ?thesis
  proof (cases "compression_for (ht_config t) kind = GZIP")
    case True
    then have "http_exchange t env kind (he_gzip env payload)
        (dict_set (S ''Content-Encoding'') (S ''gzip'') (request_headers t hs)) past = Some (r, past')"
      using assms(5) compress by (simp add: http_send_def bindE_def)
    from exchange [OF this] True show ?thesis
      by (simp add: map_of_dict_set request_headers_get)
  next
    case False
    then have "http_exchange t env kind payload (request_headers t hs) past = Some (r, past')"
      using assms(5) by (simp add: http_send_def)
    from exchange [OF this] False show ?thesis
      by (simp add: request_headers_get)
  qed
qed

lemma sample_endpoint: "endpoint_for (ht_config sample_http) LOGS = Inr (S ''http://h/v1/logs'')"
  by (simp add: sample_http_def endpoint_for_def OTLPConfig_def rstrip_char_def str_simps)

lemma http_send_one_request_witness:
  "\<exists>r rq. http_send sample_http (recording_server throttled_response) LOGS [7] [] [] = Some (r, [rq]) \<and>
     rq_url rq = S ''http://h/v1/logs'' \<and> rq_body rq = [7]"
proof -
  let ?env = "recording_server throttled_response"
  have "\<exists>r past. http_send sample_http ?env LOGS [7] [] [] = Some (r, past)"
    using sample_endpoint
    by (simp add: http_send_def compression_for_def sample_http_def OTLPConfig_def http_exchange_def
        catchE_def bindE_def recording_server_def classify_response_def throttled_response_def
        RETRYABLE_STATUSES_def)
  then obtain r past where run: "http_send sample_http ?env LOGS [7] [] [] = Some (r, past)"
    by blast
  have "\<exists>rq. past = [] @ [rq] \<and> rq_url rq = S ''http://h/v1/logs'' \<and> rq_body rq = [7]"
    using http_send_one_request [OF sample_endpoint _ _ _ run, of "\<lambda>_. Inr throttled_response"]
    by (auto simp: recording_server_def compression_for_def sample_http_def OTLPConfig_def)
  with run show ?thesis by auto
qed

subsection \<open>What a send raises\<close>

text \<open>The decoder of a 2xx body, or the \<^verbatim>\<open>Retry-After\<close> of a retryable status, raises.\<close>

definition response_raises :: "http_transport \<Rightarrow> 'w http_env \<Rightarrow> signal_kind \<Rightarrow> http_response \<Rightarrow> exn \<Rightarrow> bool" where
  "response_raises t env kind resp e \<longleftrightarrow>
     200 \<le> hr_status resp \<and> hr_status resp < 300 \<and> en_decode (ht_encoder t) kind (hr_body resp) = Inl e \<or>
     hr_status resp \<in> RETRYABLE_STATUSES \<and>
       (\<exists>h now. hr_header resp (S ''Retry-After'') = Some h \<and>
         parse_retry_after (he_local_timestamp env) h now = Inl e)"

lemma classify_response_raises:
  "classify_response t env kind r w = Some (Inl e, w') \<Longrightarrow> response_raises t env kind r e"
  by (auto simp: response_raises_def classify_response_def Let_def outcome_of_response_def bindR_Inl_iff
      split: if_splits prod.splits option.splits)

lemma connection_failure_raises:
  "connection_failure e0 v = Some (Inl e, w') \<Longrightarrow> e0 = e \<and> v = w' \<and> \<not> is_connection_failure e"
  by (cases e0) (auto simp: connection_failure_def is_connection_failure_def)

lemma http_exchange_raises:
  assumes "http_exchange t env kind body h v = Some (Inl e, w')"
  shows "\<not> is_connection_failure e \<and>
    (endpoint_for (ht_config t) kind = Inl e \<or> (\<exists>rq v. he_post env rq v = Some (Inl e, w')) \<or>
     (\<exists>rq v resp v'. he_post env rq v = Some (Inr resp, v') \<and> response_raises t env kind resp e))"
proof -
  obtain e0 v0 where raised: "bindE (liftR (endpoint_for (ht_config t) kind)) (\<lambda>url.
      bindE (he_post env \<lparr>rq_url = url, rq_body = body, rq_headers = h,
         rq_timeout = timeout_for (ht_config t) kind, rq_ssl = ht_ssl t\<rparr>)
        (classify_response t env kind)) v = Some (Inl e0, v0)"
    and out: "connection_failure e0 v0 = Some (Inl e, w')"
    using assms unfolding http_exchange_def catchE_Some_iff by blast
  have e: "e0 = e" "v0 = w'" "\<not> is_connection_failure e"
    using connection_failure_raises [OF out] by simp_all
  consider "endpoint_for (ht_config t) kind = Inl e" | rq where "he_post env rq v = Some (Inl e, w')"
    | rq resp v' where "he_post env rq v = Some (Inr resp, v')"
      "classify_response t env kind resp v' = Some (Inl e, w')"
    using raised unfolding e(1,2) by (auto simp: bindE_Some_iff)
  then show ?thesis
    using e(3) by cases (blast dest: classify_response_raises)+
qed

text \<open>
  C30. Where an exception of \<^verbatim>\<open>send\<close> comes from: the compressing thread; or, when it is neither an
  \<^verbatim>\<open>aiohttp.ClientError\<close> nor a timeout, which become retryable outcomes, the endpoint, the session, the
  decoder of a 2xx body, or the \<^verbatim>\<open>Retry-After\<close> of a retryable status, which \<open>far_date\<close> shows to be real.
\<close>

theorem http_send_error_sources:
  assumes "http_send t env kind payload hs w = Some (Inl e, w')"
  shows "compression_for (ht_config t) kind = GZIP \<and> (\<exists>v. he_gzip_thread env payload v = Some (Inl e, w')) \<or>
    \<not> is_connection_failure e \<and>
    (endpoint_for (ht_config t) kind = Inl e \<or> (\<exists>rq v. he_post env rq v = Some (Inl e, w')) \<or>
     (\<exists>rq v resp v'. he_post env rq v = Some (Inr resp, v') \<and> response_raises t env kind resp e))"
proof -
  consider (thread) "compression_for (ht_config t) kind = GZIP" "he_gzip_thread env payload w = Some (Inl e, w')"
    | (exchange) body h v where "http_exchange t env kind body h v = Some (Inl e, w')"
    using assms by (auto simp: http_send_def http_compress_def bindE_Some_iff returnE_def split: if_splits)
  then show ?thesis
  proof cases
    case thread
    then show ?thesis by blast
  next
    case exchange
    from http_exchange_raises [OF this] show ?thesis by blast
  qed
qed

definition far_response :: http_response where
  "far_response = \<lparr>hr_status = 503, hr_header = (\<lambda>_. Some far_date), hr_body = []\<rparr>"

lemma http_send_error_sources_witness:
  "\<exists>past. http_send sample_http (recording_server far_response) LOGS [7] [] [] = Some (Inl date_overflow, past) \<and>
     (\<exists>resp. response_raises sample_http (recording_server far_response) LOGS resp date_overflow)"
proof -
  let ?env = "recording_server far_response"
  have "far_date \<noteq> []"
    by (simp add: far_date_def)
  then have "\<exists>past. http_send sample_http ?env LOGS [7] [] [] = Some (Inl date_overflow, past)"
    using sample_endpoint
    by (simp add: http_send_def compression_for_def sample_http_def OTLPConfig_def http_exchange_def
        catchE_def bindE_def recording_server_def classify_response_def far_response_def Let_def
        RETRYABLE_STATUSES_def far_date_overflows connection_failure_def date_overflow_def)
  then obtain past where run: "http_send sample_http ?env LOGS [7] [] [] = Some (Inl date_overflow, past)"
    by blast
  have "compression_for (ht_config sample_http) LOGS = NO_COMPRESSION" "he_post ?env rq v = Some (Inr far_response, v @ [rq])" for rq v
    by (simp_all add: recording_server_def compression_for_def sample_http_def OTLPConfig_def)
  with run http_send_error_sources [OF run] sample_endpoint show ?thesis
    by auto
qed

end
