(* ===== verification/GrpcTransport.thy ===== *)
theory GrpcTransport
  imports HttpTransport ProtoEncoder
begin

section \<open>The OTLP/gRPC transport\<close>

text \<open>
  \<^verbatim>\<open>transport/grpc.py\<close>: the split of an endpoint into a target and its security, the checks of
  \<^verbatim>\<open>create\<close>, \<^verbatim>\<open>send\<close> and the classification of a failed call. The channel (\<^verbatim>\<open>grpc.aio\<close>) and the
  reading of certificate files are parameters. The section ends with the contract every
  transport keeps towards the client.
\<close>

definition grpc_missing :: str where
  "grpc_missing =
     S ''the gRPC transport needs the optional extra: pip install '' @ S [CHR 0x27] @
     S ''asyncio-otlp-client[grpc]'' @ S [CHR 0x27]"

fun grpc_method :: "signal_kind \<Rightarrow> str" where
  "grpc_method METRICS = S ''/opentelemetry.proto.collector.metrics.v1.MetricsService/Export''"
| "grpc_method LOGS = S ''/opentelemetry.proto.collector.logs.v1.LogsService/Export''"
| "grpc_method TRACES = S ''/opentelemetry.proto.collector.trace.v1.TraceService/Export''"
| "grpc_method PROFILES =
     S ''/opentelemetry.proto.collector.profiles.v1development.ProfilesService/Export''"

subsection \<open>The target\<close>

text \<open>\<^verbatim>\<open>"//" in endpoint\<close>.\<close>

fun has_double_slash :: "str \<Rightarrow> bool" where
  "has_double_slash (a # b # r) \<longleftrightarrow> a = 47 \<and> b = 47 \<or> has_double_slash (b # r)"
| "has_double_slash _ \<longleftrightarrow> False"

definition grpc_target :: "str \<Rightarrow> bool \<Rightarrow> (str \<times> bool) res" where
  "grpc_target endpoint insecure =
     bindR (urlparse (if has_double_slash endpoint then endpoint else S ''//'' @ endpoint)) (\<lambda>parsed.
       (let host = (if u_netloc parsed \<noteq> [] then u_netloc parsed else u_path parsed)
        in if u_scheme parsed = S ''https'' then Inr (host, False)
           else if u_scheme parsed = S ''http'' then Inr (host, True)
           else Inr (host, insecure)))"

subsection \<open>Creation\<close>

record grpc_credentials =
  gc_root :: "bytes option"
  gc_key :: "bytes option"
  gc_chain :: "bytes option"

text \<open>\<open>read_file\<close> is the reading of a file, which may raise; an absent or empty path reads nothing.\<close>

definition read_optional :: "(str \<Rightarrow> bytes res) \<Rightarrow> str option \<Rightarrow> bytes option res" where
  "read_optional read_file path =
     (case path of
        None \<Rightarrow> Inr None
      | Some p \<Rightarrow> if p = [] then Inr None else bindR (read_file p) (\<lambda>b. Inr (Some b)))"

definition read_credentials :: "(str \<Rightarrow> bytes res) \<Rightarrow> config \<Rightarrow> grpc_credentials res" where
  "read_credentials read_file c =
     bindR (read_optional read_file (cfg_certificate_file c)) (\<lambda>root.
     bindR (read_optional read_file (cfg_client_key_file c)) (\<lambda>key.
     bindR (read_optional read_file (cfg_client_certificate_file c)) (\<lambda>chain.
     Inr \<lparr>gc_root = root, gc_key = key, gc_chain = chain\<rparr>)))"

text \<open>The channel as the code opens it: insecure, or secure with credentials.\<close>

datatype grpc_channel =
    InsecureChannel (ch_target: str)
  | SecureChannel (ch_target: str) (ch_credentials: grpc_credentials)

record grpc_transport =
  gt_config :: config
  gt_encoder :: encoder
  gt_channel :: grpc_channel

definition no_json_over_grpc :: str where
  "no_json_over_grpc = S ''OTLP over gRPC has no JSON encoding; use the protobuf encoder''"

definition skip_verify_unsupported :: str where
  "skip_verify_unsupported =
     S ''insecure_skip_verify is not supported over gRPC: grpcio provides no way '' @
     S ''to disable certificate verification. Use certificate_file to trust a '' @
     S ''self-signed CA, or switch to an http:// endpoint.''"

definition per_signal_endpoints_unsupported :: str where
  "per_signal_endpoints_unsupported =
     S ''per-signal endpoint overrides (metrics_endpoint/logs_endpoint/'' @
     S ''traces_endpoint) are not supported over gRPC: a single gRPC channel '' @
     S ''targets one host and the signal is already selected by the RPC '' @
     S ''method path. Use separate OTLPClient instances (one per signal, '' @
     S ''each with its own endpoint) if you need this.''"

definition grpc_create ::
  "bool \<Rightarrow> (str \<Rightarrow> bytes res) \<Rightarrow> config \<Rightarrow> encoder \<Rightarrow> grpc_transport res" where
  "grpc_create available read_file c enc =
     (if en_content_type enc \<noteq> S ''application/x-protobuf''
      then Inl (OTLPConfigError no_json_over_grpc)
      else if \<not> available then Inl (OTLPConfigError grpc_missing)
      else bindR (grpc_target (cfg_endpoint c) (cfg_insecure c)) (\<lambda>(target, plaintext).
        if \<not> plaintext \<and> cfg_insecure_skip_verify c
        then Inl (OTLPConfigError skip_verify_unsupported)
        else if given (cfg_metrics_endpoint c) \<or> given (cfg_logs_endpoint c) \<or> given (cfg_traces_endpoint c)
        then Inl (OTLPConfigError per_signal_endpoints_unsupported)
        else if plaintext
        then Inr \<lparr>gt_config = c, gt_encoder = enc, gt_channel = InsecureChannel target\<rparr>
        else bindR (read_credentials read_file c) (\<lambda>credentials.
          Inr \<lparr>gt_config = c, gt_encoder = enc, gt_channel = SecureChannel target credentials\<rparr>)))"

subsection \<open>A failed call\<close>

text \<open>\<^verbatim>\<open>grpc.StatusCode\<close>: the members the code names, and any other by its name.\<close>

datatype grpc_code =
    UNAVAILABLE | DEADLINE_EXCEEDED | RESOURCE_EXHAUSTED | UNAUTHENTICATED | PERMISSION_DENIED
  | OtherCode str

fun code_name :: "grpc_code \<Rightarrow> str" where
  "code_name UNAVAILABLE = S ''UNAVAILABLE''"
| "code_name DEADLINE_EXCEEDED = S ''DEADLINE_EXCEEDED''"
| "code_name RESOURCE_EXHAUSTED = S ''RESOURCE_EXHAUSTED''"
| "code_name UNAUTHENTICATED = S ''UNAUTHENTICATED''"
| "code_name PERMISSION_DENIED = S ''PERMISSION_DENIED''"
| "code_name (OtherCode n) = n"

definition code_str :: "grpc_code \<Rightarrow> str" where
  "code_str code = S ''StatusCode.'' @ code_name code"

record rpc_error =
  rpc_code :: grpc_code
  rpc_details :: "str option"
  rpc_trailing_metadata :: "(str \<times> str) list option"

fun pushback_of :: "(str \<times> str) list \<Rightarrow> pyfloat option" where
  "pushback_of [] = None"
| "pushback_of ((key, val) # rest) =
     (if key = S ''grpc-retry-pushback-ms''
      then (case py_float_of_str val of
              None \<Rightarrow> None
            | Some x \<Rightarrow> Some (py_max (Fin 0) (f_div_pos x 1000)))
      else pushback_of rest)"

definition pushback :: "rpc_error \<Rightarrow> pyfloat option" where
  "pushback exc = (case rpc_trailing_metadata exc of None \<Rightarrow> None | Some md \<Rightarrow> pushback_of md)"

definition grpc_retryable :: "grpc_code \<Rightarrow> bool" where
  "grpc_retryable code \<longleftrightarrow> code \<in> {UNAVAILABLE, DEADLINE_EXCEEDED, RESOURCE_EXHAUSTED}"

fun auth_status :: "grpc_code \<Rightarrow> int option" where
  "auth_status UNAUTHENTICATED = Some 401"
| "auth_status PERMISSION_DENIED = Some 403"
| "auth_status _ = None"

definition rpc_message :: "rpc_error \<Rightarrow> str" where
  "rpc_message exc =
     (case rpc_details exc of
        None \<Rightarrow> code_str (rpc_code exc)
      | Some d \<Rightarrow> if d = [] then code_str (rpc_code exc) else d)"

definition grpc_classify :: "rpc_error \<Rightarrow> outcome" where
  "grpc_classify exc =
     (if grpc_retryable (rpc_code exc) then Retryable None (rpc_message exc) (pushback exc)
      else Permanent (auth_status (rpc_code exc)) (rpc_message exc))"

subsection \<open>Sending\<close>

text \<open>A unary call, with the channel it is made on, and its ways to fail: \<^verbatim>\<open>AioRpcError\<close> or another exception.\<close>

record grpc_call =
  ca_channel :: grpc_channel
  ca_method :: str
  ca_payload :: bytes
  ca_timeout :: pyfloat
  ca_metadata :: "(str \<times> str) list"
  ca_gzip :: bool

datatype call_result = Answered bytes | RpcError rpc_error | CallRaised exn

record 'w grpc_env =
  ge_call :: "grpc_call \<Rightarrow> 'w \<Rightarrow> (call_result \<times> 'w) option"
  ge_close :: "('w, unit) io"

definition grpc_request :: "grpc_transport \<Rightarrow> signal_kind \<Rightarrow> bytes \<Rightarrow> headers \<Rightarrow> grpc_call" where
  "grpc_request t kind payload hs =
     \<lparr>ca_channel = gt_channel t, ca_method = grpc_method kind, ca_payload = payload,
      ca_timeout = timeout_for (gt_config t) kind, ca_metadata = hs,
      ca_gzip = (compression_for (gt_config t) kind = GZIP)\<rparr>"

definition grpc_send ::
  "grpc_transport \<Rightarrow> 'w grpc_env \<Rightarrow> signal_kind \<Rightarrow> bytes \<Rightarrow> headers \<Rightarrow> ('w, outcome) io" where
  "grpc_send t env kind payload hs w =
     (case ge_call env (grpc_request t kind payload hs) w of
        None \<Rightarrow> None
      | Some (RpcError exc, w') \<Rightarrow> Some (Inr (grpc_classify exc), w')
      | Some (CallRaised e, w') \<Rightarrow> Some (Inl e, w')
      | Some (Answered raw, w') \<Rightarrow> Some (outcome_of_response (gt_encoder t) kind raw, w'))"

definition grpc_aclose :: "'w grpc_env \<Rightarrow> ('w, unit) io" where
  "grpc_aclose env = ge_close env"

definition grpc_transport_of :: "grpc_transport \<Rightarrow> 'w grpc_env \<Rightarrow> 'w transport" where
  "grpc_transport_of t env = \<lparr>tp_send = grpc_send t env, tp_aclose = grpc_aclose env\<rparr>"

definition protobuf_encoder_of ::
  "(pb \<Rightarrow> bytes res) \<Rightarrow> (str \<Rightarrow> bytes \<Rightarrow> (int \<times> str) option) \<Rightarrow> encoder" where
  "protobuf_encoder_of serialize from_string =
     \<lparr>en_content_type = pb_content_type, en_encode = pb_encode serialize,
      en_decode = pb_decode_response from_string\<rparr>"

lemma grpc_method_inj: "grpc_method k = grpc_method l \<longleftrightarrow> k = l"
  by (cases k; cases l) simp_all

subsection \<open>Properties of the gRPC transport\<close>

lemma pushback_sane: "sane_delay (pushback exc)"
proof -
  have "sane_delay (pushback_of md)" for md
    by (induction md rule: pushback_of.induct)
      (auto simp: sane_delay_def max_zero_nonneg max_zero_not_negative split: option.split)
  then show ?thesis
    by (auto simp: pushback_def sane_delay_def [of None] split: option.split)
qed

lemma rpc_message_not_empty: "rpc_message exc \<noteq> []"
  by (auto simp: rpc_message_def code_str_def split: option.split)

lemma grpc_keeps_contract:
  assumes "otlp_encoder (en_encode (gt_encoder t)) (en_decode (gt_encoder t))"
  shows "otlp_transport (grpc_send t env)"
proof
  have "outcome_of_response (gt_encoder t) kind raw = Inr r \<Longrightarrow> \<not> is_retryable r" for kind raw r
    using outcome_of_response_delivered [OF assms] delivered_iff by blast
  then show "grpc_send t env kind payload hs w = Some (Inr r, w') \<Longrightarrow> is_retryable r \<Longrightarrow>
      sane_delay (rt_retry_after r)" for kind payload hs w r w'
    by (auto simp: grpc_send_def grpc_classify_def pushback_sane
        split: option.splits call_result.splits if_splits)
qed

interpretation grpc: otlp_transport
    "grpc_send (t\<lparr>gt_encoder := protobuf_encoder_of serialize from_string\<rparr>) env"
  for t and env :: "'w grpc_env" and serialize from_string
  by (rule grpc_keeps_contract) (simp add: protobuf_encoder_of_def protobuf_encoder.otlp_encoder_axioms)

interpretation http_protobuf: otlp_transport
    "http_send (t\<lparr>ht_encoder := protobuf_encoder_of serialize from_string\<rparr>) env"
  for t and env :: "'w http_env" and serialize from_string
  by (rule http_keeps_contract) (simp add: protobuf_encoder_of_def protobuf_encoder.otlp_encoder_axioms)

text \<open>
  C23. A gRPC send makes one call, and its outcome is decided by the answer: a response is
  delivered; \<^verbatim>\<open>UNAVAILABLE\<close>, \<^verbatim>\<open>DEADLINE_EXCEEDED\<close> and \<^verbatim>\<open>RESOURCE_EXHAUSTED\<close> are retryable, every
  other code permanent; exactly the two authentication codes count as a credential rejection;
  the message is never empty and a pushback is never negative or NaN.
\<close>

theorem grpc_send_outcome:
  assumes "otlp_encoder (en_encode (gt_encoder t)) (en_decode (gt_encoder t))"
    and "grpc_send t env kind payload hs w = Some (Inr out, w')"
  shows "\<exists>answer. ge_call env (grpc_request t kind payload hs) w = Some (answer, w') \<and>
    (is_delivered out \<longleftrightarrow> (\<exists>raw. answer = Answered raw)) \<and>
    (is_retryable out \<longleftrightarrow> (\<exists>exc. answer = RpcError exc \<and>
       rpc_code exc \<in> {UNAVAILABLE, DEADLINE_EXCEEDED, RESOURCE_EXHAUSTED})) \<and>
    (is_credential_rejection out \<longleftrightarrow> (\<exists>exc. answer = RpcError exc \<and>
       rpc_code exc \<in> {UNAUTHENTICATED, PERMISSION_DENIED})) \<and>
    (case out of
       Retryable st msg d \<Rightarrow> msg \<noteq> [] \<and> (case d of None \<Rightarrow> True | Some x \<Rightarrow> f_le (Fin 0) x \<and> \<not> f_negative x)
     | Permanent st msg \<Rightarrow> msg \<noteq> []
     | _ \<Rightarrow> True)"
proof -
  obtain answer where call: "ge_call env (grpc_request t kind payload hs) w = Some (answer, w')"
    and out: "case answer of Answered raw \<Rightarrow> outcome_of_response (gt_encoder t) kind raw = Inr out
      | RpcError exc \<Rightarrow> out = grpc_classify exc | CallRaised e \<Rightarrow> False"
    using assms(2) by (auto simp: grpc_send_def split: option.splits call_result.splits)
  show ?thesis
  proof (cases answer)
    case (Answered raw)
    then have "is_delivered out"
      using out outcome_of_response_delivered [OF assms(1)] by simp
    with call Answered show ?thesis
      by (cases out) auto
  next
    case (RpcError exc)
    have "auth_status (rpc_code exc) \<in> {Some 401, Some 403} \<longleftrightarrow>
        rpc_code exc \<in> {UNAUTHENTICATED, PERMISSION_DENIED}"
      by (cases "rpc_code exc") auto
    with call RpcError out pushback_sane [of exc] show ?thesis
      by (auto simp: grpc_classify_def grpc_retryable_def rpc_message_not_empty sane_delay_def)
  next
    case (CallRaised e)
    with out show ?thesis by simp
  qed
qed

definition sample_grpc :: grpc_transport where
  "sample_grpc = \<lparr>gt_config = OTLPConfig (S ''http://h:4317''),
     gt_encoder = protobuf_encoder_of (\<lambda>_. Inr [1]) (\<lambda>_ _. None),
     gt_channel = InsecureChannel (S ''h:4317'')\<rparr>"

definition refusing_channel :: "rpc_error \<Rightarrow> grpc_call list grpc_env" where
  "refusing_channel exc =
     \<lparr>ge_call = (\<lambda>rq past. Some (RpcError exc, past @ [rq])), ge_close = returnE ()\<rparr>"

definition revoked_token :: rpc_error where
  "revoked_token = \<lparr>rpc_code = UNAUTHENTICATED, rpc_details = Some [], rpc_trailing_metadata = None\<rparr>"

lemma sample_grpc_encoder:
  "otlp_encoder (en_encode (gt_encoder sample_grpc)) (en_decode (gt_encoder sample_grpc))"
  by (simp add: sample_grpc_def protobuf_encoder_of_def protobuf_encoder.otlp_encoder_axioms)

lemma grpc_send_outcome_witness:
  "grpc_send sample_grpc (refusing_channel revoked_token) LOGS [7] [] [] =
     Some (Inr (Permanent (Some 401) (S ''StatusCode.UNAUTHENTICATED'')),
       [grpc_request sample_grpc LOGS [7] []]) \<and>
   is_credential_rejection (Permanent (Some 401) (S ''StatusCode.UNAUTHENTICATED''))"
proof -
  have run: "grpc_send sample_grpc (refusing_channel revoked_token) LOGS [7] [] [] =
     Some (Inr (Permanent (Some 401) (S ''StatusCode.UNAUTHENTICATED'')),
       [grpc_request sample_grpc LOGS [7] []])"
    by (simp add: grpc_send_def refusing_channel_def grpc_classify_def grpc_retryable_def
        revoked_token_def rpc_message_def code_str_def)
  then show ?thesis
    using grpc_send_outcome [OF sample_grpc_encoder run] by simp
qed

subsection \<open>Targets and channels\<close>

lemma no_double_slash: "47 \<notin> set s \<Longrightarrow> \<not> has_double_slash s"
  by (induction s rule: has_double_slash.induct) auto

lemma scheme_double_slash: "has_double_slash (s @ 47 # 47 # r)"
proof (induction s)
  case (Cons a s)
  then show ?case by (cases "s @ 47 # 47 # r") auto
qed simp

lemma urlparse_hostport:
  assumes "url_word [47, 63, 35, 91, 93] netloc"
  shows "\<exists>u. urlparse (47 # 47 # netloc) = Inr u \<and> u_scheme u = [] \<and> u_netloc u = netloc"
proof -
  have "list_all (\<lambda>c. 32 < c) (47 # 47 # netloc)"
    using assms by (auto simp: url_word_def list_all_iff)
  then have clean: "url_clean (47 # 47 # netloc) = 47 # 47 # netloc"
    by (rule url_clean_id)
  have scheme: "split_scheme (47 # 47 # netloc) = ([], 47 # 47 # netloc)"
    by (auto simp: split_scheme_def partition_on_def is_alpha_def split: prod.splits option.splits)
  have "split_netloc (47 # 47 # netloc @ []) = (netloc, [])"
    by (rule split_netloc_plain) (use assms in \<open>auto simp: url_word_def list_all_iff is_host_end_def\<close>)
  then have netloc: "split_netloc (47 # 47 # netloc) = (netloc, [])"
    by simp
  have "91 \<notin> set netloc" "93 \<notin> set netloc"
    using assms by (auto simp: url_word_def list_all_iff)
  then show ?thesis
    unfolding urlparse_def clean scheme
    by (simp add: netloc Let_def partition_on_def)
qed

text \<open>
  The target of a channel is the authority of the endpoint, and its scheme decides the
  transport security: \<^verbatim>\<open>https\<close> is always TLS and \<^verbatim>\<open>http\<close> always plaintext, whatever the configured
  \<^verbatim>\<open>insecure\<close>; only an endpoint without a scheme (or with another one) follows \<^verbatim>\<open>insecure\<close>.
\<close>

theorem grpc_target_security:
  assumes "netloc \<noteq> []" and "url_word [47, 63, 35, 91, 93] netloc"
    and "url_word [63, 35] path" and "path = [] \<or> hd path = 47"
  shows "grpc_target netloc insecure = Inr (netloc, insecure) \<and>
    grpc_target (S ''https://'' @ netloc @ path) insecure = Inr (netloc, False) \<and>
    grpc_target (S ''http://'' @ netloc @ path) insecure = Inr (netloc, True) \<and>
    (plain_scheme sc \<and> sc \<notin> {S ''http'', S ''https''} \<longrightarrow>
      grpc_target (sc @ S ''://'' @ netloc @ path) insecure = Inr (netloc, insecure))"
proof -
  have with_scheme: "grpc_target (s @ 58 # 47 # 47 # netloc @ path) insecure =
      Inr (netloc, if s = S ''https'' then False else if s = S ''http'' then True else insecure)"
    if "plain_scheme s" for s
  proof -
    obtain u where u: "urlparse (s @ 58 # 47 # 47 # netloc @ path @ url_tail [] []) = Inr u"
      "u_scheme u = s" "u_netloc u = netloc"
      using urlparse_plain [OF \<open>plain_scheme s\<close> assms(2-4), of "[]" "[]"] by (auto simp: url_word_def)
    have "has_double_slash (s @ 58 # 47 # 47 # netloc @ path)"
      using scheme_double_slash [of "s @ [58]"] by simp
    then show ?thesis
      using u assms(1) by (simp add: grpc_target_def url_tail_def)
  qed
  have "\<not> has_double_slash netloc"
    using assms(2) by (intro no_double_slash) (auto simp: url_word_def list_all_iff)
  then have bare: "grpc_target netloc insecure = Inr (netloc, insecure)"
    using urlparse_hostport [OF assms(2)] assms(1) by (auto simp: grpc_target_def str_simps)
  have lit: "S ''https://'' = S ''https'' @ [58, 47, 47]" "S ''http://'' = S ''http'' @ [58, 47, 47]"
    "S ''://'' = [58, 47, 47]"
    by (simp_all add: str_simps)
  have plain: "plain_scheme (S ''https'')" "plain_scheme (S ''http'')"
    by (simp_all add: plain_scheme_def str_simps is_alpha_def is_scheme_char_def lower_def lower_char_def)
  show ?thesis
    unfolding lit using bare with_scheme [OF plain(1)] with_scheme [OF plain(2)] with_scheme [of sc]
    by (auto simp del: S_append)
qed

lemma grpc_target_security_witness:
  "grpc_target (S ''collector:4317'') False = Inr (S ''collector:4317'', False) \<and>
   grpc_target (S ''http://'' @ S ''collector:4317'') False = Inr (S ''collector:4317'', True)"
  using grpc_target_security [of "S ''collector:4317''" "[]" False "[]"]
  by (simp add: url_word_def str_simps)



end
