(* ===== verification/Client.thy ===== *)
theory Client
  imports Credentials GrpcTransport JsonCodec
begin

section \<open>The client\<close>

text \<open>
  \<^verbatim>\<open>client.py\<close>: the choice of encoder and transport, the merging of headers, one attempt with its
  single re-authentication, and the export that drives attempts through the retry loop. The
  flag \<^verbatim>\<open>reauthed\<close>, a variable of one export shared by its attempts, is a boolean beside the world.
\<close>

subsection \<open>The object\<close>

record 'w client =
  cl_config :: config
  cl_transport :: "'w transport"
  cl_encoder :: encoder
  cl_credentials :: "'w provider option"
  cl_scope :: instrumentation_scope
  cl_policy :: retry_policy
  cl_sleep :: "pyfloat \<Rightarrow> ('w, unit) io"
  cl_monotonic :: "'w \<Rightarrow> pyfloat \<times> 'w"

definition DEFAULT_SCOPE :: instrumentation_scope where
  "DEFAULT_SCOPE = \<lparr>scope_name = S ''otlp_client'', scope_version = Some (S ''0.5.0''),
     scope_attributes = []\<rparr>"

definition client_init ::
  "config \<Rightarrow> 'w transport \<Rightarrow> encoder \<Rightarrow> 'w provider option \<Rightarrow> instrumentation_scope option \<Rightarrow>
   retry_policy option \<Rightarrow> (pyfloat \<Rightarrow> ('w, unit) io) \<Rightarrow> ('w \<Rightarrow> pyfloat \<times> 'w) \<Rightarrow> 'w client" where
  "client_init c transport enc credentials scope policy sleep monotonic =
     \<lparr>cl_config = c, cl_transport = transport, cl_encoder = enc, cl_credentials = credentials,
      cl_scope = (case scope of Some s \<Rightarrow> s | None \<Rightarrow> DEFAULT_SCOPE),
      cl_policy = (case policy of Some p \<Rightarrow> p | None \<Rightarrow> policy_from_config c),
      cl_sleep = sleep, cl_monotonic = monotonic\<rparr>"

subsection \<open>Building a client\<close>

text \<open>
  What the installation provides: whether the optional extras and \<^verbatim>\<open>orjson\<close> are there, what the
  interpreter's JSON module is made of, and the functions the encoders and transports take from
  the packages.
\<close>

record 'w installation =
  in_protobuf :: bool
  in_grpc :: bool
  in_orjson :: "(json \<Rightarrow> bytes res) option"
  in_repr_float :: "pyfloat \<Rightarrow> str"
  in_read_float :: "str \<Rightarrow> pyfloat"
  in_recursion_limit :: nat
  in_show :: "json \<Rightarrow> str"
  in_serialize :: "pb \<Rightarrow> bytes res"
  in_from_string :: "str \<Rightarrow> bytes \<Rightarrow> (int \<times> str) option"
  in_load_ca :: "str option \<Rightarrow> unit res"
  in_load_chain :: "str \<Rightarrow> str option \<Rightarrow> unit res"
  in_read_file :: "str \<Rightarrow> bytes res"
  in_http :: "'w http_env"
  in_channel :: "'w grpc_env"
  in_sleep :: "pyfloat \<Rightarrow> ('w, unit) io"
  in_monotonic :: "'w \<Rightarrow> pyfloat \<times> 'w"

definition build_encoder :: "'w installation \<Rightarrow> config \<Rightarrow> encoder res" where
  "build_encoder ins c =
     (if cfg_protocol c = HTTP_JSON
      then Inr (json_encoder_of (module_dumps (in_orjson ins) (in_repr_float ins))
        (stdlib_loads (in_read_float ins) (in_recursion_limit ins)) (in_show ins))
      else case build_protobuf_encoder (in_protobuf ins) of
        Inr _ \<Rightarrow> Inr (protobuf_encoder_of (in_serialize ins) (in_from_string ins))
      | Inl (OTLPConfigError m) \<Rightarrow>
          if cfg_protocol c = GRPC then Inl (OTLPConfigError grpc_missing)
          else Inl (OTLPConfigError m)
      | Inl e \<Rightarrow> Inl e)"

text \<open>The \<^verbatim>\<open>session\<close> argument: absent, an \<^verbatim>\<open>aiohttp.ClientSession\<close>, or any other object.\<close>

datatype session_arg = NoSession | ClientSession | OtherObject

definition client_transport ::
  "'w installation \<Rightarrow> config \<Rightarrow> session_arg \<Rightarrow> encoder \<Rightarrow> 'w transport res" where
  "client_transport ins c session enc =
     (if cfg_protocol c = GRPC
      then bindR (grpc_create (in_grpc ins) (in_read_file ins) c enc) (\<lambda>t.
        Inr (grpc_transport_of t (in_channel ins)))
      else if session = OtherObject
      then Inl (OTLPConfigError (S ''session must be an aiohttp.ClientSession''))
      else bindR (http_create (in_load_ca ins) (in_load_chain ins) c enc (session = ClientSession)) (\<lambda>t.
        Inr (http_transport_of t (in_http ins))))"

definition client_create ::
  "'w installation \<Rightarrow> config \<Rightarrow> session_arg \<Rightarrow> instrumentation_scope option \<Rightarrow>
   'w provider option \<Rightarrow> 'w client res" where
  "client_create ins c session scope credentials =
     bindR (build_encoder ins c) (\<lambda>enc.
     bindR (client_transport ins c session enc) (\<lambda>transport.
     Inr (client_init c transport enc credentials scope None (in_sleep ins) (in_monotonic ins))))"

subsection \<open>Headers\<close>

definition client_resource :: "'w client \<Rightarrow> resource" where
  "client_resource cl = (case cfg_resource (cl_config cl) of Some r \<Rightarrow> r | None \<Rightarrow> Resource)"

definition client_headers :: "'w client \<Rightarrow> signal_kind \<Rightarrow> ('w, headers) io" where
  "client_headers cl kind =
     (let static = headers_for (cl_config cl) kind
      in case cl_credentials cl of
           None \<Rightarrow> returnE static
         | Some p \<Rightarrow> bindE (pr_headers p kind) (\<lambda>hs. returnE (dict_union static hs)))"

text \<open>\<^verbatim>\<open>resolve\<close>: headers, or the outcome a transient failure of the provider becomes.\<close>

datatype resolved = Headers headers | Unresolved outcome

definition resolve :: "'w client \<Rightarrow> signal_kind \<Rightarrow> ('w, resolved) io" where
  "resolve cl kind =
     catchE (bindE (client_headers cl kind) (\<lambda>hs. returnE (Headers hs)))
       (\<lambda>e. case e of
          OTLPTransportError m \<Rightarrow>
            returnE (Unresolved (Retryable None (S ''credential provider failed: '' @ m) None))
        | _ \<Rightarrow> raiseE e)"

subsection \<open>One attempt\<close>

definition resolve_and_send :: "'w client \<Rightarrow> signal_kind \<Rightarrow> bytes \<Rightarrow> ('w, outcome) io" where
  "resolve_and_send cl kind payload =
     bindE (resolve cl kind) (\<lambda>r. case r of
       Unresolved out \<Rightarrow> returnE out
     | Headers hs \<Rightarrow> tp_send (cl_transport cl) kind payload hs)"

text \<open>An action on the world alone, the flag left at a value.\<close>

definition with_flag :: "bool \<Rightarrow> ('w, 'a) io \<Rightarrow> 'w \<Rightarrow> ('a res \<times> 'w \<times> bool) option" where
  "with_flag flag m w = map_option (\<lambda>(r, w'). (r, (w', flag))) (m w)"

definition reauthenticate :: "'w client \<Rightarrow> 'w provider \<Rightarrow> signal_kind \<Rightarrow> bytes \<Rightarrow> ('w, outcome) io" where
  "reauthenticate cl p kind payload =
     bindE (pr_invalidate p kind) (\<lambda>_. resolve_and_send cl kind payload)"

text \<open>
  The second half runs only after a send: a failed resolution leaves the attempt first. Its
  outcome is retryable, so the rejection test below is false for it.
\<close>

definition attempt :: "'w client \<Rightarrow> signal_kind \<Rightarrow> bytes \<Rightarrow> ('w \<times> bool, outcome) io" where
  "attempt cl kind payload state =
     (let (w, reauthed) = state
      in case resolve cl kind w of
           None \<Rightarrow> None
         | Some (Inl e, w1) \<Rightarrow> Some (Inl e, (w1, reauthed))
         | Some (Inr (Unresolved out), w1) \<Rightarrow> Some (Inr out, (w1, reauthed))
         | Some (Inr (Headers hs), w1) \<Rightarrow>
             (case tp_send (cl_transport cl) kind payload hs w1 of
                None \<Rightarrow> None
              | Some (Inl e, w2) \<Rightarrow> Some (Inl e, (w2, reauthed))
              | Some (Inr out, w2) \<Rightarrow>
                  (case cl_credentials cl of
                     Some p \<Rightarrow>
                       if \<not> reauthed \<and> is_credential_rejection out
                       then with_flag True (reauthenticate cl p kind payload) w2
                       else Some (Inr out, (w2, reauthed))
                   | None \<Rightarrow> Some (Inr out, (w2, reauthed)))))"

subsection \<open>Export\<close>

definition export_env ::
  "('w \<Rightarrow> pyfloat \<times> 'w) \<Rightarrow> 'w client \<Rightarrow> signal_kind \<Rightarrow> bytes \<Rightarrow> ('w \<times> bool) retry_env" where
  "export_env jitter cl kind payload =
     \<lparr>re_op = attempt cl kind payload,
      re_sleep = (\<lambda>d (w, flag). with_flag flag (cl_sleep cl d) w),
      re_monotonic = (\<lambda>(w, flag). let (t, w') = cl_monotonic cl w in (t, (w', flag))),
      re_jitter = (\<lambda>(w, flag). let (j, w') = jitter w in (j, (w', flag)))\<rparr>"

definition status_text :: "int option \<Rightarrow> str" where
  "status_text st = (case st of None \<Rightarrow> S ''None'' | Some i \<Rightarrow> dec_int i)"

definition export_result :: "signal_kind \<Rightarrow> outcome \<Rightarrow> outcome res" where
  "export_result kind out =
     (case out of
        Permanent st m \<Rightarrow> Inl (OTLPPermanentError (S ''collector rejected '' @ kind_value kind @
          S '' (status '' @ status_text st @ S ''): '' @ m))
      | Retryable _ m _ \<Rightarrow> Inl (OTLPTransportError (S ''could not deliver '' @ kind_value kind @
          S '' after retries: '' @ m))
      | _ \<Rightarrow> Inr out)"

fun envelope_empty :: "envelope \<Rightarrow> bool" where
  "envelope_empty (MetricsData ms) = (ms = [])"
| "envelope_empty (LogsData ls) = (ls = [])"
| "envelope_empty (TracesData ts) = (ts = [])"

definition export ::
  "('w \<Rightarrow> pyfloat \<times> 'w) \<Rightarrow> 'w client \<Rightarrow> signal_kind \<Rightarrow> envelope \<Rightarrow> ('w, outcome) io" where
  "export jitter cl kind data w =
     (if envelope_empty data then Some (Inr Success, w)
      else case en_encode (cl_encoder cl) kind data of
        Inl e \<Rightarrow> Some (Inl e, w)
      | Inr payload \<Rightarrow>
          (case with_retry (export_env jitter cl kind payload) (cl_policy cl) (w, False) of
             None \<Rightarrow> None
           | Some (r, (w', _)) \<Rightarrow> Some (bindR r (export_result kind), w')))"

definition or_else :: "'a option \<Rightarrow> 'a \<Rightarrow> 'a" where
  "or_else x y = (case x of Some a \<Rightarrow> a | None \<Rightarrow> y)"

definition export_resource_metrics ::
  "('w \<Rightarrow> pyfloat \<times> 'w) \<Rightarrow> 'w client \<Rightarrow> resource_metrics list \<Rightarrow> ('w, outcome) io" where
  "export_resource_metrics jitter cl data = export jitter cl METRICS (MetricsData data)"

definition export_resource_logs ::
  "('w \<Rightarrow> pyfloat \<times> 'w) \<Rightarrow> 'w client \<Rightarrow> resource_logs list \<Rightarrow> ('w, outcome) io" where
  "export_resource_logs jitter cl data = export jitter cl LOGS (LogsData data)"

definition export_resource_spans ::
  "('w \<Rightarrow> pyfloat \<times> 'w) \<Rightarrow> 'w client \<Rightarrow> resource_spans list \<Rightarrow> ('w, outcome) io" where
  "export_resource_spans jitter cl data = export jitter cl TRACES (TracesData data)"

definition export_metrics ::
  "('w \<Rightarrow> pyfloat \<times> 'w) \<Rightarrow> 'w client \<Rightarrow> metric list \<Rightarrow> resource option \<Rightarrow>
   instrumentation_scope option \<Rightarrow> ('w, outcome) io" where
  "export_metrics jitter cl metrics resource scope =
     (if metrics = [] then returnE Success
      else export_resource_metrics jitter cl
        [\<lparr>rm_resource = or_else resource (client_resource cl),
          rm_scope_metrics = [\<lparr>sm_scope = or_else scope (cl_scope cl), sm_metrics = metrics\<rparr>]\<rparr>])"

definition export_logs ::
  "('w \<Rightarrow> pyfloat \<times> 'w) \<Rightarrow> 'w client \<Rightarrow> log_record list \<Rightarrow> resource option \<Rightarrow>
   instrumentation_scope option \<Rightarrow> ('w, outcome) io" where
  "export_logs jitter cl records resource scope =
     (if records = [] then returnE Success
      else export_resource_logs jitter cl
        [\<lparr>rl_resource = or_else resource (client_resource cl),
          rl_scope_logs = [\<lparr>sl_scope = or_else scope (cl_scope cl), sl_log_records = records\<rparr>]\<rparr>])"

definition export_traces ::
  "('w \<Rightarrow> pyfloat \<times> 'w) \<Rightarrow> 'w client \<Rightarrow> span list \<Rightarrow> resource option \<Rightarrow>
   instrumentation_scope option \<Rightarrow> ('w, outcome) io" where
  "export_traces jitter cl spans resource scope =
     (if spans = [] then returnE Success
      else export_resource_spans jitter cl
        [\<lparr>rs_resource = or_else resource (client_resource cl),
          rs_scope_spans = [\<lparr>ss_scope = or_else scope (cl_scope cl), ss_spans = spans\<rparr>]\<rparr>])"

definition client_aclose :: "'w client \<Rightarrow> ('w, unit) io" where
  "client_aclose cl = tp_aclose (cl_transport cl)"

text \<open>\<^verbatim>\<open>async with\<close>: whatever the body does, leaving it closes the transport, once.\<close>

definition client_aenter :: "'w client \<Rightarrow> 'w client" where
  "client_aenter cl = cl"

definition client_aexit :: "'w client \<Rightarrow> ('w, unit) io" where
  "client_aexit cl = client_aclose cl"

subsection \<open>The ways an attempt can go\<close>

definition provider_failure :: "str \<Rightarrow> outcome" where
  "provider_failure m = Retryable None (S ''credential provider failed: '' @ m) None"

lemma provider_failure_simps [simp]:
  "is_retryable (provider_failure m)" "\<not> is_permanent (provider_failure m)"
  "\<not> is_delivered (provider_failure m)" "\<not> is_credential_rejection (provider_failure m)"
  "rt_retry_after (provider_failure m) = None"
  by (simp_all add: provider_failure_def)

lemma resolve_cases:
  assumes "resolve cl kind w = Some (r, w')"
  obtains (headers) hs where "client_headers cl kind w = Some (Inr hs, w')" "r = Inr (Headers hs)"
  | (transient) m where "client_headers cl kind w = Some (Inl (OTLPTransportError m), w')"
      "r = Inr (Unresolved (provider_failure m))"
  | (raised) e where "client_headers cl kind w = Some (Inl e, w')" "r = Inl e"
      "\<forall>m. e \<noteq> OTLPTransportError m"
proof -
  obtain q v where q: "client_headers cl kind w = Some (q, v)"
    using assms by (cases "client_headers cl kind w") (auto simp: resolve_def catchE_def bindE_def)
  show thesis
  proof (cases q)
    case (Inl e)
    with assms q show thesis
      by (cases e) (auto simp: resolve_def catchE_def bindE_def provider_failure_def
          intro: transient raised)
  next
    case (Inr hs)
    with assms q show thesis
      by (auto simp: resolve_def catchE_def bindE_def intro: headers)
  qed
qed

lemma resolve_and_send_cases:
  assumes "resolve_and_send cl kind payload w = Some (r, w')"
  obtains (sent) hs w1 where "client_headers cl kind w = Some (Inr hs, w1)"
      "tp_send (cl_transport cl) kind payload hs w1 = Some (r, w')"
  | (transient) m where "client_headers cl kind w = Some (Inl (OTLPTransportError m), w')"
      "r = Inr (provider_failure m)"
  | (raised) e where "client_headers cl kind w = Some (Inl e, w')" "r = Inl e"
      "\<forall>m. e \<noteq> OTLPTransportError m"
proof -
  obtain q v where q: "resolve cl kind w = Some (q, v)"
    using assms by (cases "resolve cl kind w") (auto simp: resolve_and_send_def bindE_def)
  then show thesis
    by (cases rule: resolve_cases)
      (use assms q in \<open>auto simp: resolve_and_send_def bindE_def intro: sent transient raised\<close>)
qed

lemma attempt_cases:
  assumes "attempt cl kind payload (w, f) = Some (r, (w', f'))"
  obtains (sent) hs w1 where "client_headers cl kind w = Some (Inr hs, w1)"
      "tp_send (cl_transport cl) kind payload hs w1 = Some (r, w')" "f' = f"
      "\<And>out p. r = Inr out \<Longrightarrow> cl_credentials cl = Some p \<Longrightarrow> f \<or> \<not> is_credential_rejection out"
  | (transient) m where "client_headers cl kind w = Some (Inl (OTLPTransportError m), w')"
      "r = Inr (provider_failure m)" "f' = f"
  | (raised) e where "client_headers cl kind w = Some (Inl e, w')" "r = Inl e" "f' = f"
      "\<forall>m. e \<noteq> OTLPTransportError m"
  | (renewed) hs w1 out w2 p where "client_headers cl kind w = Some (Inr hs, w1)"
      "tp_send (cl_transport cl) kind payload hs w1 = Some (Inr out, w2)"
      "is_credential_rejection out" "cl_credentials cl = Some p" "\<not> f" "f'"
      "reauthenticate cl p kind payload w2 = Some (r, w')"
proof -
  obtain q v where q: "resolve cl kind w = Some (q, v)"
    using assms by (cases "resolve cl kind w") (auto simp: attempt_def)
  then show thesis
  proof (cases rule: resolve_cases)
    case (headers hs)
    obtain s u where s: "tp_send (cl_transport cl) kind payload hs v = Some (s, u)"
      using assms q headers by (cases "tp_send (cl_transport cl) kind payload hs v") (auto simp: attempt_def)
    show thesis
    proof (cases "\<exists>out p. s = Inr out \<and> cl_credentials cl = Some p \<and> \<not> f \<and> is_credential_rejection out")
      case True
      then show thesis
        using assms q headers s by (auto simp: attempt_def with_flag_def intro: renewed)
    next
      case False
      then have "s = r \<and> u = w' \<and> f' = f"
        using assms q headers s
        by (auto simp: attempt_def split: sum.splits option.splits if_splits)
      then show thesis
        using False s headers by (intro sent) auto
    qed
  qed (use assms q in \<open>auto simp: attempt_def intro: transient raised\<close>)
qed

lemma reauthenticate_cases:
  assumes "reauthenticate cl p kind payload w = Some (r, w')"
  obtains (stuck) e where "pr_invalidate p kind w = Some (Inl e, w')" "r = Inl e"
  | (again) u w1 where "pr_invalidate p kind w = Some (Inr u, w1)"
      "resolve_and_send cl kind payload w1 = Some (r, w')"
  using assms unfolding reauthenticate_def bindE_Some_iff by blast

subsection \<open>What a client relies on\<close>

text \<open>
  A client whose encoder, transport and provider keep their contracts. Inside the locale the
  contracts of the three interfaces are at hand for the lemmas on resolution and attempts.
\<close>

locale export_session =
  fixes cl :: "'w client"
  assumes encoder: "otlp_encoder (en_encode (cl_encoder cl)) (en_decode (cl_encoder cl))"
    and transport: "otlp_transport (tp_send (cl_transport cl))"
    and provider: "cl_credentials cl = Some p \<Longrightarrow> credential_provider (pr_headers p) (pr_invalidate p)"
begin

lemma profiles_refused: "\<not> envelope_empty data \<Longrightarrow>
    export jitter cl PROFILES data w = Some (Inl (NotImplementedError profiles_unsupported), w)"
  by (simp add: export_def otlp_encoder.encode_profiles [OF encoder])

lemma resolved_headers:
  assumes "cl_credentials cl = Some p" and "client_headers cl kind w = Some (Inr hs, w')"
  shows "\<exists>h. pr_headers p kind w = Some (Inr h, w') \<and>
    map_of hs (S ''authorization'') = map_of h (S ''authorization'') \<and>
    map_of h (S ''authorization'') \<noteq> None \<and>
    (\<forall>k. k \<noteq> S ''authorization'' \<longrightarrow> map_of hs k = map_of (headers_for (cl_config cl) kind) k)"
proof -
  obtain h where h: "pr_headers p kind w = Some (Inr h, w')"
    "hs = dict_union (headers_for (cl_config cl) kind) h"
    using assms by (auto simp: client_headers_def Let_def bindE_Some_iff)
  have "map_of h (S ''authorization'') \<noteq> None"
    using credential_provider.only_authorization [OF provider [OF assms(1)] h(1)] by auto
  then show ?thesis
    using credential_provider.merged_headers [OF provider [OF assms(1)] h(1)] h by blast
qed

lemma resolve_and_send_delay:
  assumes "resolve_and_send cl kind payload w = Some (Inr out, w')" and "is_retryable out"
  shows "sane_delay (rt_retry_after out)"
  using assms(1)
  by (cases rule: resolve_and_send_cases)
    (use assms(2) in \<open>auto simp: sane_delay_def [of None] dest: otlp_transport.retry_delay [OF transport]\<close>)

lemma attempt_delay:
  assumes "attempt cl kind payload (w, f) = Some (Inr out, (w', f'))" and "is_retryable out"
  shows "sane_delay (rt_retry_after out)"
  using assms(1)
proof (cases rule: attempt_cases)
  case (renewed hs w1 out' w2 p)
  from renewed(7) show ?thesis
    by (cases rule: reauthenticate_cases) (auto intro: resolve_and_send_delay assms(2))
qed (use assms(2) in \<open>auto simp: sane_delay_def [of None] dest: otlp_transport.retry_delay [OF transport]\<close>)

text \<open>Re-authentication does not fail by itself: what it raises comes from the second try.\<close>

lemma reauthenticate_eq:
  assumes "cl_credentials cl = Some p"
  obtains w1 where "pr_invalidate p kind w = Some (Inr (), w1)"
    and "reauthenticate cl p kind payload w = resolve_and_send cl kind payload w1"
proof -
  obtain w1 where "pr_invalidate p kind w = Some (Inr (), w1)"
    using credential_provider.invalidate_total [OF provider [OF assms]] by blast
  then show thesis
    by (rule that) (simp add: reauthenticate_def bindE_def \<open>pr_invalidate p kind w = Some (Inr (), w1)\<close>)
qed

end

text \<open>The contracts hold for the clients the code can build.\<close>

lemma export_session_http:
  assumes "otlp_encoder (en_encode (ht_encoder t)) (en_decode (ht_encoder t))"
    and "\<And>p. credentials = Some p \<Longrightarrow> credential_provider (pr_headers p) (pr_invalidate p)"
  shows "export_session (client_init c (http_transport_of t env) (ht_encoder t) credentials scope policy
    sleep monotonic)"
  by (rule export_session.intro)
    (use assms in \<open>simp_all add: client_init_def http_transport_of_def http_keeps_contract\<close>)

lemma export_session_grpc:
  assumes "otlp_encoder (en_encode (gt_encoder t)) (en_decode (gt_encoder t))"
    and "\<And>p. credentials = Some p \<Longrightarrow> credential_provider (pr_headers p) (pr_invalidate p)"
  shows "export_session (client_init c (grpc_transport_of t env) (gt_encoder t) credentials scope policy
    sleep monotonic)"
  by (rule export_session.intro)
    (use assms in \<open>simp_all add: client_init_def grpc_transport_of_def grpc_keeps_contract\<close>)

lemma json_contract:
  "otlp_encoder (en_encode (json_encoder_of dumps loads str_of)) (en_decode (json_encoder_of dumps loads str_of))"
  by (simp add: json_encoder_of_def json_encoder.otlp_encoder_axioms)

lemma protobuf_contract:
  "otlp_encoder (en_encode (protobuf_encoder_of ser parse)) (en_decode (protobuf_encoder_of ser parse))"
  by (simp add: protobuf_encoder_of_def protobuf_encoder.otlp_encoder_axioms)

lemma bearer_contract:
  "credential_provider (pr_headers (bearer_provider src)) (pr_invalidate (bearer_provider src))"
  by (simp add: bearer_provider_def bearer.credential_provider_axioms)

lemma oauth_contract:
  "credential_provider (pr_headers (oauth_provider oc env)) (pr_invalidate (oauth_provider oc env))"
  by (simp add: oauth_provider_def oauth.credential_provider_axioms)

interpretation plain_client: export_session
    "client_init c (http_transport_of (http_transport.make c (json_encoder_of dumps loads str_of) owns ssl) env)
      (json_encoder_of dumps loads str_of) None scope policy sleep monotonic"
  for c dumps loads str_of owns ssl scope policy sleep and env :: "'w http_env" and monotonic
  using export_session_http [of "http_transport.make c (json_encoder_of dumps loads str_of) owns ssl" None]
  by (simp add: http_transport.make_def json_contract)

interpretation bearer_client: export_session
    "client_init c (grpc_transport_of \<lparr>gt_config = c, gt_encoder = protobuf_encoder_of ser parse,
      gt_channel = ch\<rparr> env) (protobuf_encoder_of ser parse) (Some (bearer_provider src)) scope policy
      sleep monotonic"
  for c ser parse ch src scope policy sleep and env :: "'w grpc_env" and monotonic
  using export_session_grpc [of "\<lparr>gt_config = c, gt_encoder = protobuf_encoder_of ser parse, gt_channel = ch\<rparr>"
      "Some (bearer_provider src)"]
  by (simp add: protobuf_contract bearer_contract)

interpretation oauth_client: export_session
    "client_init c (http_transport_of (http_transport.make c (json_encoder_of dumps loads str_of) owns ssl) henv)
      (json_encoder_of dumps loads str_of) (Some (oauth_provider oc env)) scope policy sleep monotonic"
  for c dumps loads str_of owns ssl oc scope policy sleep and env :: "'w oauth_env"
    and henv :: "(oauth_state \<times> 'w) http_env" and monotonic
  using export_session_http [of "http_transport.make c (json_encoder_of dumps loads str_of) owns ssl"
      "Some (oauth_provider oc env)"]
  by (simp add: http_transport.make_def json_contract oauth_contract)

subsection \<open>Properties of the client\<close>

lemma build_encoder_cases:
  assumes "build_encoder ins c = Inr enc"
  shows "otlp_encoder (en_encode enc) (en_decode enc) \<and>
    en_content_type enc = (if cfg_protocol c = HTTP_JSON then json_content_type else pb_content_type) \<and>
    (cfg_protocol c \<noteq> HTTP_JSON \<longrightarrow> in_protobuf ins)"
  using assms json_contract protobuf_contract
  by (auto simp: build_encoder_def build_protobuf_encoder_def json_encoder_of_def protobuf_encoder_of_def
      split: if_splits)

lemma client_transport_contract:
  assumes "client_transport ins c session enc = Inr tr" and "otlp_encoder (en_encode enc) (en_decode enc)"
  shows "otlp_transport (tp_send tr) \<and> (cfg_protocol c = GRPC \<longrightarrow> in_grpc ins)"
proof (cases "cfg_protocol c = GRPC")
  case True
  then obtain t where t: "grpc_create (in_grpc ins) (in_read_file ins) c enc = Inr t"
    "tr = grpc_transport_of t (in_channel ins)"
    using assms(1) by (auto simp: client_transport_def bindR_Inr_iff)
  then have "gt_encoder t = enc" "in_grpc ins"
    by (auto simp: grpc_create_def bindR_Inr_iff split: if_splits)
  with t assms(2) show ?thesis
    by (simp add: grpc_transport_of_def grpc_keeps_contract)
next
  case False
  then obtain t where t: "http_create (in_load_ca ins) (in_load_chain ins) c enc (session = ClientSession) = Inr t"
    "tr = http_transport_of t (in_http ins)"
    using assms(1) by (auto simp: client_transport_def bindR_Inr_iff split: if_splits)
  then have "ht_encoder t = enc"
    by (auto simp: http_create_def bindR_Inr_iff)
  with False t assms(2) show ?thesis
    by (simp add: http_transport_of_def http_keeps_contract)
qed

text \<open>
  C29. What \<^verbatim>\<open>create\<close> builds fits together: whenever it returns a client, the encoder is the one the
  protocol names and is the one installed, the transport keeps the transport contract with that
  encoder, a gRPC client always speaks protobuf, the retry policy is the configuration's, and
  the scope is the given one or the library's own.
\<close>

theorem client_create_wired:
  assumes "client_create ins c session scope credentials = Inr cl"
    and "\<And>p. credentials = Some p \<Longrightarrow> credential_provider (pr_headers p) (pr_invalidate p)"
  shows "export_session cl \<and> cl_config cl = c \<and> cl_policy cl = policy_from_config c \<and>
    en_content_type (cl_encoder cl) =
      (if cfg_protocol c = HTTP_JSON then S ''application/json'' else S ''application/x-protobuf'') \<and>
    (cfg_protocol c \<noteq> HTTP_JSON \<longrightarrow> in_protobuf ins) \<and> (cfg_protocol c = GRPC \<longrightarrow> in_grpc ins) \<and>
    (cfg_protocol c = GRPC \<or> session \<noteq> OtherObject) \<and>
    cl_scope cl = (case scope of Some s \<Rightarrow> s | None \<Rightarrow> DEFAULT_SCOPE)"
proof -
  obtain enc tr where enc: "build_encoder ins c = Inr enc"
    and tr: "client_transport ins c session enc = Inr tr"
    and cl: "cl = client_init c tr enc credentials scope None (in_sleep ins) (in_monotonic ins)"
    using assms(1) by (auto simp: client_create_def bindR_Inr_iff)
  have "export_session cl"
    by (rule export_session.intro)
      (use build_encoder_cases [OF enc] client_transport_contract [OF tr] assms(2) in
        \<open>simp_all add: cl client_init_def\<close>)
  moreover have "cfg_protocol c = GRPC \<or> session \<noteq> OtherObject"
    using tr by (auto simp: client_transport_def)
  ultimately show ?thesis
    using build_encoder_cases [OF enc] client_transport_contract [OF tr]
    by (simp add: cl client_init_def json_content_type_def pb_content_type_def)
qed

definition bare_installation :: "unit installation" where
  "bare_installation =
     \<lparr>in_protobuf = False, in_grpc = False, in_orjson = None, in_repr_float = (\<lambda>_. S ''0.0''),
      in_read_float = (\<lambda>_. Fin 0), in_recursion_limit = 1000, in_show = (\<lambda>_. []), in_serialize = (\<lambda>_. Inr []), in_from_string = (\<lambda>_ _. None),
      in_load_ca = (\<lambda>_. Inr ()), in_load_chain = (\<lambda>_ _. Inr ()), in_read_file = (\<lambda>_. Inr []),
      in_http = \<lparr>he_post = (\<lambda>_ _. None), he_gzip = id, he_gzip_thread = returnE, he_time = Pair (Fin 0),
        he_local_timestamp = (\<lambda>_. Inr (Fin 0)), he_close = returnE ()\<rparr>,
      in_channel = \<lparr>ge_call = (\<lambda>_ _. None), ge_close = returnE ()\<rparr>,
      in_sleep = (\<lambda>_. returnE ()), in_monotonic = Pair (Fin 0)\<rparr>"

lemma client_create_wired_witness:
  "\<exists>cl. client_create bare_installation (OTLPConfig (S ''http://h'')) NoSession None None = Inr cl \<and>
     en_content_type (cl_encoder cl) = S ''application/json''"
proof -
  have "\<exists>cl. client_create bare_installation (OTLPConfig (S ''http://h'')) NoSession None None = Inr cl"
    by (simp add: client_create_def build_encoder_def client_transport_def http_create_def
        build_ssl_context_def given_def bare_installation_def OTLPConfig_def)
  then obtain cl where "client_create bare_installation (OTLPConfig (S ''http://h'')) NoSession None None = Inr cl"
    by blast
  with client_create_wired [OF this] show ?thesis
    by (auto simp: OTLPConfig_def)
qed

text \<open>
  The provider's header wins: with a provider, the headers of an export carry its
  \<^verbatim>\<open>authorization\<close> in place of a configured one, and every other configured header unchanged;
  without a provider they are the configured headers, the signal's own if it has any.
\<close>

theorem provider_header_wins:
  assumes "export_session cl" and "client_headers cl kind w = Some (Inr hs, w')"
  shows "(cl_credentials cl = None \<longrightarrow> hs = headers_for (cl_config cl) kind \<and> w' = w) \<and>
    (\<forall>p. cl_credentials cl = Some p \<longrightarrow>
      (\<exists>v. pr_headers p kind w = Some (Inr [(S ''authorization'', v)], w') \<and>
        map_of hs (S ''authorization'') = Some v) \<and>
      (\<forall>k. k \<noteq> S ''authorization'' \<longrightarrow> map_of hs k = map_of (headers_for (cl_config cl) kind) k))"
proof (intro conjI impI allI)
  fix p assume p: "cl_credentials cl = Some p"
  obtain h where h: "pr_headers p kind w = Some (Inr h, w')"
    "map_of hs (S ''authorization'') = map_of h (S ''authorization'')"
    using export_session.resolved_headers [OF assms(1) p assms(2)] by blast
  obtain v where "h = [(S ''authorization'', v)]"
    using credential_provider.only_authorization [OF export_session.provider [OF assms(1) p] h(1)] by blast
  with h show "\<exists>v. pr_headers p kind w = Some (Inr [(S ''authorization'', v)], w') \<and>
      map_of hs (S ''authorization'') = Some v"
    by simp
next
  fix p k assume "cl_credentials cl = Some p" "k \<noteq> S ''authorization''"
  with export_session.resolved_headers [OF assms(1) this(1) assms(2)]
  show "map_of hs k = map_of (headers_for (cl_config cl) kind) k"
    by blast
qed (use assms(2) in \<open>simp_all add: client_headers_def\<close>)

definition configured_client :: "unit client" where
  "configured_client = client_init
     ((OTLPConfig (S ''http://h''))\<lparr>cfg_headers := [(S ''authorization'', S ''stale''), (S ''x'', S ''1'')]\<rparr>)
     (grpc_transport_of sample_grpc \<lparr>ge_call = (\<lambda>_ w. Some (Answered [], w)), ge_close = returnE ()\<rparr>)
     (gt_encoder sample_grpc) (Some (bearer_provider (StaticToken (S ''t'')))) None (Some default_policy)
     (\<lambda>_. returnE ()) (Pair (Fin 0))"

lemma configured_client_session: "export_session configured_client"
  unfolding configured_client_def
  by (rule export_session_grpc) (auto simp: sample_grpc_encoder bearer_contract)

lemma provider_header_wins_witness:
  "\<exists>hs. client_headers configured_client LOGS () = Some (Inr hs, ()) \<and>
     map_of hs (S ''authorization'') = Some (S ''Bearer t'') \<and> map_of hs (S ''x'') = Some (S ''1'')"
proof -
  let ?p = "bearer_provider (StaticToken (S ''t'')) :: unit provider"
  have cred: "cl_credentials configured_client = Some ?p"
    by (simp add: configured_client_def client_init_def)
  have headers: "pr_headers ?p LOGS () = Some (Inr [(S ''authorization'', S ''Bearer t'')], ())"
    by (simp add: bearer_provider_def bearer_headers_def bindE_def bearer_value_def)
  then have "\<exists>hs. client_headers configured_client LOGS () = Some (Inr hs, ())"
    by (simp add: client_headers_def cred bindE_def Let_def)
  then obtain hs where hs: "client_headers configured_client LOGS () = Some (Inr hs, ())"
    by blast
  have "map_of (headers_for (cl_config configured_client) LOGS) (S ''x'') = Some (S ''1'')"
    by (simp add: configured_client_def client_init_def headers_for_def OTLPConfig_def)
  then show ?thesis
    using provider_header_wins [OF configured_client_session hs] hs cred headers by auto
qed

subsection \<open>What an export returns and raises\<close>

lemma with_retry_outcome:
  assumes "with_retry env policy w = Some (Inr out, w')"
  shows "\<exists>wa wb. re_op env wa = Some (Inr out, wb)"
proof -
  obtain a wa where "retry_ends env policy (fst (re_monotonic env w)) (a, wa) (Inr out, w')"
    using assms unfolding with_retry_iff by (metis surj_pair)
  then have "retry_turn env policy (fst (re_monotonic env w)) a wa = Some (Leave (Inr out), w')"
    by (auto elim: retry_ends_elim)
  then show ?thesis
    by (cases rule: retry_turn_cases) auto
qed

lemma with_retry_raised:
  assumes "with_retry env policy w = Some (Inl e, w')"
  obtains (operation) wa wb where "re_op env wa = Some (Inl e, wb)"
  | (asleep) d wa where "re_sleep env d wa = Some (Inl e, w')"
  | (backoff) a where "py_pow (rp_multiplier policy) a = Inl e"
proof -
  obtain a wa where ends: "retry_ends env policy (fst (re_monotonic env w)) (a, wa) (Inl e, w')"
    using assms unfolding with_retry_iff by (metis surj_pair)
  then consider (left) "retry_turn env policy (fst (re_monotonic env w)) a wa = Some (Leave (Inl e), w')"
    | (slept) d w1 where "re_sleep env d w1 = Some (Inl e, w')"
    by (auto elim: retry_ends_elim)
  then show thesis
  proof cases
    case left
    then show thesis
      by (cases rule: retry_turn_cases)
        (auto simp: choose_delay_def Let_def intro: operation backoff split: sum.splits option.splits prod.splits)
  qed (rule asleep)
qed

text \<open>A send of the payload, made with headers the client resolved, that gives \<open>r\<close>.\<close>

definition client_sends :: "'w client \<Rightarrow> signal_kind \<Rightarrow> bytes \<Rightarrow> outcome res \<Rightarrow> bool" where
  "client_sends cl kind payload r \<longleftrightarrow>
     (\<exists>v hs w w'. client_headers cl kind v = Some (Inr hs, w) \<and>
        tp_send (cl_transport cl) kind payload hs w = Some (r, w'))"

text \<open>What the provider can raise into an attempt: from \<^verbatim>\<open>headers\<close>, bar the transient one, or from \<^verbatim>\<open>invalidate\<close>.\<close>

definition provider_raises :: "'w client \<Rightarrow> signal_kind \<Rightarrow> exn \<Rightarrow> bool" where
  "provider_raises cl kind e \<longleftrightarrow>
     (\<exists>p w w'. cl_credentials cl = Some p \<and>
       (pr_headers p kind w = Some (Inl e, w') \<and> (\<forall>m. e \<noteq> OTLPTransportError m) \<or>
        pr_invalidate p kind w = Some (Inl e, w')))"

definition provider_unavailable :: "'w client \<Rightarrow> signal_kind \<Rightarrow> str \<Rightarrow> bool" where
  "provider_unavailable cl kind m \<longleftrightarrow>
     (\<exists>p w w'. cl_credentials cl = Some p \<and> pr_headers p kind w = Some (Inl (OTLPTransportError m), w'))"

lemma client_headers_raised:
  "client_headers cl kind w = Some (Inl e, w') \<Longrightarrow>
    \<exists>p. cl_credentials cl = Some p \<and> pr_headers p kind w = Some (Inl e, w')"
  by (auto simp: client_headers_def Let_def bindE_Some_iff split: option.splits)

lemma resolve_and_send_source:
  assumes "resolve_and_send cl kind payload w = Some (r, w')"
  shows "client_sends cl kind payload r \<or> (\<exists>m. r = Inr (provider_failure m) \<and> provider_unavailable cl kind m) \<or>
    (\<exists>e. r = Inl e \<and> provider_raises cl kind e)"
  using assms
  by (cases rule: resolve_and_send_cases)
    (auto simp: client_sends_def provider_raises_def provider_unavailable_def dest!: client_headers_raised)

lemma attempt_source:
  assumes "attempt cl kind payload s = Some (r, s')"
  shows "client_sends cl kind payload r \<or> (\<exists>m. r = Inr (provider_failure m) \<and> provider_unavailable cl kind m) \<or>
    (\<exists>e. r = Inl e \<and> provider_raises cl kind e)"
proof -
  obtain w f w' f' where s: "s = (w, f)" "s' = (w', f')" by (metis surj_pair)
  from assms [unfolded s] show ?thesis
  proof (cases rule: attempt_cases)
    case (renewed hs w1 out w2 p)
    from renewed(7) show ?thesis
    proof (cases rule: reauthenticate_cases)
      case (again u w1)
      from again(2) show ?thesis by (rule resolve_and_send_source)
    qed (use renewed(4) in \<open>auto simp: provider_raises_def\<close>)
  qed (auto simp: client_sends_def provider_raises_def provider_unavailable_def dest!: client_headers_raised)
qed

lemma export_delivered:
  assumes "export jitter cl kind data w = Some (Inr r, w')" and "\<not> envelope_empty data"
  shows "is_delivered r \<and>
    (\<exists>payload. en_encode (cl_encoder cl) kind data = Inr payload \<and> client_sends cl kind payload (Inr r))"
proof -
  obtain payload q f where payload: "en_encode (cl_encoder cl) kind data = Inr payload"
    and run: "with_retry (export_env jitter cl kind payload) (cl_policy cl) (w, False) = Some (q, (w', f))"
    and q: "bindR q (export_result kind) = Inr r"
    using assms unfolding export_def by (auto split: sum.splits option.splits)
  then obtain out where out: "q = Inr out" "export_result kind out = Inr r"
    by (auto simp: bindR_Inr_iff)
  then have r: "out = r" "is_delivered r"
    by (auto simp: export_result_def split: outcome.splits)
  obtain s s' where "attempt cl kind payload s = Some (Inr r, s')"
    using with_retry_outcome [OF run [unfolded out(1)]] r(1) by (auto simp: export_env_def)
  then have "client_sends cl kind payload (Inr r)"
    using attempt_source [of cl kind payload s "Inr r" s'] r(2) by auto
  with payload r(2) show ?thesis by blast
qed

text \<open>
  C3. An export that returns has been delivered: for nothing to send it returns at once and calls
  nothing; otherwise the outcome it returns, a success or partial success, is the transport's
  answer to a send of exactly the encoded data with the headers resolved for the signal. A
  failure never comes back as a value.
\<close>

theorem export_returns_delivered:
  assumes "export jitter cl kind data w = Some (Inr r, w')"
  shows "is_delivered r \<and>
    (if envelope_empty data then r = Success \<and> w' = w
     else \<exists>payload. en_encode (cl_encoder cl) kind data = Inr payload \<and>
       (\<exists>v hs v1 v2. client_headers cl kind v = Some (Inr hs, v1) \<and>
          tp_send (cl_transport cl) kind payload hs v1 = Some (Inr r, v2)))"
  using assms export_delivered [OF assms]
  by (cases "envelope_empty data") (auto simp: client_sends_def, auto simp: export_def)

definition sample_payload :: envelope where
  "sample_payload = LogsData [\<lparr>rl_resource = Resource, rl_scope_logs = []\<rparr>]"

lemma configured_client_export:
  "\<exists>w'. export (Pair (Fin 0)) configured_client LOGS sample_payload w = Some (Inr Success, w')"
proof -
  have attempt: "attempt configured_client LOGS [1] s = Some (Inr Success, s)" for s
    by (cases s) (simp add: attempt_def resolve_def catchE_def client_headers_def bindE_def Let_def
        configured_client_def client_init_def grpc_transport_of_def grpc_send_def outcome_of_response_def
        sample_grpc_def protobuf_encoder_of_def pb_decode_response_def bearer_provider_def
        bearer_headers_def)
  have "\<exists>req. pb_request LOGS sample_payload = Inr req"
    by (simp add: pb_request_def pb_logs_request_def pb_encode_logs_def sample_payload_def pb_resource_logs_def
        resource_arg_def resource_is_empty_def Resource_def)
  then have encode: "en_encode (cl_encoder configured_client) LOGS sample_payload = Inr [1]"
    by (auto simp: configured_client_def client_init_def sample_grpc_def protobuf_encoder_of_def pb_encode_def)
  have fields: "cl_policy configured_client = default_policy" "cl_monotonic configured_client = Pair (Fin 0)"
    by (simp_all add: configured_client_def client_init_def)
  have "with_retry (export_env (Pair (Fin 0)) configured_client LOGS [1]) default_policy (w, False) =
      Some (Inr Success, (w, False))"
    by (simp add: with_retry_def export_env_def fields retry_loop.simps retry_turn_def attempt)
  then show ?thesis
    using encode by (simp add: export_def sample_payload_def export_result_def fields)
qed

lemma export_returns_delivered_witness:
  "export (Pair (Fin 0)) configured_client LOGS sample_payload () = Some (Inr Success, ()) \<and>
   (\<exists>payload. en_encode (cl_encoder configured_client) LOGS sample_payload = Inr payload)"
proof -
  have run: "export (Pair (Fin 0)) configured_client LOGS sample_payload () = Some (Inr Success, ())"
    using configured_client_export by simp
  then show ?thesis
    using export_returns_delivered [OF run] by (auto simp: sample_payload_def)
qed

lemma py_pow_raises: "py_pow x n = Inl e \<Longrightarrow> \<exists>m. e = OverflowError m"
  by (auto simp: py_pow_def split: if_splits pyfloat.splits)

text \<open>Where a failed export's exception comes from, once the data is encoded.\<close>

definition failure_source ::
  "'w client \<Rightarrow> signal_kind \<Rightarrow> bytes \<Rightarrow> exn \<Rightarrow> bool" where
  "failure_source cl kind payload e \<longleftrightarrow>
     (\<exists>st m. e = OTLPPermanentError (S ''collector rejected '' @ kind_value kind @ S '' (status '' @
        status_text st @ S ''): '' @ m) \<and> client_sends cl kind payload (Inr (Permanent st m))) \<or>
     (\<exists>st m d. e = OTLPTransportError (S ''could not deliver '' @ kind_value kind @
        S '' after retries: '' @ m) \<and>
      (client_sends cl kind payload (Inr (Retryable st m d)) \<or>
       (\<exists>q. m = S ''credential provider failed: '' @ q \<and> provider_unavailable cl kind q))) \<or>
     client_sends cl kind payload (Inl e) \<or> provider_raises cl kind e \<or>
     (\<exists>d v v'. cl_sleep cl d v = Some (Inl e, v')) \<or> (\<exists>m. e = OverflowError m)"

lemma raised_source:
  assumes "with_retry (export_env jitter cl kind payload) policy w = Some (Inl e, w')"
  shows "failure_source cl kind payload e"
  using assms
proof (cases rule: with_retry_raised)
  case (operation wa wb)
  then have "attempt cl kind payload wa = Some (Inl e, wb)"
    by (simp add: export_env_def)
  from attempt_source [OF this] show ?thesis
    by (auto simp: failure_source_def)
next
  case (asleep d wa)
  then have "\<exists>v v'. cl_sleep cl d v = Some (Inl e, v')"
    by (auto simp: export_env_def with_flag_def split: prod.splits)
  then show ?thesis
    by (auto simp: failure_source_def)
next
  case (backoff a)
  with py_pow_raises [OF backoff] show ?thesis
    by (auto simp: failure_source_def)
qed

lemma rejected_source:
  assumes "with_retry (export_env jitter cl kind payload) policy w = Some (Inr out, w')"
    and "export_result kind out = Inl e"
  shows "failure_source cl kind payload e"
proof -
  obtain s s' where "attempt cl kind payload s = Some (Inr out, s')"
    using with_retry_outcome [OF assms(1)] by (auto simp: export_env_def)
  note source = attempt_source [OF this]
  show ?thesis
  proof (cases out)
    case (Retryable st m d)
    then have "client_sends cl kind payload (Inr (Retryable st m d)) \<or>
        (\<exists>q. m = S ''credential provider failed: '' @ q \<and> provider_unavailable cl kind q)"
      using source by (auto simp: provider_failure_def)
    with assms(2) Retryable show ?thesis
      by (auto simp: export_result_def failure_source_def)
  next
    case (Permanent st m)
    with source have "client_sends cl kind payload (Inr (Permanent st m))"
      by (auto simp: provider_failure_def)
    with assms(2) Permanent show ?thesis
      by (auto simp: export_result_def failure_source_def)
  qed (use assms(2) in \<open>simp_all add: export_result_def\<close>)
qed



subsection \<open>How often an export calls its collaborators\<close>

text \<open>
  A ledger reads three counters off the world: requests sent, credentials invalidated, sleeps.
  \<open>kept\<close> is a call that changes none of them.
\<close>

record 'w ledger =
  sends :: "'w \<Rightarrow> nat"
  renewals :: "'w \<Rightarrow> nat"
  sleeps :: "'w \<Rightarrow> nat"

definition kept :: "'w ledger \<Rightarrow> 'w \<Rightarrow> 'w \<Rightarrow> bool" where
  "kept l w w' \<longleftrightarrow> sends l w' = sends l w \<and> renewals l w' = renewals l w \<and> sleeps l w' = sleeps l w"

definition ledger_of :: "('w \<Rightarrow> pyfloat \<times> 'w) \<Rightarrow> 'w client \<Rightarrow> 'w ledger \<Rightarrow> bool" where
  "ledger_of jitter cl l \<longleftrightarrow>
     (\<forall>w. kept l w (snd (cl_monotonic cl w)) \<and> kept l w (snd (jitter w))) \<and>
     (\<forall>d w r w'. cl_sleep cl d w = Some (r, w') \<longrightarrow>
        sends l w' = sends l w \<and> renewals l w' = renewals l w \<and> sleeps l w' = Suc (sleeps l w)) \<and>
     (\<forall>kind payload hs w r w'. tp_send (cl_transport cl) kind payload hs w = Some (r, w') \<longrightarrow>
        sends l w' = Suc (sends l w) \<and> renewals l w' = renewals l w \<and> sleeps l w' = sleeps l w) \<and>
     (\<forall>p kind w r w'. cl_credentials cl = Some p \<longrightarrow> pr_headers p kind w = Some (r, w') \<longrightarrow> kept l w w') \<and>
     (\<forall>p kind w r w'. cl_credentials cl = Some p \<longrightarrow> pr_invalidate p kind w = Some (r, w') \<longrightarrow>
        sends l w' = sends l w \<and> renewals l w' = Suc (renewals l w) \<and> sleeps l w' = sleeps l w)"


lemma ledger_headers:
  "ledger_of jitter cl l \<Longrightarrow> client_headers cl kind w = Some (r, w') \<Longrightarrow> kept l w w'"
  by (auto simp: ledger_of_def client_headers_def Let_def bindE_Some_iff kept_def split: option.splits)

lemma ledger_send:
  "ledger_of jitter cl l \<Longrightarrow> tp_send (cl_transport cl) kind payload hs w = Some (r, w') \<Longrightarrow>
    sends l w' = Suc (sends l w) \<and> renewals l w' = renewals l w \<and> sleeps l w' = sleeps l w"
  by (simp add: ledger_of_def)

lemma ledger_resolve_and_send:
  assumes "ledger_of jitter cl l" and "resolve_and_send cl kind payload w = Some (r, w')"
  shows "sends l w' \<le> Suc (sends l w) \<and> renewals l w' = renewals l w \<and> sleeps l w' = sleeps l w"
  using assms(2)
  by (cases rule: resolve_and_send_cases)
    (auto simp: kept_def dest!: ledger_headers [OF assms(1)] ledger_send [OF assms(1)])

lemma ledger_reauthenticate:
  assumes "ledger_of jitter cl l" and "cl_credentials cl = Some p"
    and "reauthenticate cl p kind payload w = Some (r, w')"
  shows "sends l w' \<le> Suc (sends l w) \<and> renewals l w' = Suc (renewals l w) \<and> sleeps l w' = sleeps l w"
proof -
  have inv: "pr_invalidate p kind w = Some (q, v) \<Longrightarrow>
      sends l v = sends l w \<and> renewals l v = Suc (renewals l w) \<and> sleeps l v = sleeps l w" for q v
    using assms(1,2) by (simp add: ledger_of_def)
  from assms(3) show ?thesis
    by (cases rule: reauthenticate_cases)
      (auto dest!: inv ledger_resolve_and_send [OF assms(1)])
qed

lemma ledger_attempt:
  assumes "ledger_of jitter cl l" and "attempt cl kind payload (w, f) = Some (r, (w', f'))"
  shows "sleeps l w' = sleeps l w \<and> (f \<longrightarrow> f') \<and>
    sends l w' + of_bool f \<le> Suc (sends l w) + of_bool f' \<and>
    renewals l w' + of_bool f = renewals l w + of_bool f'"
  using assms(2)
proof (cases rule: attempt_cases)
  case (renewed hs w1 out w2 p)
  with ledger_headers [OF assms(1) renewed(1)] ledger_send [OF assms(1) renewed(2)]
    ledger_reauthenticate [OF assms(1) renewed(4,7)]
  show ?thesis by (auto simp: kept_def)
qed (auto simp: kept_def dest!: ledger_headers [OF assms(1)] ledger_send [OF assms(1)])

lemma export_env_simps [simp]:
  "re_op (export_env jitter cl kind payload) = attempt cl kind payload"
  "re_sleep (export_env jitter cl kind payload) d (v, f) = with_flag f (cl_sleep cl d) v"
  "re_monotonic (export_env jitter cl kind payload) (v, f) =
     (fst (cl_monotonic cl v), (snd (cl_monotonic cl v), f))"
  "re_jitter (export_env jitter cl kind payload) (v, f) = (fst (jitter v), (snd (jitter v), f))"
  by (simp_all add: export_env_def case_prod_unfold Let_def)

text \<open>The ledger inside the loop, relative to a start \<open>w\<close>: \<open>n\<close> is 0 before an attempt, 1 after it.\<close>

definition ledger_inv :: "'w ledger \<Rightarrow> 'w \<Rightarrow> nat \<Rightarrow> 'w \<times> bool \<Rightarrow> bool" where
  "ledger_inv l w n = (\<lambda>(v, f). renewals l v = renewals l w + of_bool f \<and>
     sends l v + sleeps l w \<le> sends l w + sleeps l v + n + of_bool f)"

lemma ledger_loop:
  assumes "ledger_of jitter cl l"
  shows "loop_invariant (export_env jitter cl kind payload) (ledger_inv l w 0) (ledger_inv l w 1)"
proof -
  have clock: "kept l v (snd (cl_monotonic cl v))" "kept l v (snd (jitter v))" for v
    using assms by (simp_all add: ledger_of_def)
  have sleep: "cl_sleep cl d v = Some (s, v') \<Longrightarrow>
      sends l v' = sends l v \<and> renewals l v' = renewals l v \<and> sleeps l v' = Suc (sleeps l v)" for d v s v'
    using assms by (simp add: ledger_of_def)
  show ?thesis
  proof (rule loop_invariantI)
    fix s r s' assume "ledger_inv l w 0 s" "re_op (export_env jitter cl kind payload) s = Some (r, s')"
    then show "ledger_inv l w 1 s'"
      by (cases s; cases s') (auto simp: ledger_inv_def dest!: ledger_attempt [OF assms])
  next
    fix s d r s' assume "ledger_inv l w 1 s" "re_sleep (export_env jitter cl kind payload) d s = Some (r, s')"
    then show "ledger_inv l w 1 s'"
      by (cases s; cases s') (auto simp: ledger_inv_def with_flag_def dest!: sleep)
  next
    fix s d u s' assume "ledger_inv l w 1 s" "re_sleep (export_env jitter cl kind payload) d s = Some (Inr u, s')"
    then show "ledger_inv l w 0 s'"
      by (cases s; cases s') (auto simp: ledger_inv_def with_flag_def dest!: sleep)
  next
    have keep: "kept l v v' \<Longrightarrow> ledger_inv l w n (v, f) \<Longrightarrow> ledger_inv l w n (v', f)" for n v v' f
      by (simp add: ledger_inv_def kept_def)
    fix s
    show "ledger_inv l w 0 s \<Longrightarrow> ledger_inv l w 0 (snd (re_monotonic (export_env jitter cl kind payload) s))"
      "ledger_inv l w 1 s \<Longrightarrow> ledger_inv l w 1 (snd (re_monotonic (export_env jitter cl kind payload) s))"
      "ledger_inv l w 1 s \<Longrightarrow> ledger_inv l w 1 (snd (re_jitter (export_env jitter cl kind payload) s))"
      by (cases s; simp only: export_env_simps snd_conv; blast intro: keep [OF clock(1)] keep [OF clock(2)])+
  qed
qed

text \<open>
  C7. One export renews the credentials at most once, however often it is rejected or retried: the
  provider's \<^verbatim>\<open>invalidate\<close> is called at most once, and not at all without a provider; and each
  round of the retry loop sends one request, but for one extra after the renewal, so there are
  at most two more requests than sleeps.
\<close>

theorem export_renews_once:
  assumes "ledger_of jitter cl l" and "export jitter cl kind data w = Some (r, w')"
  shows "renewals l w' \<le> Suc (renewals l w) \<and>
    sends l w' + sleeps l w \<le> sends l w + sleeps l w' + 1 + (renewals l w' - renewals l w)"
proof (cases "\<not> envelope_empty data \<and> (\<exists>payload. en_encode (cl_encoder cl) kind data = Inr payload)")
  case False
  with assms(2) have "w' = w"
    by (cases "en_encode (cl_encoder cl) kind data") (auto simp: export_def split: if_splits)
  then show ?thesis by simp
next
  case True
  then obtain payload q f where
    run: "with_retry (export_env jitter cl kind payload) (cl_policy cl) (w, False) = Some (q, (w', f))"
    using assms(2) unfolding export_def by (auto split: option.splits)
  have "ledger_inv l w 0 (w, False)"
    by (simp add: ledger_inv_def)
  from with_retry_invariant [OF ledger_loop [OF assms(1)] this run] show ?thesis
    by (cases f) (simp_all add: ledger_inv_def)
qed

text \<open>A collector that rejects every token, on a world that is the three counters.\<close>

definition rejected_client :: "(nat \<times> nat \<times> nat) client" where
  "rejected_client =
     \<lparr>cl_config = OTLPConfig (S ''http://h''),
      cl_transport = \<lparr>tp_send = (\<lambda>_ _ _ (s, r, l). Some (Inr (Permanent (Some 401) []), (Suc s, r, l))),
        tp_aclose = returnE ()\<rparr>,
      cl_encoder = json_encoder_of (\<lambda>_. Inr [1]) (\<lambda>_. Inr JNull) (\<lambda>_. []),
      cl_credentials = Some \<lparr>pr_headers = (\<lambda>_. returnE [(S ''authorization'', S ''t'')]),
        pr_invalidate = (\<lambda>_ (s, r, l). Some (Inr (), (s, Suc r, l)))\<rparr>,
      cl_scope = DEFAULT_SCOPE, cl_policy = default_policy,
      cl_sleep = (\<lambda>_ (s, r, l). Some (Inr (), (s, r, Suc l))), cl_monotonic = Pair (Fin 0)\<rparr>"

definition counters :: "(nat \<times> nat \<times> nat) ledger" where
  "counters = \<lparr>sends = fst, renewals = fst \<circ> snd, sleeps = snd \<circ> snd\<rparr>"

lemma rejected_client_ledger: "ledger_of (Pair (Fin 0)) rejected_client counters"
  by (auto simp: ledger_of_def kept_def rejected_client_def counters_def)

lemma rejected_attempt:
  "attempt rejected_client LOGS [1] ((s, r, l), False) =
     Some (Inr (Permanent (Some 401) []), ((Suc (Suc s), Suc r, l), True))"
  by (simp add: attempt_def resolve_def catchE_def client_headers_def bindE_def Let_def
      rejected_client_def with_flag_def reauthenticate_def resolve_and_send_def)

lemma sample_payload_json: "\<exists>doc. json_document LOGS sample_payload = Inr doc"
  by (simp add: json_document_def logs_document_def encode_resource_logs_def sample_payload_def
      encode_one_resource_logs_def encode_resource_def Resource_def)

lemma export_renews_once_witness:
  "\<exists>e. export (Pair (Fin 0)) rejected_client LOGS sample_payload (0, 0, 0) = Some (Inl e, (2, 1, 0)) \<and>
     renewals counters (2, 1, 0) \<le> 1"
proof -
  have "en_encode (cl_encoder rejected_client) LOGS sample_payload = Inr [1]"
    using sample_payload_json by (auto simp: rejected_client_def json_encoder_of_def json_encode_def)
  moreover have clock: "cl_monotonic rejected_client = Pair (Fin 0)"
    by (simp add: rejected_client_def)
  have "with_retry (export_env (Pair (Fin 0)) rejected_client LOGS [1]) policy ((0, 0, 0), False) =
      Some (Inr (Permanent (Some 401) []), ((2, 1, 0), True))" for policy
    using clock by (simp add: with_retry_def retry_loop.simps retry_turn_def rejected_attempt
        numeral_2_eq_2 Let_def case_prod_unfold)
  ultimately have "\<exists>e. export (Pair (Fin 0)) rejected_client LOGS sample_payload (0, 0, 0) =
      Some (Inl e, (2, 1, 0))"
    by (simp add: export_def sample_payload_def export_result_def)
  then obtain e where run: "export (Pair (Fin 0)) rejected_client LOGS sample_payload (0, 0, 0) =
      Some (Inl e, (2, 1, 0))"
    by blast
  with export_renews_once [OF rejected_client_ledger run] show ?thesis
    by (simp add: counters_def)
qed

subsection \<open>Sleeping and returning\<close>

lemma delay_not_negative:
  assumes "choose_delay env policy a out w = (Inr d, w')" and "sane_delay (rt_retry_after out)"
    and "rp_multiplier policy = Fin q" "0 \<le> q"
    and "rp_initial_backoff policy = Fin i" "0 \<le> i" and "rp_max_backoff policy = Fin b" "0 \<le> b"
    and "\<And>v. \<exists>j. fst (re_jitter env v) = Fin j \<and> 0 \<le> j"
  shows "f_le (Fin 0) d"
proof (cases "rt_retry_after out")
  case (Some x)
  with assms(1,2) show ?thesis
    by (auto simp: choose_delay_def sane_delay_def Let_def split: sum.splits)
next
  case None
  obtain m where m: "py_pow (rp_multiplier policy) a = Inr m"
    using assms(1) by (auto simp: choose_delay_def split: sum.splits)
  obtain x where x: "m = Fin x" "0 \<le> x"
    using m assms(3,4) by (auto simp: py_pow_def split: if_splits)
  have "f_mul (Fin i) m = PInf \<or> (\<exists>y. f_mul (Fin i) m = Fin y \<and> 0 \<le> y)"
    using assms(6) x by (auto simp: f_mul_def f_fin_pos)
  then have "\<exists>y. py_min (Fin b) (f_mul (Fin i) m) = Fin y \<and> 0 \<le> y"
    using assms(8) by (auto simp: py_min_def f_less_def)
  then obtain y where y: "py_min (Fin b) (f_mul (Fin i) m) = Fin y" "0 \<le> y"
    by blast
  obtain j w1 where j: "re_jitter env w = (Fin j, w1)" "0 \<le> j"
    using assms(9) [of w] by (metis prod.collapse)
  have "d = f_mul (Fin j) (Fin y)"
    using assms(1,5,7) None m y(1) j(1) by (simp add: choose_delay_def Let_def)
  then show ?thesis
    using j(2) y(2) by (auto simp: f_mul_def f_fin_pos f_le_def)
qed

text \<open>A policy and a jitter as the library uses them: finite, not negative.\<close>

definition sane_policy :: "retry_policy \<Rightarrow> bool" where
  "sane_policy p \<longleftrightarrow> (\<exists>i b q. rp_initial_backoff p = Fin i \<and> 0 \<le> i \<and> rp_max_backoff p = Fin b \<and> 0 \<le> b \<and>
     rp_multiplier p = Fin q \<and> 0 \<le> q)"

text \<open>
  C34. Nothing a collector answers can make an export sleep for a negative time or for NaN: whatever
  the transport, every sleep of the retry loop is at least zero, and does not outlast what is
  left of the budget.
\<close>

theorem export_sleeps_sane:
  assumes "export_session cl" and "sane_policy (cl_policy cl)"
    and "\<And>v. \<exists>j. fst (jitter v) = Fin j \<and> 0 \<le> j"
    and "retry_turn (export_env jitter cl kind payload) (cl_policy cl) started a s = Some (Wait d, s')"
  shows "f_le (Fin 0) d \<and> (\<exists>out w f. attempt cl kind payload s = Some (Inr out, (w, f)) \<and> is_retryable out \<and>
    \<not> f_less (f_sub (rp_max_elapsed (cl_policy cl)) (f_sub (fst (cl_monotonic cl w)) started)) d)"
  using assms(4)
proof (cases rule: retry_turn_cases)
  case (waits out s1 now s2 d')
  obtain i b q where pol: "rp_initial_backoff (cl_policy cl) = Fin i" "0 \<le> i"
    "rp_max_backoff (cl_policy cl) = Fin b" "0 \<le> b" "rp_multiplier (cl_policy cl) = Fin q" "0 \<le> q"
    using assms(2) by (auto simp: sane_policy_def)
  obtain w f w1 f1 where "s = (w, f)" "s1 = (w1, f1)" by (metis surj_pair)
  note s = this
  then have sane: "sane_delay (rt_retry_after out)"
    using export_session.attempt_delay [OF assms(1)] waits(1,2) by simp
  have jit: "\<exists>j. fst (re_jitter (export_env jitter cl kind payload) v) = Fin j \<and> 0 \<le> j" for v
    using assms(3) by (cases v) simp
  have "f_le (Fin 0) d'"
    by (rule delay_not_negative [OF waits(5) sane pol(5,6) pol(1-4) jit])
  with waits s show ?thesis by auto
qed simp_all

lemma export_sleeps_sane_witness:
  "\<exists>d s'. retry_turn (export_env (Pair (Fin 0)) (rejected_client
       \<lparr>cl_transport := \<lparr>tp_send = (\<lambda>_ _ _ w. Some (Inr (Retryable None [] (Some (Fin 3))), w)),
         tp_aclose = returnE ()\<rparr>\<rparr>) LOGS [1]) default_policy (Fin 0) 0 ((0, 0, 0), False) = Some (Wait d, s') \<and>
     f_le (Fin 0) d"
proof -
  let ?cl = "rejected_client\<lparr>cl_transport := \<lparr>tp_send = (\<lambda>_ _ _ w. Some (Inr (Retryable None [] (Some (Fin 3))), w)),
         tp_aclose = returnE ()\<rparr>\<rparr>"
  have session: "export_session ?cl"
  proof (rule export_session.intro)
    show "otlp_encoder (en_encode (cl_encoder ?cl)) (en_decode (cl_encoder ?cl))"
      by (simp add: rejected_client_def json_contract)
    show "otlp_transport (tp_send (cl_transport ?cl))"
      by unfold_locales (auto simp: sane_delay_def)
    show "cl_credentials ?cl = Some p \<Longrightarrow> credential_provider (pr_headers p) (pr_invalidate p)" for p
      by (auto simp: rejected_client_def intro!: credential_provider.intro)
  qed
  have policy: "cl_policy ?cl = default_policy" "sane_policy default_policy"
    by (simp add: rejected_client_def)
      (unfold sane_policy_def, rule exI [of _ 1], rule exI [of _ 30], rule exI [of _ "3 / 2"], simp)
  have attempt: "attempt ?cl LOGS [1] s = Some (Inr (Retryable None [] (Some (Fin 3))), s)" for s
    by (cases s) (simp add: attempt_def resolve_def catchE_def client_headers_def bindE_def Let_def
        rejected_client_def)
  have "f_sub (Fin 0) (Fin 0) = Fin 0"
    using overflow_bound_gt_1 by (intro f_sub_Fin [of 0 0, simplified]) simp
  moreover have "f_sub (Fin 90) (Fin 0) = Fin 90 \<or> f_sub (Fin 90) (Fin 0) = PInf"
    by (simp add: f_sub_def f_add_def f_fin_def overflow_bound_def)
  moreover have "cl_monotonic ?cl = Pair (Fin 0)"
    by (simp add: rejected_client_def)
  ultimately have run: "retry_turn (export_env (Pair (Fin 0)) ?cl LOGS [1]) default_policy (Fin 0) 0
      ((0, 0, 0), False) = Some (Wait (Fin 3), ((0, 0, 0), False))"
    by (auto simp: retry_turn_def attempt choose_delay_def py_pow_def f_less_def)
  have "\<exists>j. fst (Pair (Fin 0) v) = Fin j \<and> 0 \<le> j" for v :: "nat \<times> nat \<times> nat"
    by simp
  then show ?thesis
    using export_sleeps_sane [OF session, of "Pair (Fin 0)" LOGS "[1]" "Fin 0" 0 "((0, 0, 0), False)" "Fin 3"
        "((0, 0, 0), False)"] policy run by auto
qed

text \<open>
  Collaborators that answer, on a clock that never goes back: a request, or a failure to get
  headers, takes at least \<open>delta\<close> seconds.
\<close>

definition responsive :: "('w \<Rightarrow> pyfloat \<times> 'w) \<Rightarrow> 'w client \<Rightarrow> ('w \<Rightarrow> rat) \<Rightarrow> rat \<Rightarrow> bool" where
  "responsive jitter cl clock delta \<longleftrightarrow> 0 < delta \<and>
     (\<forall>w. cl_monotonic cl w = (Fin (clock w), w) \<and> clock w \<le> clock (snd (jitter w))) \<and>
     (\<forall>d w. \<exists>r w'. cl_sleep cl d w = Some (r, w') \<and> clock w \<le> clock w') \<and>
     (\<forall>kind payload hs w. \<exists>r w'. tp_send (cl_transport cl) kind payload hs w = Some (r, w') \<and>
        clock w + delta \<le> clock w') \<and>
     (\<forall>p. cl_credentials cl = Some p \<longrightarrow>
        (\<forall>kind w. \<exists>r w'. pr_headers p kind w = Some (r, w') \<and> clock w \<le> clock w' \<and>
           (\<forall>e. r = Inl e \<longrightarrow> clock w + delta \<le> clock w')) \<and>
        (\<forall>kind w. \<exists>w'. pr_invalidate p kind w = Some (Inr (), w') \<and> clock w \<le> clock w'))"

lemma responsive_send:
  "responsive jitter cl clock delta \<Longrightarrow> \<exists>r w'. tp_send (cl_transport cl) kind payload hs w = Some (r, w') \<and>
    clock w + delta \<le> clock w'"
  by (simp add: responsive_def)

lemma responsive_headers:
  assumes "responsive jitter cl clock delta"
  shows "\<exists>r w'. client_headers cl kind w = Some (r, w') \<and> clock w \<le> clock w' \<and>
    (\<forall>e. r = Inl e \<longrightarrow> clock w + delta \<le> clock w')"
proof (cases "cl_credentials cl")
  case None
  then show ?thesis by (simp add: client_headers_def)
next
  case (Some p)
  then obtain r w' where "pr_headers p kind w = Some (r, w')" "clock w \<le> clock w'"
    "\<forall>e. r = Inl e \<longrightarrow> clock w + delta \<le> clock w'"
    using assms unfolding responsive_def by blast
  then show ?thesis
    by (cases r) (simp_all add: client_headers_def Some bindE_def)
qed

lemma responsive_resolve_and_send:
  assumes "responsive jitter cl clock delta"
  shows "\<exists>r w'. resolve_and_send cl kind payload w = Some (r, w') \<and> clock w + delta \<le> clock w'"
proof -
  obtain h w1 where h: "client_headers cl kind w = Some (h, w1)" "clock w \<le> clock w1"
    "\<forall>e. h = Inl e \<longrightarrow> clock w + delta \<le> clock w1"
    using responsive_headers [OF assms, of kind w] by auto
  show ?thesis
  proof (cases h)
    case (Inl e)
    with h show ?thesis
      by (cases e) (simp_all add: resolve_and_send_def resolve_def catchE_def bindE_def)
  next
    case (Inr hs)
    obtain r w2 where "tp_send (cl_transport cl) kind payload hs w1 = Some (r, w2)" "clock w1 + delta \<le> clock w2"
      using responsive_send [OF assms, of kind payload hs w1] by auto
    with Inr h show ?thesis
      by (simp add: resolve_and_send_def resolve_def catchE_def bindE_def)
  qed
qed

lemma responsive_reauthenticate:
  assumes "responsive jitter cl clock delta" and "cl_credentials cl = Some p"
  shows "\<exists>r w'. reauthenticate cl p kind payload w = Some (r, w') \<and> clock w + delta \<le> clock w'"
proof -
  obtain w1 where w1: "pr_invalidate p kind w = Some (Inr (), w1)" "clock w \<le> clock w1"
    using assms unfolding responsive_def by blast
  obtain r w2 where "resolve_and_send cl kind payload w1 = Some (r, w2)" "clock w1 + delta \<le> clock w2"
    using responsive_resolve_and_send [OF assms(1)] by blast
  with w1 show ?thesis
    by (simp add: reauthenticate_def bindE_def)
qed

lemma responsive_attempt:
  assumes "responsive jitter cl clock delta"
  shows "\<exists>r w' f'. attempt cl kind payload (w, f) = Some (r, (w', f')) \<and> clock w + delta \<le> clock w'"
proof -
  have pos: "0 < delta"
    using assms by (simp add: responsive_def)
  obtain h w1 where h: "client_headers cl kind w = Some (h, w1)" "clock w \<le> clock w1"
    "\<forall>e. h = Inl e \<longrightarrow> clock w + delta \<le> clock w1"
    using responsive_headers [OF assms, of kind w] by auto
  show ?thesis
  proof (cases h)
    case (Inl e)
    with h show ?thesis
      by (cases e) (simp_all add: attempt_def resolve_def catchE_def bindE_def)
  next
    case (Inr hs)
    obtain r w2 where send: "tp_send (cl_transport cl) kind payload hs w1 = Some (r, w2)"
      "clock w1 + delta \<le> clock w2"
      using responsive_send [OF assms, of kind payload hs w1] by auto
    have first: "resolve cl kind w = Some (Inr (Headers hs), w1)"
      using Inr h by (simp add: resolve_def catchE_def bindE_def)
    show ?thesis
    proof (cases "\<exists>p out. cl_credentials cl = Some p \<and> r = Inr out \<and> \<not> f \<and> is_credential_rejection out")
      case True
      then obtain p out where p: "cl_credentials cl = Some p" "r = Inr out" "\<not> f" "is_credential_rejection out"
        by blast
      obtain q w3 where "reauthenticate cl p kind payload w2 = Some (q, w3)" "clock w2 + delta \<le> clock w3"
        using responsive_reauthenticate [OF assms p(1)] by blast
      with first send p h(2) pos show ?thesis
        by (auto simp: attempt_def with_flag_def)
    next
      case False
      with first send h(2) show ?thesis
        by (cases r; cases "cl_credentials cl") (auto simp: attempt_def)
    qed
  qed
qed

lemma export_returns:
  fixes cl :: "'w client"
  assumes "responsive jitter cl clock delta" and "rp_max_elapsed (cl_policy cl) = Fin m" and "0 < m"
  shows "\<exists>r w'. export jitter cl kind data w = Some (r, w')"
proof (cases "en_encode (cl_encoder cl) kind data")
  case (Inl e)
  then show ?thesis by (simp add: export_def)
next
  case (Inr payload)
  let ?env = "export_env jitter cl kind payload"
  have "ticking ?env (clock \<circ> fst) delta"
    unfolding ticking_def
  proof (intro conjI allI)
    fix s :: "'w \<times> bool" and d
    obtain w f where s: "s = (w, f)" by (cases s)
    show "re_monotonic ?env s = (Fin ((clock \<circ> fst) s), s)"
      using assms(1) by (simp add: s responsive_def)
    show "\<exists>r s1. re_op ?env s = Some (r, s1) \<and> (clock \<circ> fst) s + delta \<le> (clock \<circ> fst) s1"
      using responsive_attempt [OF assms(1), of kind payload w f] by (auto simp: s)
    obtain r w1 where "cl_sleep cl d w = Some (r, w1)" "clock w \<le> clock w1"
      using assms(1) unfolding responsive_def by blast
    then show "\<exists>r s1. re_sleep ?env d s = Some (r, s1) \<and> (clock \<circ> fst) s \<le> (clock \<circ> fst) s1"
      by (simp add: s with_flag_def)
    show "(clock \<circ> fst) s \<le> (clock \<circ> fst) (snd (re_jitter ?env s))"
      using assms(1) by (simp add: s responsive_def)
  qed (use assms(1) in \<open>simp add: responsive_def\<close>)
  from with_retry_returns [OF this assms(2,3), of "(w, False)"]
  obtain q w' f where "with_retry ?env (cl_policy cl) (w, False) = Some (q, (w', f))"
    by auto
  with Inr show ?thesis
    by (simp add: export_def)
qed

text \<open>
  C20. An export returns: against collaborators that answer, each request taking at least some fixed
  time, an export with a finite positive budget comes back with an outcome or an exception, for
  any signal and data, however the collector keeps answering.
\<close>

theorem export_terminates:
  fixes cl :: "'w client"
  assumes "responsive jitter cl clock delta" and "rp_max_elapsed (cl_policy cl) = Fin m" and "0 < m"
  shows "\<exists>r w'. export jitter cl kind data w = Some (r, w')"
  by (rule export_returns [OF assms])

text \<open>A throttling collector on a world that is a clock, where a request takes a second.\<close>

definition throttled_client :: "rat client" where
  "throttled_client =
     \<lparr>cl_config = OTLPConfig (S ''http://h''),
      cl_transport = \<lparr>tp_send = (\<lambda>_ _ _ t. Some (Inr (Retryable (Some 503) [] None), t + 1)),
        tp_aclose = returnE ()\<rparr>,
      cl_encoder = json_encoder_of (\<lambda>_. Inr [1]) (\<lambda>_. Inr JNull) (\<lambda>_. []),
      cl_credentials = None, cl_scope = DEFAULT_SCOPE, cl_policy = default_policy,
      cl_sleep = (\<lambda>d t. Some (Inr (), t + f_val (py_max (Fin 0) d))), cl_monotonic = (\<lambda>t. (Fin t, t))\<rparr>"

lemma throttled_responsive: "responsive (Pair (Fin (1 / 2))) throttled_client (\<lambda>t. t) 1"
proof -
  have "0 \<le> f_val (py_max (Fin 0) d)" for d
    by (cases d) (auto simp: py_max_def f_less_def)
  then show ?thesis
    by (simp add: responsive_def throttled_client_def)
qed

lemma export_terminates_witness:
  "\<exists>r t. export (Pair (Fin (1 / 2))) throttled_client LOGS sample_payload 0 = Some (r, t)"
  using export_terminates [OF throttled_responsive, of 90] by (simp add: throttled_client_def)

end
