(* ===== verification/Processor.thy ===== *)
theory Processor
  imports Client
begin

section \<open>The batch processor\<close>

text \<open>
  \<^verbatim>\<open>processor.py\<close>: bounded queues per signal, the counters, \<^verbatim>\<open>submit_*\<close>, \<^verbatim>\<open>flush\<close>, the background loop and
  shutdown. An export is awaited, so other tasks run during it: the parameter \<open>ship\<close> of the
  flush acts on the processor too. The last part gives the tasks and the lock as steps of one
  system, of which a flush is a run.
\<close>

subsection \<open>Bounded queues\<close>

text \<open>\<^verbatim>\<open>deque(maxlen=n)\<close>: appending to a full deque drops its oldest element.\<close>

definition deque_append :: "nat \<Rightarrow> 'r list \<Rightarrow> 'r \<Rightarrow> 'r list" where
  "deque_append n q x =
     (if n = 0 then [] else if length q \<ge> n then tl q @ [x] else q @ [x])"

text \<open>The contract of a bounded queue: after an append it holds the newest elements that fit.\<close>

definition newest :: "nat \<Rightarrow> 'r list \<Rightarrow> 'r list" where
  "newest n xs = drop (length xs - n) xs"

lemma newest_newest: "newest n (newest n xs @ ys) = newest n (xs @ ys)"
proof (cases "length xs \<le> n")
  case False
  let ?k = "length xs - n"
  have "newest n (newest n xs @ ys) = drop (length ys) (drop ?k (xs @ ys))"
    using False by (simp add: newest_def)
  also have "\<dots> = drop (length ys + ?k) (xs @ ys)"
    by (simp only: drop_drop)
  also have "length ys + ?k = length (xs @ ys) - n"
    using False by simp
  finally show ?thesis
    by (simp only: newest_def)
qed (simp add: newest_def)

locale bounded_queue =
  fixes append :: "'r list \<Rightarrow> 'r \<Rightarrow> 'r list" and capacity :: nat
  assumes append_newest: "length q \<le> capacity \<Longrightarrow> append q x = newest capacity (q @ [x])"
begin

lemma append_bounded: "length q \<le> capacity \<Longrightarrow> length (append q x) \<le> capacity"
  by (simp add: append_newest newest_def)

lemma append_all_bounded: "length q \<le> capacity \<Longrightarrow> length (foldl append q xs) \<le> capacity"
  by (induction xs arbitrary: q) (simp_all add: append_bounded)

lemma append_all_newest: "length q \<le> capacity \<Longrightarrow> foldl append q xs = newest capacity (q @ xs)"
proof (induction xs arbitrary: q)
  case Nil
  then show ?case by (simp add: newest_def)
next
  case (Cons x xs)
  have "foldl append q (x # xs) = newest capacity (newest capacity (q @ [x]) @ xs)"
    using Cons append_bounded by (simp add: append_newest)
  also have "\<dots> = newest capacity (q @ x # xs)"
    by (simp add: newest_newest)
  finally show ?case .
qed

end

interpretation deque: bounded_queue "deque_append n" n
  for n :: nat
proof
  fix q :: "'a list" and x assume "length q \<le> n"
  then consider "n = 0" | "length q = n" "0 < n" | "length q < n" by linarith
  then show "deque_append n q x = newest n (q @ [x])"
  proof cases
    case 2
    then have "q \<noteq> []" by auto
    with 2 show ?thesis
      by (simp add: deque_append_def newest_def drop_Suc)
  qed (simp_all add: deque_append_def newest_def)
qed

subsection \<open>The object\<close>

datatype log_line =
    ExportFailed signal_kind exn
  | ExportStillFailing signal_kind int exn
  | LoopError exn
  | TaskError exn

record 'r processor =
  bp_max_batch :: int
  bp_max_queue :: nat
  bp_queues :: "signal_kind \<Rightarrow> 'r list"
  bp_wake :: bool
  bp_flushed :: bool
  bp_task :: bool
  bp_closed :: bool
  bp_submitted :: int
  bp_exported :: int
  bp_dropped :: int
  bp_failures :: int
  bp_last_error :: "str option"
  bp_log :: "log_line list"

text \<open>The queues there are, in the order \<^verbatim>\<open>self._queues.items()\<close> gives them.\<close>

definition queued_kinds :: "signal_kind list" where
  "queued_kinds = [METRICS, LOGS, TRACES]"

definition processor_init :: "int \<Rightarrow> int \<Rightarrow> 'r processor res" where
  "processor_init max_batch max_queue =
     (if max_queue < 0 then Inl (ValueError (S ''maxlen must be non-negative''))
      else Inr \<lparr>bp_max_batch = max_batch, bp_max_queue = nat max_queue, bp_queues = (\<lambda>_. []),
        bp_wake = False, bp_flushed = False, bp_task = False, bp_closed = False, bp_submitted = 0,
        bp_exported = 0, bp_dropped = 0, bp_failures = 0, bp_last_error = None, bp_log = []\<rparr>)"

record processor_stats =
  st_submitted :: int
  st_exported :: int
  st_dropped :: int
  st_consecutive_failures :: int
  st_last_error :: "str option"

definition stats :: "'r processor \<Rightarrow> processor_stats" where
  "stats p = \<lparr>st_submitted = bp_submitted p, st_exported = bp_exported p, st_dropped = bp_dropped p,
     st_consecutive_failures = bp_failures p, st_last_error = bp_last_error p\<rparr>"

subsection \<open>Submitting\<close>

definition set_queue :: "signal_kind \<Rightarrow> 'r list \<Rightarrow> 'r processor \<Rightarrow> 'r processor" where
  "set_queue kind q p = p\<lparr>bp_queues := (bp_queues p)(kind := q)\<rparr>"

fun submit_records :: "signal_kind \<Rightarrow> 'r list \<Rightarrow> bool \<Rightarrow> 'r processor \<Rightarrow> bool \<times> 'r processor" where
  "submit_records kind [] accepted p = (accepted, p)"
| "submit_records kind (record # records) accepted p =
     (let queue = bp_queues p kind;
          full = (length queue = bp_max_queue p);
          p1 = (if full then p\<lparr>bp_dropped := bp_dropped p + 1\<rparr> else p);
          p2 = set_queue kind (deque_append (bp_max_queue p) queue record) p1
      in submit_records kind records (accepted \<and> \<not> full) (p2\<lparr>bp_submitted := bp_submitted p2 + 1\<rparr>))"

definition submit :: "signal_kind \<Rightarrow> 'r list \<Rightarrow> 'r processor \<Rightarrow> bool res \<times> 'r processor" where
  "submit kind records p =
     (if bp_closed p then (Inr False, p)
      else if kind \<notin> set queued_kinds then (Inl (KeyError (kind_value kind)), p)
      else (let (accepted, p1) = submit_records kind records True p
            in (Inr accepted,
                if int (length (bp_queues p1 kind)) \<ge> bp_max_batch p1 then p1\<lparr>bp_wake := True\<rparr> else p1)))"

text \<open>The records of the three signals; a queue only holds records of its own signal.\<close>

datatype item = MetricItem metric | LogItem log_record | SpanItem span

definition submit_metrics :: "metric list \<Rightarrow> item processor \<Rightarrow> bool res \<times> item processor" where
  "submit_metrics metrics = submit METRICS (map MetricItem metrics)"

definition submit_logs :: "log_record list \<Rightarrow> item processor \<Rightarrow> bool res \<times> item processor" where
  "submit_logs records = submit LOGS (map LogItem records)"

definition submit_traces :: "span list \<Rightarrow> item processor \<Rightarrow> bool res \<times> item processor" where
  "submit_traces spans = submit TRACES (map SpanItem spans)"

subsection \<open>Exporting a batch\<close>

text \<open>What an export reports: nothing, or the rejected count and message of a partial success.\<close>

type_synonym report = "(int \<times> str) option"

definition report_of :: "outcome \<Rightarrow> report" where
  "report_of out = (case out of PartialSuccess n m \<Rightarrow> Some (n, m) | _ \<Rightarrow> None)"

definition metrics_of :: "item list \<Rightarrow> metric list" where
  "metrics_of batch = [m. MetricItem m \<leftarrow> batch]"

definition logs_of :: "item list \<Rightarrow> log_record list" where
  "logs_of batch = [r. LogItem r \<leftarrow> batch]"

definition spans_of :: "item list \<Rightarrow> span list" where
  "spans_of batch = [s. SpanItem s \<leftarrow> batch]"

definition export_batch ::
  "('w \<Rightarrow> pyfloat \<times> 'w) \<Rightarrow> 'w client \<Rightarrow> resource option \<Rightarrow> instrumentation_scope option \<Rightarrow>
   signal_kind \<Rightarrow> item list \<Rightarrow> ('w, report) io" where
  "export_batch jitter cl resource scope kind batch =
     bindE
       (case kind of
          METRICS \<Rightarrow> export_metrics jitter cl (metrics_of batch) resource scope
        | LOGS \<Rightarrow> export_logs jitter cl (logs_of batch) resource scope
        | TRACES \<Rightarrow> export_traces jitter cl (spans_of batch) resource scope
        | PROFILES \<Rightarrow> raiseE (NotImplementedError (S ''no processor branch for '' @ kind_value kind)))
       (\<lambda>result. returnE (report_of result))"

text \<open>
  \<open>others\<close> is what other tasks do to the processor while an export is awaited; it may depend on
  the world before and after.
\<close>

definition awaited ::
  "('w \<Rightarrow> 'w \<Rightarrow> 'r processor \<Rightarrow> 'r processor) \<Rightarrow> (signal_kind \<Rightarrow> 'r list \<Rightarrow> ('w, report) io) \<Rightarrow>
   signal_kind \<Rightarrow> 'r list \<Rightarrow> ('r processor \<times> 'w, report) io" where
  "awaited others ship kind batch =
     (\<lambda>(p, w). map_option (\<lambda>(r, w'). (r, (others w w' p, w'))) (ship kind batch w))"

subsection \<open>Flushing\<close>

definition failure_line :: "signal_kind \<Rightarrow> exn \<Rightarrow> 'r processor \<Rightarrow> log_line" where
  "failure_line kind e p =
     (if bp_failures p = 1 then ExportFailed kind e else ExportStillFailing kind (bp_failures p) e)"

text \<open>What the counters make of the export of a batch of \<open>n\<close> records: the three handlers and the rest.\<close>

definition settle :: "signal_kind \<Rightarrow> nat \<Rightarrow> report res \<Rightarrow> 'r processor \<Rightarrow> unit res \<times> 'r processor" where
  "settle kind n r p =
     (case r of
        Inl e \<Rightarrow>
          if is_Exception e
          then (let p1 = p\<lparr>bp_failures := bp_failures p + 1, bp_last_error := Some (exn_str e),
                           bp_dropped := bp_dropped p + int n\<rparr>
                in (Inr (), p1\<lparr>bp_log := bp_log p1 @ [failure_line kind e p1]\<rparr>))
          else (Inl e, p\<lparr>bp_dropped := bp_dropped p + int n\<rparr>)
      | Inr partial \<Rightarrow>
          (let p1 = p\<lparr>bp_failures := 0, bp_last_error := None\<rparr>
           in case partial of
                None \<Rightarrow> (Inr (), p1\<lparr>bp_exported := bp_exported p1 + int n\<rparr>)
              | Some (rejected, message) \<Rightarrow>
                  (Inr (), p1\<lparr>bp_last_error := Some (S ''partial success: '' @ message),
                              bp_exported := bp_exported p1 + max 0 (int n - rejected)\<rparr>)))"

definition flush_kind ::
  "(signal_kind \<Rightarrow> 'r list \<Rightarrow> ('r processor \<times> 'w, report) io) \<Rightarrow> signal_kind \<Rightarrow>
   ('r processor \<times> 'w, unit) io" where
  "flush_kind ship kind =
     (\<lambda>(p, w).
       let batch = bp_queues p kind; p1 = set_queue kind [] p
       in if batch = [] then Some (Inr (), (p1, w))
          else (case ship kind batch (p1, w) of
              None \<Rightarrow> None
            | Some (r, (p2, w2)) \<Rightarrow>
                (let (next, p3) = settle kind (length batch) r p2 in Some (next, (p3, w2)))))"

fun flush_kinds ::
  "(signal_kind \<Rightarrow> 'r list \<Rightarrow> ('r processor \<times> 'w, report) io) \<Rightarrow> signal_kind list \<Rightarrow>
   ('r processor \<times> 'w, unit) io" where
  "flush_kinds ship [] = returnE ()"
| "flush_kinds ship (kind # kinds) = bindE (flush_kind ship kind) (\<lambda>_. flush_kinds ship kinds)"

text \<open>\<open>acquire\<close> is the wait for the lock, during which other tasks run; it may be cancelled.\<close>

definition flush ::
  "('r processor \<times> 'w, unit) io \<Rightarrow> (signal_kind \<Rightarrow> 'r list \<Rightarrow> ('r processor \<times> 'w, report) io) \<Rightarrow>
   ('r processor \<times> 'w, unit) io" where
  "flush acquire ship = bindE acquire (\<lambda>_. flush_kinds ship queued_kinds)"

subsection \<open>The background loop and shutdown\<close>

text \<open>\<open>wait\<close> is \<^verbatim>\<open>self._wake.wait()\<close> under the timeout of the flush interval.\<close>

definition on_processor :: "('r processor \<Rightarrow> 'r processor) \<Rightarrow> ('r processor \<times> 'w, unit) io" where
  "on_processor f = (\<lambda>(p, w). Some (Inr (), (f p, w)))"

definition flush_guarded ::
  "('r processor \<times> 'w, unit) io \<Rightarrow> (signal_kind \<Rightarrow> 'r list \<Rightarrow> ('r processor \<times> 'w, report) io) \<Rightarrow>
   ('r processor \<times> 'w, unit) io" where
  "flush_guarded acquire ship =
     catchE (flush acquire ship) (\<lambda>e.
       if is_Exception e
       then on_processor (\<lambda>p. p\<lparr>bp_failures := bp_failures p + 1, bp_last_error := Some (exn_str e),
              bp_log := bp_log p @ [LoopError e]\<rparr>)
       else raiseE e)"

definition run_turn ::
  "('r processor \<times> 'w, unit) io \<Rightarrow> ('r processor \<times> 'w, unit) io \<Rightarrow>
   (signal_kind \<Rightarrow> 'r list \<Rightarrow> ('r processor \<times> 'w, report) io) \<Rightarrow> ('r processor \<times> 'w, unit) io" where
  "run_turn wait acquire ship =
     bindE (catchE wait (\<lambda>e. case e of TimeoutError _ \<Rightarrow> returnE () | _ \<Rightarrow> raiseE e)) (\<lambda>_.
     bindE (on_processor (\<lambda>p. p\<lparr>bp_wake := False, bp_flushed := False\<rparr>)) (\<lambda>_.
     bindE (flush_guarded acquire ship) (\<lambda>_.
     on_processor (\<lambda>p. p\<lparr>bp_flushed := True\<rparr>))))"

text \<open>\<^verbatim>\<open>while True\<close>: the loop only ends by an exception, or never.\<close>

partial_function (option) run_loop ::
  "('r processor \<times> 'w, unit) io \<Rightarrow> ('r processor \<times> 'w, unit) io \<Rightarrow>
   (signal_kind \<Rightarrow> 'r list \<Rightarrow> ('r processor \<times> 'w, report) io) \<Rightarrow> 'r processor \<times> 'w \<Rightarrow>
   (unit res \<times> 'r processor \<times> 'w) option" where
  "run_loop wait acquire ship s =
     (case run_turn wait acquire ship s of
        None \<Rightarrow> None
      | Some (r, s') \<Rightarrow>
          (case r of Inl e \<Rightarrow> Some (Inl e, s') | Inr _ \<Rightarrow> run_loop wait acquire ship s'))"

definition processor_aenter :: "'r processor \<Rightarrow> 'r processor" where
  "processor_aenter p = p\<lparr>bp_task := True\<rparr>"

text \<open>How the background task may have ended: cancelled, or by an exception, which is logged.\<close>

definition ended_task :: "exn \<Rightarrow> ('r processor \<times> 'w, unit) io" where
  "ended_task e =
     (if is_Exception e then on_processor (\<lambda>p. p\<lparr>bp_log := bp_log p @ [TaskError e]\<rparr>) else returnE ())"

text \<open>
  \<open>join\<close> is the await of the cancelled background task: it ends as the task ends, and other
  tasks run meanwhile.
\<close>

definition processor_aexit ::
  "('r processor \<times> 'w, unit) io \<Rightarrow> ('r processor \<times> 'w, unit) io \<Rightarrow>
   (signal_kind \<Rightarrow> 'r list \<Rightarrow> ('r processor \<times> 'w, report) io) \<Rightarrow> ('r processor \<times> 'w, unit) io" where
  "processor_aexit join acquire ship =
     bindE (on_processor (\<lambda>p. p\<lparr>bp_closed := True\<rparr>)) (\<lambda>_.
     bindE (\<lambda>(p, w). if bp_task p then catchE join ended_task (p, w) else Some (Inr (), (p, w))) (\<lambda>_.
     flush acquire ship))"

subsection \<open>What a submission does\<close>

lemma set_queue_simps [simp]:
  "bp_queues (set_queue k q p) = (bp_queues p)(k := q)"
  "bp_max_queue (set_queue k q p) = bp_max_queue p" "bp_max_batch (set_queue k q p) = bp_max_batch p"
  "bp_wake (set_queue k q p) = bp_wake p" "bp_closed (set_queue k q p) = bp_closed p"
  "bp_submitted (set_queue k q p) = bp_submitted p" "bp_exported (set_queue k q p) = bp_exported p"
  "bp_dropped (set_queue k q p) = bp_dropped p" "bp_failures (set_queue k q p) = bp_failures p"
  "bp_last_error (set_queue k q p) = bp_last_error p" "bp_log (set_queue k q p) = bp_log p"
  "bp_task (set_queue k q p) = bp_task p" "bp_flushed (set_queue k q p) = bp_flushed p"
  by (simp_all add: set_queue_def)

lemma length_deque_append:
  "length q \<le> n \<Longrightarrow> length (deque_append n q x) = min n (Suc (length q))"
  by (auto simp: deque_append_def)

lemma submit_records_eq:
  assumes "length (bp_queues p kind) \<le> bp_max_queue p"
  shows "submit_records kind records accepted p =
    (accepted \<and> length (bp_queues p kind) + length records \<le> bp_max_queue p \<or> accepted \<and> records = [],
     (set_queue kind (foldl (deque_append (bp_max_queue p)) (bp_queues p kind) records) p)
       \<lparr>bp_dropped := bp_dropped p + int (length (bp_queues p kind) + length records - bp_max_queue p),
        bp_submitted := bp_submitted p + int (length records)\<rparr>)"
  using assms
proof (induction records arbitrary: accepted p)
  case Nil
  then show ?case by (simp add: set_queue_def)
next
  case (Cons x records)
  let ?n = "bp_max_queue p" and ?q = "bp_queues p kind"
  have len: "length (deque_append ?n ?q x) = min ?n (Suc (length ?q))"
    by (rule length_deque_append [OF Cons.prems])
  show ?case
  proof (cases "length ?q = ?n")
    case True
    then show ?thesis
      using Cons.prems len by (simp add: Let_def Cons.IH set_queue_def)
  next
    case False
    then show ?thesis
      using Cons.prems len by (auto simp add: Let_def Cons.IH set_queue_def)
  qed
qed

text \<open>
  C13. A submission never blocks, never raises and never loses count: on an open processor the queue
  of the signal then holds the newest records that fit, in order; every record is counted as
  submitted, exactly those that fell out as dropped, and \<^verbatim>\<open>True\<close> means none did; the other queues
  and counters are untouched, and the flusher is woken once the queue holds a batch. On a closed
  processor nothing changes and the answer is \<^verbatim>\<open>False\<close>.
\<close>

theorem submit_keeps_newest:
  assumes "length (bp_queues p kind) \<le> bp_max_queue p" and "kind \<in> {METRICS, LOGS, TRACES}"
  shows "case submit kind records p of (r, p') \<Rightarrow>
    if bp_closed p then r = Inr False \<and> p' = p
    else (let q = bp_queues p kind @ records; lost = length q - bp_max_queue p
      in r = Inr (lost = 0) \<and> bp_queues p' = (bp_queues p)(kind := drop lost q) \<and>
         bp_submitted p' = bp_submitted p + int (length records) \<and> bp_dropped p' = bp_dropped p + int lost \<and>
         bp_exported p' = bp_exported p \<and>
         (bp_wake p' \<longleftrightarrow> bp_wake p \<or> bp_max_batch p \<le> int (length (drop lost q))))"
proof -
  have "kind \<in> set queued_kinds"
    using assms(2) by (auto simp: queued_kinds_def)
  moreover have "foldl (deque_append (bp_max_queue p)) (bp_queues p kind) records =
      drop (length (bp_queues p kind @ records) - bp_max_queue p) (bp_queues p kind @ records)"
    using deque.append_all_newest [OF assms(1)] by (simp add: newest_def)
  ultimately show ?thesis
    using assms(1) by (auto simp: submit_def submit_records_eq [OF assms(1)] Let_def)
qed

definition small_processor :: "nat processor" where
  "small_processor = \<lparr>bp_max_batch = 2, bp_max_queue = 2, bp_queues = (\<lambda>_. []), bp_wake = False,
     bp_flushed = False, bp_task = False, bp_closed = False, bp_submitted = 0, bp_exported = 0,
     bp_dropped = 0, bp_failures = 0, bp_last_error = None, bp_log = []\<rparr>"

lemma submit_keeps_newest_witness:
  "\<exists>p. submit LOGS [1, 2, 3] small_processor = (Inr False, p) \<and> bp_queues p LOGS = [2, 3] \<and>
     bp_dropped p = 1 \<and> bp_wake p"
  using submit_keeps_newest [of small_processor LOGS "[1, 2, 3]"]
  by (cases "submit LOGS [1, 2, 3] small_processor") (simp add: small_processor_def Let_def)

subsection \<open>Tasks and the lock as steps\<close>

text \<open>
  What other tasks may do at any moment: submit records, or close the processor on the way out
  of its \<^verbatim>\<open>async with\<close> block.
\<close>

inductive other_step :: "'r processor \<Rightarrow> 'r processor \<Rightarrow> bool" where
  submits: "kind \<in> set queued_kinds \<Longrightarrow> other_step p (snd (submit kind records p))"
| closes: "other_step p (p\<lparr>bp_closed := True\<rparr>)"

definition other_steps :: "'r processor \<Rightarrow> 'r processor \<Rightarrow> bool" where
  "other_steps = other_step\<^sup>*\<^sup>*"

text \<open>
  Who holds the lock: nobody, a flush between two batches with the signals still to come, or a
  flush awaiting the export of a batch it has drained. \<open>sy_partials\<close> is a ghost: the size and
  the reported rejections of every batch that was a partial success.
\<close>

datatype 'r holder =
    Nobody
  | Draining "signal_kind list"
  | Exporting signal_kind "'r list" "signal_kind list"

record 'r system =
  sy_processor :: "'r processor"
  sy_holder :: "'r holder"
  sy_waiting :: nat
  sy_partials :: "(nat \<times> int) list"

definition partials_of :: "nat \<Rightarrow> report res \<Rightarrow> (nat \<times> int) list" where
  "partials_of n r = (case r of Inr (Some (rejected, _)) \<Rightarrow> [(n, rejected)] | _ \<Rightarrow> [])"

text \<open>The records of partial successes that neither \<^verbatim>\<open>exported\<close> nor \<^verbatim>\<open>dropped\<close> counts.\<close>

definition rejected_records :: "(nat \<times> int) list \<Rightarrow> int" where
  "rejected_records partials = (\<Sum>(n, rejected)\<leftarrow>partials. int n - max 0 (int n - rejected))"

inductive system_step :: "'r system \<Rightarrow> 'r system \<Rightarrow> bool" where
  other: "other_step (sy_processor s) p \<Longrightarrow> system_step s (s\<lparr>sy_processor := p\<rparr>)"
| request: "system_step s (s\<lparr>sy_waiting := Suc (sy_waiting s)\<rparr>)"
| abandon: "sy_waiting s = Suc n \<Longrightarrow> system_step s (s\<lparr>sy_waiting := n\<rparr>)"
| acquire: "sy_holder s = Nobody \<Longrightarrow> sy_waiting s = Suc n \<Longrightarrow>
    system_step s (s\<lparr>sy_waiting := n, sy_holder := Draining queued_kinds\<rparr>)"
| skip: "sy_holder s = Draining (kind # kinds) \<Longrightarrow> bp_queues (sy_processor s) kind = [] \<Longrightarrow>
    system_step s (s\<lparr>sy_holder := Draining kinds\<rparr>)"
| drain: "sy_holder s = Draining (kind # kinds) \<Longrightarrow> bp_queues (sy_processor s) kind = batch \<Longrightarrow>
    batch \<noteq> [] \<Longrightarrow> system_step s (s\<lparr>sy_processor := set_queue kind [] (sy_processor s),
      sy_holder := Exporting kind batch kinds\<rparr>)"
| settled: "sy_holder s = Exporting kind batch kinds \<Longrightarrow>
    settle kind (length batch) r (sy_processor s) = (Inr u, p) \<Longrightarrow>
    system_step s (s\<lparr>sy_processor := p, sy_holder := Draining kinds,
      sy_partials := sy_partials s @ partials_of (length batch) r\<rparr>)"
| cancelled: "sy_holder s = Exporting kind batch kinds \<Longrightarrow>
    settle kind (length batch) r (sy_processor s) = (Inl e, p) \<Longrightarrow>
    system_step s (s\<lparr>sy_processor := p, sy_holder := Nobody\<rparr>)"
| release: "sy_holder s = Draining [] \<Longrightarrow> system_step s (s\<lparr>sy_holder := Nobody\<rparr>)"

definition system_reaches :: "'r system \<Rightarrow> 'r system \<Rightarrow> bool" where
  "system_reaches = system_step\<^sup>*\<^sup>*"

inductive_cases other_step_elim: "other_step p p'"

definition in_flight :: "'r holder \<Rightarrow> int" where
  "in_flight h = (case h of Exporting _ batch _ \<Rightarrow> int (length batch) | _ \<Rightarrow> 0)"

definition queued :: "'r processor \<Rightarrow> int" where
  "queued p = int (length (bp_queues p METRICS) + length (bp_queues p LOGS) + length (bp_queues p TRACES))"

definition bounded :: "'r processor \<Rightarrow> bool" where
  "bounded p \<longleftrightarrow> (\<forall>k. length (bp_queues p k) \<le> bp_max_queue p) \<and> bp_queues p PROFILES = []"

definition balanced :: "'r system \<Rightarrow> bool" where
  "balanced s \<longleftrightarrow> bounded (sy_processor s) \<and>
     bp_submitted (sy_processor s) = bp_exported (sy_processor s) + bp_dropped (sy_processor s) +
       rejected_records (sy_partials s) + queued (sy_processor s) + in_flight (sy_holder s)"

subsection \<open>Conservation of records\<close>

lemma submit_fields:
  assumes "length (bp_queues p kind) \<le> bp_max_queue p" and "kind \<in> set queued_kinds" and "\<not> bp_closed p"
  shows "let p' = snd (submit kind records p); q = bp_queues p kind @ records in
    bp_queues p' = (bp_queues p)(kind := newest (bp_max_queue p) q) \<and>
    bp_submitted p' = bp_submitted p + int (length records) \<and>
    bp_dropped p' = bp_dropped p + int (length q - bp_max_queue p) \<and>
    bp_exported p' = bp_exported p \<and> bp_max_queue p' = bp_max_queue p"
  using assms by (simp add: submit_def submit_records_eq Let_def deque.append_all_newest)

text \<open>The part of the balance that other tasks leave alone.\<close>

definition undelivered :: "'r processor \<Rightarrow> int" where
  "undelivered p = bp_submitted p - bp_dropped p - queued p"

lemma other_step_keeps:
  assumes "other_step p p'" and "bounded p"
  shows "bounded p' \<and> undelivered p' = undelivered p \<and> bp_exported p' = bp_exported p \<and>
    bp_max_queue p' = bp_max_queue p \<and> (bp_closed p \<longrightarrow> bp_closed p' \<and> bp_queues p' = bp_queues p)"
  using assms(1)
proof (cases rule: other_step.cases)
  case (submits kind records)
  show ?thesis
  proof (cases "bp_closed p")
    case True
    then show ?thesis
      using submits assms(2) by (simp add: submit_def)
  next
    case False
    have len: "length (bp_queues p kind) \<le> bp_max_queue p"
      using assms(2) by (simp add: bounded_def)
    note fields = submit_fields [OF len submits(2) False, of records, folded submits(1), unfolded Let_def]
    have "length (newest (bp_max_queue p) (bp_queues p kind @ records)) =
        length (bp_queues p kind @ records) - (length (bp_queues p kind @ records) - bp_max_queue p)"
      by (simp add: newest_def)
    then have "undelivered p' = undelivered p"
      using fields submits(2) by (auto simp: undelivered_def queued_def queued_kinds_def)
    moreover have "bounded p'"
      using fields submits(2) assms(2) by (auto simp: bounded_def queued_kinds_def newest_def)
    ultimately show ?thesis
      using fields False by blast
  qed
next
  case closes
  then show ?thesis
    using assms(2) by (simp add: bounded_def undelivered_def queued_def)
qed

lemma other_steps_keep:
  assumes "other_steps p p'" and "bounded p"
  shows "bounded p' \<and> undelivered p' = undelivered p \<and> bp_exported p' = bp_exported p \<and>
    bp_max_queue p' = bp_max_queue p \<and> (bp_closed p \<longrightarrow> bp_closed p' \<and> bp_queues p' = bp_queues p)"
  using assms unfolding other_steps_def
proof (induction rule: rtranclp_induct)
  case (step y z)
  with other_step_keeps [OF step.hyps(2)] show ?case by auto
qed simp

lemma settle_fields:
  "bp_queues (snd (settle k n r p)) = bp_queues p" "bp_max_queue (snd (settle k n r p)) = bp_max_queue p"
  "bp_submitted (snd (settle k n r p)) = bp_submitted p" "bp_closed (snd (settle k n r p)) = bp_closed p"
  by (auto simp: settle_def Let_def split: sum.split option.split)

lemma settle_balance:
  "bp_exported (snd (settle k n r p)) + bp_dropped (snd (settle k n r p)) + rejected_records (partials_of n r) =
    bp_exported p + bp_dropped p + int n"
  by (auto simp: settle_def Let_def rejected_records_def partials_of_def split: sum.split option.split)

lemma rejected_records_append [simp]:
  "rejected_records (xs @ ys) = rejected_records xs + rejected_records ys"
  by (simp add: rejected_records_def)

lemma settle_raises: "fst (settle k n r p) = Inl e \<longleftrightarrow> r = Inl CancelledError \<and> e = CancelledError"
  by (auto simp: settle_def Let_def is_Exception_def split: sum.splits option.splits)

lemma bounded_drained: "bounded p \<Longrightarrow> bounded (set_queue k [] p)"
  by (simp add: bounded_def)

lemma queued_drained:
  "bounded p \<Longrightarrow> queued (set_queue k [] p) + int (length (bp_queues p k)) = queued p"
  by (cases k) (auto simp: queued_def bounded_def)

lemma settled_keeps:
  assumes "settle k n r p = (q, p')"
  shows "bp_queues p' = bp_queues p" "bp_max_queue p' = bp_max_queue p" "bp_submitted p' = bp_submitted p"
    "bp_exported p' + bp_dropped p' + rejected_records (partials_of n r) = bp_exported p + bp_dropped p + int n"
    "q = Inl e \<Longrightarrow> r = Inl CancelledError"
  using settle_fields [of k n r p] settle_balance [of k n r p] settle_raises [of k n r p e] assms
  by simp_all

lemma balanced_step:
  assumes "system_step s s'" and "balanced s"
  shows "balanced s'"
  using assms
proof (cases rule: system_step.cases)
  case (other p)
  with assms(2) other_step_keeps [OF other(2)] show ?thesis
    by (auto simp: balanced_def undelivered_def)
next
  case (skip kind kinds)
  with assms(2) show ?thesis
    by (simp add: balanced_def in_flight_def)
next
  case (drain kind kinds batch)
  with assms(2) queued_drained [of "sy_processor s" kind] bounded_drained show ?thesis
    by (auto simp: balanced_def in_flight_def)
next
  case (settled kind batch kinds r u p)
  with assms(2) settled_keeps [OF settled(3)] show ?thesis
    by (auto simp: balanced_def in_flight_def bounded_def queued_def)
next
  case (cancelled kind batch kinds r e p)
  then have "r = Inl CancelledError"
    using settled_keeps(5) by blast
  with cancelled assms(2) settled_keeps [OF cancelled(3)] show ?thesis
    by (auto simp: balanced_def in_flight_def bounded_def queued_def rejected_records_def partials_of_def)
qed (simp_all add: balanced_def in_flight_def)

lemma capacity_step:
  "system_step s s' \<Longrightarrow> balanced s \<Longrightarrow> bp_max_queue (sy_processor s') = bp_max_queue (sy_processor s)"
  by (cases rule: system_step.cases) (auto simp: balanced_def dest: other_step_keeps settled_keeps(2))

lemma balanced_reaches:
  "system_reaches s s' \<Longrightarrow> balanced s \<Longrightarrow>
    balanced s' \<and> bp_max_queue (sy_processor s') = bp_max_queue (sy_processor s)"
  unfolding system_reaches_def
  by (induction rule: rtranclp_induct) (auto intro: balanced_step simp: capacity_step)

definition initial_system :: "'r processor \<Rightarrow> 'r system" where
  "initial_system p = \<lparr>sy_processor = p, sy_holder = Nobody, sy_waiting = 0, sy_partials = []\<rparr>"

lemma init_balanced: "processor_init max_batch max_queue = Inr p \<Longrightarrow> balanced (initial_system p)"
  by (auto simp: processor_init_def balanced_def initial_system_def bounded_def queued_def in_flight_def rejected_records_def
      split: if_splits)

text \<open>
  C2. No record is lost or counted twice, whatever runs when: from a new processor, after any
  interleaving of submissions, flushes waiting for the lock, exports that succeed, fail or are
  cancelled, and closing, every record ever submitted is exported, dropped, rejected in a partial
  success (of \<open>n\<close> records at most the reported number), still queued, or in the batch being
  exported; and no queue ever exceeds its bound.
\<close>

theorem processor_conserves:
  assumes "processor_init max_batch max_queue = Inr p0" and "system_reaches (initial_system p0) s"
  shows "bp_submitted (sy_processor s) = bp_exported (sy_processor s) + bp_dropped (sy_processor s) +
      (\<Sum>(n, rejected)\<leftarrow>sy_partials s. int n - max 0 (int n - rejected)) +
      int (\<Sum>k\<leftarrow>[METRICS, LOGS, TRACES]. length (bp_queues (sy_processor s) k)) +
      (case sy_holder s of Exporting _ batch _ \<Rightarrow> int (length batch) | _ \<Rightarrow> 0) \<and>
    (\<forall>k. int (length (bp_queues (sy_processor s) k)) \<le> max_queue)"
proof -
  have "balanced s" "bp_max_queue (sy_processor s) = bp_max_queue p0"
    using balanced_reaches [OF assms(2) init_balanced [OF assms(1)]] by (simp_all add: initial_system_def)
  moreover have "int (bp_max_queue p0) = max_queue"
    using assms(1) by (auto simp: processor_init_def split: if_splits)
  ultimately show ?thesis
    by (auto simp: balanced_def bounded_def queued_def in_flight_def rejected_records_def)
qed

lemma small_processor_init: "processor_init 2 2 = Inr small_processor"
  by (simp add: processor_init_def small_processor_def)

text \<open>A run: three records into a queue of two, a flush that drains them, and the batch in flight.\<close>

lemma processor_conserves_witness:
  "\<exists>s. system_reaches (initial_system small_processor) s \<and> sy_holder s = Exporting LOGS [6, 7] [TRACES] \<and>
     bp_submitted (sy_processor s) = bp_exported (sy_processor s) + bp_dropped (sy_processor s) +
       rejected_records (sy_partials s) + 2"
proof -
  let ?p = "snd (submit LOGS [5, 6, 7] small_processor)"
  define s1 where "s1 = (initial_system small_processor)\<lparr>sy_processor := ?p\<rparr>"
  define s2 where "s2 = s1\<lparr>sy_waiting := Suc (sy_waiting s1)\<rparr>"
  define s3 where "s3 = s2\<lparr>sy_waiting := 0, sy_holder := Draining queued_kinds\<rparr>"
  define s4 where "s4 = s3\<lparr>sy_holder := Draining [LOGS, TRACES]\<rparr>"
  define s5 where "s5 = s4\<lparr>sy_processor := set_queue LOGS [] (sy_processor s4),
    sy_holder := Exporting LOGS [6, 7] [TRACES]\<rparr>"
  note defs = s1_def s2_def s3_def s4_def s5_def initial_system_def queued_kinds_def
  have small: "bp_max_queue small_processor = 2" "bp_queues small_processor = (\<lambda>_. [])"
      "\<not> bp_closed small_processor"
    by (simp_all add: small_processor_def)
  then have q: "bp_queues ?p = (\<lambda>_. [])(LOGS := [6, 7])"
    using submit_fields [of small_processor LOGS "[5, 6, 7]"]
    by (simp add: queued_kinds_def newest_def Let_def)
  have queues: "bp_queues ?p METRICS = []" "bp_queues ?p LOGS = [6, 7]" "bp_queues ?p TRACES = []"
    unfolding q by simp_all
  have "system_step (initial_system small_processor) s1"
    unfolding s1_def
    by (rule system_step.other) (simp add: initial_system_def, rule other_step.submits, simp add: queued_kinds_def)
  moreover have "system_step s1 s2"
    unfolding s2_def by (rule system_step.request)
  moreover have "system_step s2 s3"
    unfolding s3_def by (rule system_step.acquire) (simp_all add: defs)
  moreover have "system_step s3 s4"
    unfolding s4_def by (rule system_step.skip [where kind = METRICS]) (simp_all add: defs queues)
  moreover have "system_step s4 s5"
    unfolding s5_def by (rule system_step.drain) (simp_all add: defs queues)
  ultimately have run: "system_reaches (initial_system small_processor) s5"
    unfolding system_reaches_def
    by (meson converse_rtranclp_into_rtranclp r_into_rtranclp)
  show ?thesis
    using processor_conserves [OF small_processor_init run] run
    by (intro exI [of _ s5]) (simp add: defs queues rejected_records_def)
qed

subsection \<open>A flush is a run of the system\<close>

text \<open>While an export is awaited, other tasks submit and close; they cannot flush, for the lock is held.\<close>

definition interleaves :: "(signal_kind \<Rightarrow> 'r list \<Rightarrow> ('r processor \<times> 'w, report) io) \<Rightarrow> bool" where
  "interleaves ship \<longleftrightarrow> (\<forall>kind batch p w r p' w'. ship kind batch (p, w) = Some (r, (p', w')) \<longrightarrow> other_steps p p')"

lemma awaited_interleaves:
  "(\<And>w w' p. other_steps p (others w w' p)) \<Longrightarrow> interleaves (awaited others ship)"
  by (auto simp: interleaves_def awaited_def)

lemma flush_kind_cases:
  assumes "flush_kind ship kind (p, w) = Some (q, (p', w'))"
  obtains (empty) "bp_queues p kind = []" "q = Inr ()" "p' = set_queue kind [] p" "w' = w"
  | (exported) batch r p2 where "bp_queues p kind = batch" "batch \<noteq> []"
      "ship kind batch (set_queue kind [] p, w) = Some (r, (p2, w'))"
      "settle kind (length batch) r p2 = (q, p')"
proof (cases "bp_queues p kind = []")
  case True
  with assms empty show thesis by (simp add: flush_kind_def Let_def)
next
  case False
  then obtain r p2 where "ship kind (bp_queues p kind) (set_queue kind [] p, w) = Some (r, (p2, w'))"
      "settle kind (length (bp_queues p kind)) r p2 = (q, p')"
    using assms by (auto simp: flush_kind_def Let_def split: option.splits prod.splits)
  with False exported show thesis by blast
qed

lemma set_queue_empty: "bp_queues p kind = [] \<Longrightarrow> set_queue kind [] p = p"
  by (simp add: set_queue_def fun_upd_idem)

lemma system_reaches_others:
  assumes "other_steps p p'"
  shows "system_reaches \<lparr>sy_processor = p, sy_holder = h, sy_waiting = n, sy_partials = g\<rparr>
    \<lparr>sy_processor = p', sy_holder = h, sy_waiting = n, sy_partials = g\<rparr>"
  using assms unfolding other_steps_def system_reaches_def
proof (induction rule: rtranclp_induct)
  case (step y z)
  from system_step.other [of "\<lparr>sy_processor = y, sy_holder = h, sy_waiting = n, sy_partials = g\<rparr>" z]
    step.hyps(2) step.IH show ?case
    by (simp add: rtranclp.rtrancl_into_rtrancl)
qed simp

lemma reaches_step: "system_step s s' \<Longrightarrow> system_reaches s' s'' \<Longrightarrow> system_reaches s s''"
  unfolding system_reaches_def by (rule converse_rtranclp_into_rtranclp)

lemma reaches_trans: "system_reaches s s' \<Longrightarrow> system_reaches s' s'' \<Longrightarrow> system_reaches s s''"
  unfolding system_reaches_def by (rule rtranclp_trans)

lemma flush_kind_runs:
  assumes "interleaves ship" and "flush_kind ship kind (p, w) = Some (q, (p', w'))"
  shows "\<exists>g'. system_reaches \<lparr>sy_processor = p, sy_holder = Draining (kind # kinds), sy_waiting = n, sy_partials = g\<rparr>
    \<lparr>sy_processor = p', sy_holder = (case q of Inr _ \<Rightarrow> Draining kinds | Inl _ \<Rightarrow> Nobody), sy_waiting = n, sy_partials = g'\<rparr>"
    (is "\<exists>g'. system_reaches ?s (?t g')")
  using assms(2)
proof (cases rule: flush_kind_cases)
  case empty
  then have "system_step ?s (?t g)"
    using system_step.skip [of ?s kind kinds] by (simp add: set_queue_empty)
  then show ?thesis
    unfolding system_reaches_def by blast
next
  case (exported batch r p2)
  have drain: "system_step ?s (?s\<lparr>sy_processor := set_queue kind [] p, sy_holder := Exporting kind batch kinds\<rparr>)"
    using system_step.drain [of ?s kind kinds batch] exported(1,2) by simp
  have others: "system_reaches (?s\<lparr>sy_processor := set_queue kind [] p, sy_holder := Exporting kind batch kinds\<rparr>)
      \<lparr>sy_processor = p2, sy_holder = Exporting kind batch kinds, sy_waiting = n, sy_partials = g\<rparr>"
    (is "system_reaches _ ?e")
    using system_reaches_others assms(1) exported(3) unfolding interleaves_def by fastforce
  have "\<exists>g'. system_step ?e (?t g')"
  proof (cases q)
    case (Inr u)
    then show ?thesis
      using system_step.settled [of ?e kind batch kinds r u p'] exported(4) by auto
  next
    case (Inl e)
    then show ?thesis
      using system_step.cancelled [of ?e kind batch kinds r e p'] exported(4) by auto
  qed
  then show ?thesis
    using reaches_step [OF drain reaches_trans [OF others]] unfolding system_reaches_def by blast
qed

lemma flush_kinds_runs:
  assumes "interleaves ship"
  shows "flush_kinds ship kinds (p, w) = Some (q, (p', w')) \<Longrightarrow>
    \<exists>g'. system_reaches \<lparr>sy_processor = p, sy_holder = Draining kinds, sy_waiting = n, sy_partials = g\<rparr>
      \<lparr>sy_processor = p', sy_holder = Nobody, sy_waiting = n, sy_partials = g'\<rparr>"
proof (induction kinds arbitrary: p w g)
  case Nil
  let ?s = "\<lparr>sy_processor = p, sy_holder = Draining [], sy_waiting = n, sy_partials = g\<rparr>"
  have "system_step ?s (?s\<lparr>sy_holder := Nobody\<rparr>)"
    by (rule system_step.release) simp
  with Nil show ?case
    unfolding system_reaches_def by auto
next
  case (Cons kind kinds)
  obtain q1 p1 w1 where first: "flush_kind ship kind (p, w) = Some (q1, (p1, w1))"
    using Cons.prems by (auto simp: bindE_Some_iff)
  note run = flush_kind_runs [OF assms first, of kinds n g]
  show ?case
  proof (cases q1)
    case (Inl e)
    then show ?thesis
      using Cons.prems first run by (auto simp: bindE_def)
  next
    case (Inr u)
    then have rest: "flush_kinds ship kinds (p1, w1) = Some (q, (p', w'))"
      using Cons.prems first by (simp add: bindE_def)
    obtain g1 where "system_reaches \<lparr>sy_processor = p, sy_holder = Draining (kind # kinds), sy_waiting = n, sy_partials = g\<rparr>
        \<lparr>sy_processor = p1, sy_holder = Draining kinds, sy_waiting = n, sy_partials = g1\<rparr>"
      using run Inr by auto
    with Cons.IH [OF rest, of g1] show ?thesis
      using reaches_trans by blast
  qed
qed

text \<open>
  C15. The flush refines the system of steps: whatever a flush that was waiting for the lock does
  once it has it, with other tasks running during each export, is a run of the system from the
  free lock to the free lock. So what holds of every reachable state, the conservation of
  records above all, holds of every flush, whether it returns or is cancelled.
\<close>

theorem flush_refines_system:
  assumes "interleaves ship" and "flush_kinds ship queued_kinds (p, w) = Some (q, (p', w'))"
    and "system_reaches (initial_system p0)
      \<lparr>sy_processor = p, sy_holder = Nobody, sy_waiting = Suc n, sy_partials = g\<rparr>"
  shows "\<exists>g'. system_reaches (initial_system p0)
    \<lparr>sy_processor = p', sy_holder = Nobody, sy_waiting = n, sy_partials = g'\<rparr>"
proof -
  let ?s = "\<lparr>sy_processor = p, sy_holder = Nobody, sy_waiting = Suc n, sy_partials = g\<rparr>"
  have "system_step ?s (?s\<lparr>sy_waiting := n, sy_holder := Draining queued_kinds\<rparr>)"
    by (rule system_step.acquire) simp_all
  with flush_kinds_runs [OF assms(1,2), of n g] show ?thesis
    using reaches_trans [OF assms(3)] reaches_step by fastforce
qed

definition quiet_export :: "signal_kind \<Rightarrow> nat list \<Rightarrow> (unit, report) io" where
  "quiet_export kind batch = returnE None"

lemma flush_refines_system_witness:
  "\<exists>p' g'. flush_kinds (awaited (\<lambda>_ _ p. p) quiet_export) queued_kinds (snd (submit LOGS [5] small_processor), ()) =
       Some (Inr (), (p', ())) \<and> bp_queues p' LOGS = [] \<and>
     system_reaches (initial_system small_processor)
       \<lparr>sy_processor = p', sy_holder = Nobody, sy_waiting = 0, sy_partials = g'\<rparr>"
proof -
  let ?p = "snd (submit LOGS [5] small_processor)"
  have small: "bp_max_queue small_processor = 2" "bp_queues small_processor = (\<lambda>_. [])"
      "\<not> bp_closed small_processor"
    by (simp_all add: small_processor_def)
  then have queues: "bp_queues ?p = (\<lambda>_. [])(LOGS := [5])"
    using submit_fields [of small_processor LOGS "[5]"]
    by (simp add: queued_kinds_def newest_def Let_def)
  have "\<exists>p'. flush_kinds (awaited (\<lambda>_ _ p. p) quiet_export) queued_kinds (?p, ()) =
      Some (Inr (), (p', ())) \<and> bp_queues p' LOGS = []"
    by (simp add: queued_kinds_def flush_kind_def queues awaited_def quiet_export_def settle_def Let_def bindE_def)
  then obtain p' where run: "flush_kinds (awaited (\<lambda>_ _ p. p) quiet_export) queued_kinds (?p, ()) =
      Some (Inr (), (p', ()))" "bp_queues p' LOGS = []"
    by blast
  have ship: "interleaves (awaited (\<lambda>_ _ p. p) quiet_export)"
    by (rule awaited_interleaves) (simp add: other_steps_def)
  let ?s = "\<lparr>sy_processor = ?p, sy_holder = Nobody, sy_waiting = 0, sy_partials = []\<rparr>"
  have "other_step small_processor ?p"
    by (rule other_step.submits) (simp add: queued_kinds_def)
  then have "system_step (initial_system small_processor) ?s"
    using system_step.other [of "initial_system small_processor" ?p] by (simp add: initial_system_def)
  moreover have "system_step ?s (?s\<lparr>sy_waiting := Suc 0\<rparr>)"
    using system_step.request [of ?s] by simp
  ultimately have "system_reaches (initial_system small_processor)
      \<lparr>sy_processor = ?p, sy_holder = Nobody, sy_waiting = Suc 0, sy_partials = []\<rparr>"
    unfolding system_reaches_def by (simp add: rtranclp.rtrancl_into_rtrancl)
  from flush_refines_system [OF ship run(1) this] run show ?thesis by blast
qed

subsection \<open>Failures, cancellation and shutdown\<close>

lemma flush_kind_raises:
  assumes "flush_kind ship kind s = Some (Inl e, s')"
  shows "e = CancelledError"
proof -
  obtain p w p' w' where "flush_kind ship kind (p, w) = Some (Inl e, (p', w'))"
    using assms by (cases s; cases s') simp
  then show ?thesis
  proof (cases rule: flush_kind_cases)
    case (exported batch r p2)
    with settle_raises [of kind "length batch" r p2 e] show ?thesis by simp
  qed simp
qed

lemma flush_kinds_raises: "flush_kinds ship kinds s = Some (Inl e, s') \<Longrightarrow> e = CancelledError"
proof (induction kinds arbitrary: s)
  case (Cons kind kinds)
  then show ?case
    by (auto simp: bindE_Some_iff dest: flush_kind_raises)
qed simp

lemma flush_raises:
  assumes "\<And>s e s'. acquire s = Some (Inl e, s') \<Longrightarrow> e = CancelledError"
    and "flush acquire ship s = Some (Inl e, s')"
  shows "e = CancelledError"
  using assms(2) unfolding flush_def bindE_Some_iff by (auto dest: assms(1) flush_kinds_raises)

lemma run_turn_raises:
  assumes "\<And>s e s'. acquire s = Some (Inl e, s') \<Longrightarrow> e = CancelledError"
    and "\<And>s e s'. wait s = Some (Inl e, s') \<Longrightarrow> e = CancelledError \<or> (\<exists>m. e = TimeoutError m)"
    and "run_turn wait acquire ship s = Some (Inl e, s')"
  shows "e = CancelledError"
proof -
  have guarded: "flush_guarded acquire ship s = Some (Inl e, s') \<Longrightarrow> e = CancelledError" for s e s'
    unfolding flush_guarded_def catchE_Some_iff
    by (auto simp: on_processor_def is_Exception_def split: if_splits prod.splits)
  have waiting: "catchE wait (\<lambda>e. case e of TimeoutError _ \<Rightarrow> returnE () | _ \<Rightarrow> raiseE e) s = Some (Inl e, s') \<Longrightarrow>
      e = CancelledError" for s e s'
    unfolding catchE_Some_iff by (auto dest!: assms(2))
  show ?thesis
    using assms(3) unfolding run_turn_def bindE_Some_iff
    by (auto simp: on_processor_def dest: guarded waiting split: prod.splits)
qed

lemma run_loop_raises:
  assumes "run_loop wait acquire ship s = Some x"
    and "\<And>s e s'. acquire s = Some (Inl e, s') \<Longrightarrow> e = CancelledError"
    and "\<And>s e s'. wait s = Some (Inl e, s') \<Longrightarrow> e = CancelledError \<or> (\<exists>m. e = TimeoutError m)"
  shows "fst x = Inl CancelledError"
proof -
  have "(\<forall>s e s'. acquire s = Some (Inl e, s') \<longrightarrow> e = CancelledError) \<longrightarrow>
      (\<forall>s e s'. wait s = Some (Inl e, s') \<longrightarrow> e = CancelledError \<or> (\<exists>m. e = TimeoutError m)) \<longrightarrow>
      fst x = Inl CancelledError"
  proof (rule run_loop.raw_induct [OF _ assms(1), where P = "\<lambda>wait acquire ship s x.
      (\<forall>s e s'. acquire s = Some (Inl e, s') \<longrightarrow> e = CancelledError) \<longrightarrow>
      (\<forall>s e s'. wait s = Some (Inl e, s') \<longrightarrow> e = CancelledError \<or> (\<exists>m. e = TimeoutError m)) \<longrightarrow>
      fst x = Inl CancelledError"], intro impI)
    fix loop :: "('a processor \<times> 'b, unit) io \<Rightarrow> ('a processor \<times> 'b, unit) io \<Rightarrow>
        (signal_kind \<Rightarrow> 'a list \<Rightarrow> ('a processor \<times> 'b, report) io) \<Rightarrow> 'a processor \<times> 'b \<Rightarrow>
        (unit res \<times> 'a processor \<times> 'b) option"
      and wait acquire ship s x
    assume IH: "\<And>wait acquire ship s x. loop wait acquire ship s = Some x \<Longrightarrow>
        (\<forall>s e s'. acquire s = Some (Inl e, s') \<longrightarrow> e = CancelledError) \<longrightarrow>
        (\<forall>s e s'. wait s = Some (Inl e, s') \<longrightarrow> e = CancelledError \<or> (\<exists>m. e = TimeoutError m)) \<longrightarrow>
        fst x = Inl CancelledError"
      and body: "(case run_turn wait acquire ship s of None \<Rightarrow> None
        | Some (r, s') \<Rightarrow> (case r of Inl e \<Rightarrow> Some (Inl e, s') | Inr _ \<Rightarrow> loop wait acquire ship s')) = Some x"
      and lock: "\<forall>s e s'. acquire s = Some (Inl e, s') \<longrightarrow> e = CancelledError"
      and wake: "\<forall>s e s'. wait s = Some (Inl e, s') \<longrightarrow> e = CancelledError \<or> (\<exists>m. e = TimeoutError m)"
    obtain q s1 where turn: "run_turn wait acquire ship s = Some (q, s1)"
      using body by (cases "run_turn wait acquire ship s") auto
    show "fst x = Inl CancelledError"
    proof (cases q)
      case (Inl e)
      have "e = CancelledError"
        by (rule run_turn_raises [OF _ _ turn [unfolded Inl]]) (use lock wake in blast)+
      with Inl turn body show ?thesis by auto
    next
      case (Inr u)
      with turn body have "loop wait acquire ship s1 = Some x" by simp
      with IH lock wake show ?thesis by blast
    qed
  qed
  with assms(2,3) show ?thesis by blast
qed

text \<open>
  C21. Only cancellation ends the background work: given that waiting for the lock and for the
  wake-up event can only be cancelled or time out, \<^verbatim>\<open>flush\<close> raises nothing but
  \<^verbatim>\<open>CancelledError\<close>, whatever the exports raise, and the background loop never ends otherwise.
\<close>

theorem only_cancellation_ends:
  assumes "\<And>s e s'. acquire s = Some (Inl e, s') \<Longrightarrow> e = CancelledError"
    and "\<And>s e s'. wait s = Some (Inl e, s') \<Longrightarrow> e = CancelledError \<or> (\<exists>m. e = TimeoutError m)"
  shows "(\<forall>r s'. flush acquire ship s = Some (r, s') \<longrightarrow> r = Inr () \<or> r = Inl CancelledError) \<and>
    (\<forall>r s'. run_loop wait acquire ship s = Some (r, s') \<longrightarrow> r = Inl CancelledError)"
proof (intro conjI allI impI)
  fix r s' assume run: "flush acquire ship s = Some (r, s')"
  show "r = Inr () \<or> r = Inl CancelledError"
  proof (cases r)
    case (Inl e)
    with flush_raises [OF assms(1) run [unfolded Inl]] show ?thesis by simp
  qed simp
next
  fix r s' assume "run_loop wait acquire ship s = Some (r, s')"
  from run_loop_raises [OF this assms] show "r = Inl CancelledError"
    by simp
qed

definition failing_export :: "signal_kind \<Rightarrow> nat list \<Rightarrow> (unit, report) io" where
  "failing_export kind batch = raiseE (TypeError (S ''bad value''))"

lemma only_cancellation_ends_witness:
  "\<exists>p'. flush (returnE ()) (awaited (\<lambda>_ _ p. p) failing_export) (set_queue LOGS [5] small_processor, ()) =
     Some (Inr (), (p', ())) \<and> bp_dropped p' = 1 \<and> bp_failures p' = 1"
proof -
  let ?s = "(set_queue LOGS [5] small_processor, ())"
  have zero: "bp_dropped small_processor = 0" "bp_failures small_processor = 0"
      "bp_queues small_processor = (\<lambda>_. [])"
    by (simp_all add: small_processor_def)
  have "\<exists>r p'. flush (returnE ()) (awaited (\<lambda>_ _ p. p) failing_export) ?s = Some (r, (p', ())) \<and>
      bp_dropped p' = 1 \<and> bp_failures p' = 1"
    by (simp add: flush_def queued_kinds_def flush_kind_def zero awaited_def failing_export_def settle_def
        Let_def bindE_def is_Exception_def)
  moreover have "flush (returnE ()) (awaited (\<lambda>_ _ p. p) failing_export) ?s = Some (r, s') \<Longrightarrow>
      r = Inr () \<or> r = Inl CancelledError" for r s'
    using only_cancellation_ends [of "returnE ()" "\<lambda>s. Some (Inl (TimeoutError []), s)"
        "awaited (\<lambda>_ _ p. p) failing_export" ?s] by (cases s') auto
  moreover have "flush (returnE ()) (awaited (\<lambda>_ _ p. p) failing_export) ?s \<noteq> Some (Inl CancelledError, s')" for s'
    by (simp add: flush_def queued_kinds_def flush_kind_def zero awaited_def failing_export_def settle_def
        Let_def bindE_def is_Exception_def)
  ultimately show ?thesis by metis
qed

lemma closed_other_steps:
  "other_steps p p' \<Longrightarrow> bp_closed p \<Longrightarrow> bp_closed p' \<and> bp_queues p' = bp_queues p"
  unfolding other_steps_def
proof (induction rule: rtranclp_induct)
  case (step y z)
  from step.hyps(2) step.IH [OF step.prems] show ?case
    by (cases rule: other_step.cases) (auto simp: submit_def)
qed simp

lemma flush_kind_drains:
  assumes "interleaves ship" and "bp_closed p" and "flush_kind ship kind (p, w) = Some (q, (p', w'))"
  shows "bp_closed p' \<and> bp_queues p' = (bp_queues p)(kind := [])"
  using assms(3)
proof (cases rule: flush_kind_cases)
  case (exported batch r p2)
  then have "other_steps (set_queue kind [] p) p2"
    using assms(1) unfolding interleaves_def by blast
  with closed_other_steps [OF this] settle_fields [of kind "length batch" r p2] exported(4) assms(2)
  show ?thesis by simp
qed (use assms(2) in simp)

lemma flush_kinds_drains:
  assumes "interleaves ship"
  shows "bp_closed p \<Longrightarrow> flush_kinds ship kinds (p, w) = Some (Inr u, (p', w')) \<Longrightarrow>
    bp_closed p' \<and> (\<forall>k \<in> set kinds. bp_queues p' k = []) \<and> (\<forall>k. bp_queues p k = [] \<longrightarrow> bp_queues p' k = [])"
proof (induction kinds arbitrary: p w)
  case (Cons kind kinds)
  obtain v p1 w1 where first: "flush_kind ship kind (p, w) = Some (Inr v, (p1, w1))"
    and rest: "flush_kinds ship kinds (p1, w1) = Some (Inr u, (p', w'))"
    using Cons.prems(2) by (auto simp: bindE_Some_iff)
  note drained = flush_kind_drains [OF assms Cons.prems(1) first]
  with Cons.IH [OF _ rest] show ?case by auto
qed simp

text \<open>An awaited action that comes back.\<close>

definition returns :: "('w, 'a) io \<Rightarrow> bool" where
  "returns m \<longleftrightarrow> (\<forall>s. m s \<noteq> None)"

lemma returnsE:
  assumes "returns m"
  obtains r p w where "m s = Some (r, (p, w))"
  using assms unfolding returns_def by (metis option.exhaust surj_pair)

lemma flush_kinds_returns:
  assumes "\<And>kind batch. returns (ship kind batch)"
  shows "\<exists>r s'. flush_kinds ship kinds s = Some (r, s')"
proof (induction kinds arbitrary: s)
  case (Cons kind kinds)
  obtain p w where s: "s = (p, w)" by (cases s)
  have "\<exists>q s1. flush_kind ship kind (p, w) = Some (q, s1)"
    by (rule returnsE [OF assms, of kind "bp_queues p kind" "(set_queue kind [] p, w)"])
      (auto simp: flush_kind_def Let_def split: prod.split)
  then obtain q s1 where "flush_kind ship kind s = Some (q, s1)"
    using s by blast
  with Cons.IH [of s1] show ?case
    by (cases q) (auto simp: bindE_def)
qed simp

text \<open>
  Leaving the \<^verbatim>\<open>async with\<close> block drains the processor: when the background task can be joined,
  the lock acquired and every export comes back, \<^verbatim>\<open>__aexit__\<close> comes back; and unless its own
  flush is cancelled, it returns normally with the processor closed and every queue empty,
  whatever the exports raised and however much other tasks tried to submit meanwhile.
\<close>

lemma shutdown_drains:
  assumes "returns join" and "returns acquire" and "\<And>kind batch. returns (ship kind batch)"
    and "interleaves ship"
    and "\<And>s e s'. acquire s = Some (Inl e, s') \<Longrightarrow> e = CancelledError"
    and "\<And>p w r p' w'. acquire (p, w) = Some (r, (p', w')) \<Longrightarrow> bp_closed p \<Longrightarrow> bp_closed p'"
    and "\<And>p w r p' w'. join (p, w) = Some (r, (p', w')) \<Longrightarrow> bp_closed p \<Longrightarrow> bp_closed p'"
  shows "\<exists>r p' w'. processor_aexit join acquire ship (p, w) = Some (r, (p', w')) \<and>
    (r = Inl CancelledError \<or> r = Inr () \<and> bp_closed p' \<and> (\<forall>k \<in> {METRICS, LOGS, TRACES}. bp_queues p' k = []))"
proof -
  let ?p0 = "p\<lparr>bp_closed := True\<rparr>"
  let ?joined = "(\<lambda>(p, w). if bp_task p then catchE join ended_task (p, w) else Some (Inr (), (p, w)))"
  have "\<exists>p1 w1. ?joined (?p0, w) = Some (Inr (), (p1, w1)) \<and> bp_closed p1"
  proof (cases "bp_task p")
    case True
    obtain q p1 w1 where j: "join (?p0, w) = Some (q, (p1, w1))"
      by (rule returnsE [OF assms(1)])
    have "bp_closed p1"
      by (rule assms(7) [OF j]) simp
    with True j show ?thesis
      by (cases q) (simp_all add: catchE_def ended_task_def on_processor_def)
  qed simp
  then obtain p1 w1 where joined: "?joined (?p0, w) = Some (Inr (), (p1, w1))" "bp_closed p1"
    by blast
  obtain q p2 w2 where lock: "acquire (p1, w1) = Some (q, (p2, w2))"
    by (rule returnsE [OF assms(2)])
  have exit: "processor_aexit join acquire ship (p, w) = flush acquire ship (p1, w1)"
    using joined(1) unfolding processor_aexit_def on_processor_def bindE_def by (simp only: prod.case option.case sum.case)
  obtain r p' w' where kinds: "flush_kinds ship queued_kinds (p2, w2) = Some (r, (p', w'))"
    using flush_kinds_returns [of ship queued_kinds "(p2, w2)", OF assms(3)] by auto
  show ?thesis
  proof (cases q)
    case (Inl e)
    with lock assms(5) [OF lock [unfolded Inl]] exit show ?thesis
      by (simp add: flush_def bindE_def)
  next
    case (Inr u)
    have run: "processor_aexit join acquire ship (p, w) = Some (r, (p', w'))"
      using exit lock kinds Inr by (simp add: flush_def bindE_def)
    show ?thesis
    proof (cases r)
      case (Inl e)
      with run flush_kinds_raises [OF kinds [unfolded Inl]] show ?thesis by simp
    next
      case (Inr v)
      from flush_kinds_drains [OF assms(4) assms(6) [OF lock joined(2)] kinds [unfolded Inr]] run Inr
      show ?thesis by (simp add: queued_kinds_def)
    qed
  qed
qed

lemma returns_returnE [simp]: "returns (returnE x)" and returns_raiseE [simp]: "returns (raiseE e)"
  by (simp_all add: returns_def)

lemma returns_awaited: "(\<And>kind batch. returns (ship kind batch)) \<Longrightarrow> returns (awaited others ship kind batch)"
  by (auto simp: returns_def awaited_def)

text \<open>
  A divergence from the documentation: when the final flush is cancelled during the first export,
  the records of the later signals stay queued in a closed processor. They never reach the
  collector, and \<^verbatim>\<open>dropped\<close> does not count them.
\<close>

theorem cancelled_shutdown_strands:
  "\<exists>p'. processor_aexit (returnE ()) (returnE ()) (awaited (\<lambda>_ _ p. p) (\<lambda>_ _. raiseE CancelledError))
       (set_queue LOGS [7] (set_queue METRICS [5] small_processor), ()) = Some (Inl CancelledError, (p', ())) \<and>
     bp_closed p' \<and> bp_dropped p' = 1 \<and> bp_queues p' LOGS = [7]"
proof -
  have small: "bp_dropped small_processor = 0" "\<not> bp_task small_processor"
    by (simp_all add: small_processor_def)
  show ?thesis
    by (simp add: processor_aexit_def on_processor_def bindE_def flush_def queued_kinds_def flush_kind_def
        awaited_def settle_def is_Exception_def Let_def small)
qed

end
