(* ===== verification/ProcessorTasks.thy ===== *)
theory ProcessorTasks
  imports Processor
begin

section \<open>The background task among the others\<close>

text \<open>
  \<^verbatim>\<open>_run\<close> of \<^verbatim>\<open>processor.py\<close> as one task of a system of tasks. The steps of \<open>Processor\<close> (submissions, the
  lock, flushes by other tasks) go on around it; the background task has a program counter: asleep
  on the \<^verbatim>\<open>_wake\<close> event, waiting for the lock, or flushing. It may be cancelled wherever it awaits.
\<close>

subsection \<open>The steps\<close>

datatype loop_pc = NotStarted | Asleep | Requesting | Flushing | Ended

record 'r tasks =
  ta_system :: "'r system"
  ta_loop :: loop_pc

abbreviation ta_processor :: "'r tasks \<Rightarrow> 'r processor" where
  "ta_processor t \<equiv> sy_processor (ta_system t)"

abbreviation ta_holder :: "'r tasks \<Rightarrow> 'r holder" where
  "ta_holder t \<equiv> sy_holder (ta_system t)"

definition on_tasks :: "('r processor \<Rightarrow> 'r processor) \<Rightarrow> 'r tasks \<Rightarrow> 'r tasks" where
  "on_tasks f t = t\<lparr>ta_system := (ta_system t)\<lparr>sy_processor := f (ta_processor t)\<rparr>\<rparr>"

text \<open>\<^verbatim>\<open>self._wake.clear(); self.flushed.clear()\<close>.\<close>

definition begin_round :: "'r processor \<Rightarrow> 'r processor" where
  "begin_round p = p\<lparr>bp_wake := False, bp_flushed := False\<rparr>"

text \<open>
  \<open>outside\<close> is any step of another task: while the background task holds the lock, these leave the
  holder alone. \<open>ships\<close> is a step of the background task's own flush, \<open>finishes\<close> its end, with
  \<^verbatim>\<open>self.flushed.set()\<close> and the return to the top of the loop, and \<open>cut_off\<close> its cancellation
  during an export.
\<close>

inductive task_step :: "'r tasks \<Rightarrow> 'r tasks \<Rightarrow> bool" where
  enters: "ta_loop t = NotStarted \<Longrightarrow> task_step t ((on_tasks processor_aenter t)\<lparr>ta_loop := Asleep\<rparr>)"
| outside: "system_step (ta_system t) s \<Longrightarrow> ta_loop t = Flushing \<Longrightarrow> sy_holder s = ta_holder t \<Longrightarrow>
    task_step t (t\<lparr>ta_system := s\<rparr>)"
| elsewhere: "system_step (ta_system t) s \<Longrightarrow> ta_loop t \<noteq> Flushing \<Longrightarrow> task_step t (t\<lparr>ta_system := s\<rparr>)"
| woken: "ta_loop t = Asleep \<Longrightarrow> bp_wake (ta_processor t) \<Longrightarrow>
    task_step t ((on_tasks begin_round t)\<lparr>ta_loop := Requesting\<rparr>)"
| interval: "ta_loop t = Asleep \<Longrightarrow> task_step t ((on_tasks begin_round t)\<lparr>ta_loop := Requesting\<rparr>)"
| acquires: "ta_loop t = Requesting \<Longrightarrow> ta_holder t = Nobody \<Longrightarrow>
    task_step t (t\<lparr>ta_system := (ta_system t)\<lparr>sy_holder := Draining queued_kinds\<rparr>, ta_loop := Flushing\<rparr>)"
| ships: "ta_loop t = Flushing \<Longrightarrow> system_step (ta_system t) s \<Longrightarrow> sy_holder s \<notin> {Nobody, ta_holder t} \<Longrightarrow>
    task_step t (t\<lparr>ta_system := s\<rparr>)"
| finishes: "ta_loop t = Flushing \<Longrightarrow> ta_holder t = Draining [] \<Longrightarrow>
    task_step t ((on_tasks (\<lambda>p. p\<lparr>bp_flushed := True\<rparr>)
      (t\<lparr>ta_system := (ta_system t)\<lparr>sy_holder := Nobody\<rparr>\<rparr>))\<lparr>ta_loop := Asleep\<rparr>)"
| cut_off: "ta_loop t = Flushing \<Longrightarrow> ta_holder t = Exporting kind batch kinds \<Longrightarrow>
    system_step (ta_system t) s \<Longrightarrow> sy_holder s = Nobody \<Longrightarrow>
    task_step t (t\<lparr>ta_system := s, ta_loop := Ended\<rparr>)"
| cancels: "ta_loop t = Asleep \<or> ta_loop t = Requesting \<Longrightarrow> task_step t (t\<lparr>ta_loop := Ended\<rparr>)"

definition tasks_reach :: "'r tasks \<Rightarrow> 'r tasks \<Rightarrow> bool" where
  "tasks_reach = task_step\<^sup>*\<^sup>*"

definition initial_tasks :: "'r processor \<Rightarrow> 'r tasks" where
  "initial_tasks p = \<lparr>ta_system = initial_system p, ta_loop = NotStarted\<rparr>"

lemma on_tasks_simps [simp]:
  "ta_processor (on_tasks f t) = f (ta_processor t)" "ta_holder (on_tasks f t) = ta_holder t"
  "sy_waiting (ta_system (on_tasks f t)) = sy_waiting (ta_system t)"
  "sy_partials (ta_system (on_tasks f t)) = sy_partials (ta_system t)"
  "ta_loop (on_tasks f t) = ta_loop t"
  by (simp_all add: on_tasks_def)

lemma begin_round_simps [simp]:
  "bp_queues (begin_round p) = bp_queues p" "bp_max_batch (begin_round p) = bp_max_batch p"
  "bp_max_queue (begin_round p) = bp_max_queue p" "\<not> bp_wake (begin_round p)" "\<not> bp_flushed (begin_round p)"
  "bp_submitted (begin_round p) = bp_submitted p" "bp_exported (begin_round p) = bp_exported p"
  "bp_dropped (begin_round p) = bp_dropped p"
  by (simp_all add: begin_round_def)

lemma aenter_simps [simp]:
  "bp_queues (processor_aenter p) = bp_queues p" "bp_max_batch (processor_aenter p) = bp_max_batch p"
  "bp_max_queue (processor_aenter p) = bp_max_queue p" "bp_wake (processor_aenter p) = bp_wake p"
  "bp_flushed (processor_aenter p) = bp_flushed p" "bp_submitted (processor_aenter p) = bp_submitted p"
  "bp_exported (processor_aenter p) = bp_exported p" "bp_dropped (processor_aenter p) = bp_dropped p"
  by (simp_all add: processor_aenter_def)

subsection \<open>Full batches\<close>

definition full_batch :: "'r processor \<Rightarrow> signal_kind \<Rightarrow> bool" where
  "full_batch p k \<longleftrightarrow> bp_max_batch p \<le> int (length (bp_queues p k))"

text \<open>The signals a flush has yet to drain.\<close>

definition to_drain :: "'r holder \<Rightarrow> signal_kind set" where
  "to_drain h = (case h of Nobody \<Rightarrow> {} | Draining kinds \<Rightarrow> set kinds | Exporting _ _ kinds \<Rightarrow> set kinds)"

text \<open>The signals whose queue the background task is on its way to.\<close>

definition on_its_way :: "'r tasks \<Rightarrow> signal_kind set" where
  "on_its_way t =
     (case ta_loop t of Requesting \<Rightarrow> set queued_kinds | Flushing \<Rightarrow> to_drain (ta_holder t) | _ \<Rightarrow> {})"

text \<open>
  A full batch has set the event, unless the background task is about to drain its queue anyway (or
  has ended); \<^verbatim>\<open>flushed\<close> is set only while no flush of the background task is under way.
\<close>

definition attended :: "'r tasks \<Rightarrow> bool" where
  "attended t \<longleftrightarrow> 0 < bp_max_batch (ta_processor t) \<and> balanced (ta_system t) \<and>
     (ta_loop t \<noteq> Ended \<longrightarrow>
       (\<forall>k. full_batch (ta_processor t) k \<longrightarrow> bp_wake (ta_processor t) \<or> k \<in> on_its_way t)) \<and>
     (bp_flushed (ta_processor t) \<longrightarrow> ta_loop t = Asleep \<or> ta_loop t = Ended) \<and>
     (ta_loop t = Flushing \<longrightarrow> ta_holder t \<noteq> Nobody)"

text \<open>What a step of the system does to the event, the flag and the batches.\<close>

lemma submit_wakes:
  assumes "full_batch (snd (submit kind records p)) k" and "bounded p"
  shows "bp_wake (snd (submit kind records p)) \<or> full_batch p k"
    and "bp_wake p \<Longrightarrow> bp_wake (snd (submit kind records p))"
proof -
  have bound: "length (bp_queues p kind) \<le> bp_max_queue p"
    using assms(2) by (simp add: bounded_def)
  show "bp_wake (snd (submit kind records p)) \<or> full_batch p k"
    using assms(1) submit_records_eq [OF bound, of records True]
    by (cases "k = kind") (auto simp: submit_def full_batch_def Let_def split: if_splits)
  show "bp_wake p \<Longrightarrow> bp_wake (snd (submit kind records p))"
    using submit_records_eq [OF bound, of records True]
    by (auto simp: submit_def Let_def split: if_splits)
qed

lemma settle_flags:
  assumes "settle k n r p = (q, p')"
  shows "bp_wake p' = bp_wake p" "bp_flushed p' = bp_flushed p" "bp_max_batch p' = bp_max_batch p"
  using assms by (auto simp: settle_def Let_def split: sum.splits option.splits if_splits prod.splits)

lemma other_step_flags:
  assumes "other_step p p'" and "bounded p"
  shows "bp_flushed p' = bp_flushed p" "bp_max_batch p' = bp_max_batch p" "bp_wake p \<Longrightarrow> bp_wake p'"
    and "full_batch p' k \<Longrightarrow> bp_wake p' \<or> full_batch p k"
proof -
  consider (submits) kind records where "p' = snd (submit kind records p)" | (closes) "p' = p\<lparr>bp_closed := True\<rparr>"
    using assms(1) by (cases rule: other_step.cases) auto
  then have "bp_flushed p' = bp_flushed p \<and> bp_max_batch p' = bp_max_batch p \<and> (bp_wake p \<longrightarrow> bp_wake p') \<and>
      (full_batch p' k \<longrightarrow> bp_wake p' \<or> full_batch p k)"
  proof cases
    case submits
    have "length (bp_queues p kind) \<le> bp_max_queue p"
      using assms(2) by (simp add: bounded_def)
    from submit_records_eq [OF this, of records True] submit_wakes [OF _ assms(2), of kind records] submits
    show ?thesis
      by (auto simp: submit_def Let_def)
  qed (simp add: full_batch_def)
  then show "bp_flushed p' = bp_flushed p" "bp_max_batch p' = bp_max_batch p" "bp_wake p \<Longrightarrow> bp_wake p'"
    "full_batch p' k \<Longrightarrow> bp_wake p' \<or> full_batch p k"
    by blast+
qed

lemma system_step_flags:
  assumes "system_step s s'" and "bounded (sy_processor s)" and "0 < bp_max_batch (sy_processor s)"
  shows "bp_flushed (sy_processor s') = bp_flushed (sy_processor s)"
    and "bp_max_batch (sy_processor s') = bp_max_batch (sy_processor s)"
    and "bp_wake (sy_processor s) \<Longrightarrow> bp_wake (sy_processor s')"
    and "full_batch (sy_processor s') k \<Longrightarrow> bp_wake (sy_processor s') \<or> full_batch (sy_processor s) k"
    and "sy_holder s' \<noteq> Nobody \<Longrightarrow> k \<in> to_drain (sy_holder s) \<Longrightarrow> full_batch (sy_processor s') k \<Longrightarrow>
      bp_wake (sy_processor s') \<or> k \<in> to_drain (sy_holder s')"
proof -
  have "bp_flushed (sy_processor s') = bp_flushed (sy_processor s) \<and>
      bp_max_batch (sy_processor s') = bp_max_batch (sy_processor s) \<and>
      (bp_wake (sy_processor s) \<longrightarrow> bp_wake (sy_processor s')) \<and>
      (full_batch (sy_processor s') k \<longrightarrow> bp_wake (sy_processor s') \<or> full_batch (sy_processor s) k) \<and>
      (sy_holder s' \<noteq> Nobody \<longrightarrow> k \<in> to_drain (sy_holder s) \<longrightarrow> full_batch (sy_processor s') k \<longrightarrow>
        bp_wake (sy_processor s') \<or> k \<in> to_drain (sy_holder s'))"
    using assms(1)
  proof (cases rule: system_step.cases)
    case (other p)
    with other_step_flags [OF other(2) assms(2)] show ?thesis by simp
  next
    case (skip kind kinds)
    with assms(3) show ?thesis by (auto simp: full_batch_def to_drain_def)
  next
    case (drain kind kinds batch)
    with assms(3) show ?thesis by (auto simp: full_batch_def to_drain_def)
  next
    case (settled kind batch kinds r u p)
    with settle_flags [OF settled(3)] settled_keeps(1) [OF settled(3)] show ?thesis
      by (auto simp: full_batch_def to_drain_def)
  next
    case (cancelled kind batch kinds r e p)
    with settle_flags [OF cancelled(3)] settled_keeps(1) [OF cancelled(3)] show ?thesis
      by (auto simp: full_batch_def to_drain_def)
  qed (auto simp: full_batch_def to_drain_def)
  then show "bp_flushed (sy_processor s') = bp_flushed (sy_processor s)"
    "bp_max_batch (sy_processor s') = bp_max_batch (sy_processor s)"
    "bp_wake (sy_processor s) \<Longrightarrow> bp_wake (sy_processor s')"
    "full_batch (sy_processor s') k \<Longrightarrow> bp_wake (sy_processor s') \<or> full_batch (sy_processor s) k"
    "sy_holder s' \<noteq> Nobody \<Longrightarrow> k \<in> to_drain (sy_holder s) \<Longrightarrow> full_batch (sy_processor s') k \<Longrightarrow>
      bp_wake (sy_processor s') \<or> k \<in> to_drain (sy_holder s')"
    by blast+
qed

subsection \<open>The invariant\<close>

lemma balanced_bounded: "balanced s \<Longrightarrow> bounded (sy_processor s)"
  by (simp add: balanced_def)

lemma full_batch_queued: "balanced s \<Longrightarrow> 0 < bp_max_batch (sy_processor s) \<Longrightarrow> full_batch (sy_processor s) k \<Longrightarrow>
    k \<in> set queued_kinds"
  by (cases k) (auto simp: balanced_def bounded_def full_batch_def queued_kinds_def)

lemma balanced_cong:
  assumes "balanced s" and "bp_queues p = bp_queues (sy_processor s)" "bp_max_queue p = bp_max_queue (sy_processor s)"
    "bp_submitted p = bp_submitted (sy_processor s)" "bp_exported p = bp_exported (sy_processor s)"
    "bp_dropped p = bp_dropped (sy_processor s)" "in_flight h = in_flight (sy_holder s)"
  shows "balanced (s\<lparr>sy_processor := p, sy_holder := h\<rparr>)"
  using assms by (simp add: balanced_def bounded_def queued_def)

lemma attended_step:
  assumes "task_step t t'" and "attended t"
  shows "attended t'"
  using assms(1)
proof (cases rule: task_step.cases)
  case enters
  then show ?thesis
    using assms(2) balanced_cong [of "ta_system t" "processor_aenter (ta_processor t)" "ta_holder t"]
    by (auto simp: attended_def on_tasks_def full_batch_def on_its_way_def)
next
  case (outside s)
  have inv: "balanced (ta_system t)" "0 < bp_max_batch (ta_processor t)"
    using assms(2) by (simp_all add: attended_def)
  note flags = system_step_flags [OF outside(2) balanced_bounded [OF inv(1)] inv(2)]
  show ?thesis
    using assms(2) outside flags(1-3) flags(4) balanced_step [OF outside(2) inv(1)]
    by (fastforce simp: attended_def on_its_way_def)
next
  case (elsewhere s)
  have inv: "balanced (ta_system t)" "0 < bp_max_batch (ta_processor t)"
    using assms(2) by (simp_all add: attended_def)
  note flags = system_step_flags [OF elsewhere(2) balanced_bounded [OF inv(1)] inv(2)]
  show ?thesis
    using assms(2) elsewhere flags(1-3) flags(4) balanced_step [OF elsewhere(2) inv(1)]
    by (cases "ta_loop t") (fastforce simp: attended_def on_its_way_def)+
next
  case (ships s)
  have inv: "balanced (ta_system t)" "0 < bp_max_batch (ta_processor t)"
    using assms(2) by (simp_all add: attended_def)
  note flags = system_step_flags [OF ships(3) balanced_bounded [OF inv(1)] inv(2)]
  show ?thesis
    using assms(2) ships flags(1-3) flags(4,5) balanced_step [OF ships(3) inv(1)]
    by (simp add: attended_def on_its_way_def) blast
next
  case (cut_off kind batch kinds s)
  have inv: "balanced (ta_system t)" "0 < bp_max_batch (ta_processor t)"
    using assms(2) by (simp_all add: attended_def)
  note flags = system_step_flags [OF cut_off(4) balanced_bounded [OF inv(1)] inv(2)]
  show ?thesis
    using assms(2) cut_off flags(1-3) balanced_step [OF cut_off(4) inv(1)]
    by (simp add: attended_def)
next
  case finishes
  then have "balanced ((ta_system t)\<lparr>sy_holder := Nobody, sy_processor := (ta_processor t)\<lparr>bp_flushed := True\<rparr>\<rparr>)"
    using assms(2) by (simp add: attended_def balanced_def bounded_def queued_def in_flight_def)
  with finishes show ?thesis
    using assms(2) by (simp add: attended_def on_tasks_def full_batch_def on_its_way_def to_drain_def)
next
  case acquires
  then show ?thesis
    using assms(2) balanced_cong [of "ta_system t" "ta_processor t" "Draining queued_kinds"]
    by (simp add: attended_def on_its_way_def to_drain_def in_flight_def)
qed (use assms(2) balanced_cong [of "ta_system t" "begin_round (ta_processor t)" "ta_holder t"] full_batch_queued [of "ta_system t"]
    in \<open>auto simp: attended_def on_tasks_def on_its_way_def full_batch_def\<close>)

lemma attended_reaches: "tasks_reach t t' \<Longrightarrow> attended t \<Longrightarrow> attended t'"
  unfolding tasks_reach_def by (induction rule: rtranclp_induct) (auto intro: attended_step)

lemma init_attended:
  assumes "processor_init max_batch max_queue = Inr p" and "0 < max_batch"
  shows "attended (initial_tasks p)"
  using assms init_balanced [OF assms(1)]
  by (auto simp: attended_def initial_tasks_def initial_system_def processor_init_def full_batch_def split: if_splits)

lemma max_batch_step:
  assumes "task_step t t'" and "attended t"
  shows "bp_max_batch (ta_processor t') = bp_max_batch (ta_processor t)"
proof -
  have inv: "bounded (ta_processor t)" "0 < bp_max_batch (ta_processor t)"
    using assms(2) by (simp_all add: attended_def balanced_def)
  show ?thesis
    using assms(1)
    by (cases rule: task_step.cases) (auto simp: on_tasks_def system_step_flags(2) [OF _ inv])
qed

lemma max_batch_reaches:
  "tasks_reach t t' \<Longrightarrow> attended t \<Longrightarrow> bp_max_batch (ta_processor t') = bp_max_batch (ta_processor t)"
  unfolding tasks_reach_def
  by (induction rule: rtranclp_induct)
    (simp_all add: max_batch_step attended_reaches [unfolded tasks_reach_def])

subsection \<open>No wake-up is lost\<close>

text \<open>
  C8. No wake-up is lost, whatever runs when: as long as the background task is asleep, or has not
  started, a queue that holds a full batch has set the event it waits for, also when the records
  came behind the back of a flush that had already drained that queue, or while another task was
  flushing. Otherwise, until it ends, that queue is one it is on its way to drain. And \<^verbatim>\<open>flushed\<close> is
  never set while its flush is under way.
\<close>

theorem no_lost_wakeup:
  assumes "processor_init max_batch max_queue = Inr p" and "0 < max_batch"
    and "tasks_reach (initial_tasks p) t" and "max_batch \<le> int (length (bp_queues (ta_processor t) k))"
  shows "(ta_loop t \<in> {NotStarted, Asleep} \<longrightarrow> bp_wake (ta_processor t)) \<and>
    (ta_loop t \<noteq> Ended \<longrightarrow> bp_wake (ta_processor t) \<or> k \<in> on_its_way t) \<and>
    (bp_flushed (ta_processor t) \<longrightarrow> ta_loop t \<in> {Asleep, Ended})"
proof -
  have "attended t"
    using attended_reaches [OF assms(3) init_attended [OF assms(1,2)]] .
  moreover have "bp_max_batch (ta_processor t) = max_batch"
    using max_batch_reaches [OF assms(3) init_attended [OF assms(1,2)]] assms(1)
    by (auto simp: initial_tasks_def initial_system_def processor_init_def split: if_splits)
  ultimately show ?thesis
    using assms(4) by (auto simp: attended_def full_batch_def on_its_way_def)
qed

text \<open>States written out, and the steps between them.\<close>

definition tasks_at ::
  "nat \<Rightarrow> (nat \<times> int) list \<Rightarrow> 'r processor \<Rightarrow> 'r holder \<Rightarrow> loop_pc \<Rightarrow> 'r tasks" where
  "tasks_at n g p h l = \<lparr>ta_system = \<lparr>sy_processor = p, sy_holder = h, sy_waiting = n, sy_partials = g\<rparr>, ta_loop = l\<rparr>"

lemma tasks_at_steps:
  "task_step (tasks_at n g p h NotStarted) (tasks_at n g (processor_aenter p) h Asleep)"
  "kind \<in> set queued_kinds \<Longrightarrow> task_step (tasks_at n g p h l) (tasks_at n g (snd (submit kind records p)) h l)"
  "task_step (tasks_at n g p h Asleep) (tasks_at n g (begin_round p) h Requesting)"
  "task_step (tasks_at n g p Nobody Requesting) (tasks_at n g p (Draining queued_kinds) Flushing)"
  "bp_queues p kind = [] \<Longrightarrow> task_step (tasks_at n g p (Draining (kind # kinds)) Flushing) (tasks_at n g p (Draining kinds) Flushing)"
  "bp_queues p kind = batch \<Longrightarrow> batch \<noteq> [] \<Longrightarrow> task_step (tasks_at n g p (Draining (kind # kinds)) Flushing)
    (tasks_at n g (set_queue kind [] p) (Exporting kind batch kinds) Flushing)"
proof -
  show "task_step (tasks_at n g p h NotStarted) (tasks_at n g (processor_aenter p) h Asleep)"
    using task_step.enters [of "tasks_at n g p h NotStarted"] by (simp add: tasks_at_def on_tasks_def)
  show "task_step (tasks_at n g p h Asleep) (tasks_at n g (begin_round p) h Requesting)"
    using task_step.interval [of "tasks_at n g p h Asleep"] by (simp add: tasks_at_def on_tasks_def)
  show "task_step (tasks_at n g p Nobody Requesting) (tasks_at n g p (Draining queued_kinds) Flushing)"
    using task_step.acquires [of "tasks_at n g p Nobody Requesting"] by (simp add: tasks_at_def)
  show "task_step (tasks_at n g p h l) (tasks_at n g (snd (submit kind records p)) h l)" if "kind \<in> set queued_kinds"
  proof -
    let ?s = "ta_system (tasks_at n g p h l)" and ?p = "snd (submit kind records p)"
    have "system_step ?s (?s\<lparr>sy_processor := ?p\<rparr>)"
      by (rule system_step.other) (simp add: tasks_at_def other_step.submits [OF that])
    from task_step.outside [OF this] task_step.elsewhere [OF this] show ?thesis
      by (cases "l = Flushing") (simp_all add: tasks_at_def)
  qed
  show "task_step (tasks_at n g p (Draining (kind # kinds)) Flushing) (tasks_at n g p (Draining kinds) Flushing)"
    if "bp_queues p kind = []"
    using task_step.ships [OF _ system_step.skip, of "tasks_at n g p (Draining (kind # kinds)) Flushing"] that
    by (simp add: tasks_at_def)
  show "task_step (tasks_at n g p (Draining (kind # kinds)) Flushing)
    (tasks_at n g (set_queue kind [] p) (Exporting kind batch kinds) Flushing)"
    if "bp_queues p kind = batch" "batch \<noteq> []"
    using task_step.ships [OF _ system_step.drain, of "tasks_at n g p (Draining (kind # kinds)) Flushing"] that
    by (simp add: tasks_at_def)
qed

lemma tasks_reach_step: "task_step s t \<Longrightarrow> tasks_reach r s \<Longrightarrow> tasks_reach r t"
  unfolding tasks_reach_def by simp

text \<open>Two metrics arrive while the flush, past the metrics, exports a log record.\<close>

lemma no_lost_wakeup_witness:
  "\<exists>t. tasks_reach (initial_tasks small_processor) t \<and> ta_holder t = Exporting LOGS [5] [TRACES] \<and>
     bp_queues (ta_processor t) METRICS = [6, 7] \<and> bp_wake (ta_processor t)"
proof -
  let ?p1 = "snd (submit LOGS [5] (processor_aenter small_processor))"
  let ?p2 = "set_queue LOGS [] (begin_round ?p1)"
  let ?p3 = "snd (submit METRICS [6, 7] ?p2)"
  have p1: "bp_queues ?p1 = (\<lambda>_. [])(LOGS := [5])" "bp_max_queue ?p1 = 2" "\<not> bp_closed ?p1"
    by (simp_all add: submit_def Let_def small_processor_def processor_aenter_def queued_kinds_def deque_append_def)
  then have p3: "bp_queues ?p3 METRICS = [6, 7]"
    by (simp add: submit_def Let_def queued_kinds_def deque_append_def begin_round_def set_queue_def)
  let ?t = "tasks_at 0 [] ?p3 (Exporting LOGS [5] [TRACES]) Flushing"
  have "tasks_reach (initial_tasks small_processor) (tasks_at 0 [] small_processor Nobody NotStarted)"
    by (simp add: tasks_reach_def initial_tasks_def initial_system_def tasks_at_def)
  note reach = tasks_reach_step [OF _ this]
  have kinds: "LOGS \<in> set queued_kinds" "METRICS \<in> set queued_kinds"
    by (simp_all add: queued_kinds_def)
  note r1 = reach [OF tasks_at_steps(1)]
  note r2 = tasks_reach_step [OF tasks_at_steps(2) [OF kinds(1)] r1]
  note r3 = tasks_reach_step [OF tasks_at_steps(3) r2]
  note r4 = tasks_reach_step [OF tasks_at_steps(4) r3, unfolded queued_kinds_def]
  have "bp_queues (begin_round ?p1) METRICS = []" "bp_queues (begin_round ?p1) LOGS = [5]"
    by (simp_all add: p1)
  note r5 = tasks_reach_step [OF tasks_at_steps(5) [OF this(1)] r4] and drain = tasks_at_steps(6) [OF this(2)]
  have run: "tasks_reach (initial_tasks small_processor) ?t"
    by (rule tasks_reach_step [OF tasks_at_steps(2) [OF kinds(2)] tasks_reach_step [OF drain]])
      (simp, rule r5)
  have "ta_processor ?t = ?p3" "ta_holder ?t = Exporting LOGS [5] [TRACES]" "ta_loop ?t = Flushing"
    by (simp_all add: tasks_at_def)
  with no_lost_wakeup [OF small_processor_init _ run, of METRICS] run p3 show ?thesis
    by (intro exI [of _ ?t]) (simp add: on_its_way_def to_drain_def)
qed

subsection \<open>A turn of the loop is a run of the background task\<close>

lemma tasks_at_flush_steps:
  "settle kind (length batch) r p = (Inr u, p') \<Longrightarrow> task_step (tasks_at n g p (Exporting kind batch kinds) Flushing)
    (tasks_at n (g @ partials_of (length batch) r) p' (Draining kinds) Flushing)"
  "settle kind (length batch) r p = (Inl e, p') \<Longrightarrow> task_step (tasks_at n g p (Exporting kind batch kinds) Flushing)
    (tasks_at n g p' Nobody Ended)"
  "task_step (tasks_at n g p (Draining []) Flushing) (tasks_at n g (p\<lparr>bp_flushed := True\<rparr>) Nobody Asleep)"
  "l = Asleep \<or> l = Requesting \<Longrightarrow> task_step (tasks_at n g p h l) (tasks_at n g p h Ended)"
proof -
  let ?t = "tasks_at n g p (Exporting kind batch kinds) Flushing"
  show "task_step ?t (tasks_at n (g @ partials_of (length batch) r) p' (Draining kinds) Flushing)"
    if "settle kind (length batch) r p = (Inr u, p')"
    using task_step.ships [OF _ system_step.settled, of ?t] that by (simp add: tasks_at_def)
  show "task_step ?t (tasks_at n g p' Nobody Ended)" if "settle kind (length batch) r p = (Inl e, p')"
    using task_step.cut_off [OF _ _ system_step.cancelled, of ?t] that by (simp add: tasks_at_def)
  show "task_step (tasks_at n g p (Draining []) Flushing) (tasks_at n g (p\<lparr>bp_flushed := True\<rparr>) Nobody Asleep)"
    using task_step.finishes [of "tasks_at n g p (Draining []) Flushing"] by (simp add: tasks_at_def on_tasks_def)
  show "task_step (tasks_at n g p h l) (tasks_at n g p h Ended)" if "l = Asleep \<or> l = Requesting"
    using task_step.cancels [of "tasks_at n g p h l"] that by (simp add: tasks_at_def)
qed

lemma tasks_reach_trans: "tasks_reach r s \<Longrightarrow> tasks_reach s t \<Longrightarrow> tasks_reach r t"
  unfolding tasks_reach_def by (rule rtranclp_trans)

lemma tasks_reach_system:
  "system_reaches s s' \<Longrightarrow> l \<noteq> Flushing \<Longrightarrow> tasks_reach \<lparr>ta_system = s, ta_loop = l\<rparr> \<lparr>ta_system = s', ta_loop = l\<rparr>"
  unfolding system_reaches_def
proof (induction rule: rtranclp_induct)
  case (step y z)
  with task_step.elsewhere [of "\<lparr>ta_system = y, ta_loop = l\<rparr>" z] show ?case
    by (auto intro: tasks_reach_step)
qed (simp add: tasks_reach_def)

lemma tasks_reach_others:
  "other_steps p p' \<Longrightarrow> tasks_reach (tasks_at n g p h Flushing) (tasks_at n g p' h Flushing)"
  unfolding other_steps_def
proof (induction rule: rtranclp_induct)
  case (step y z)
  let ?s = "ta_system (tasks_at n g y h Flushing)"
  have "system_step ?s (?s\<lparr>sy_processor := z\<rparr>)"
    by (rule system_step.other) (simp add: tasks_at_def step.hyps(2))
  from task_step.outside [OF this] have "task_step (tasks_at n g y h Flushing) (tasks_at n g z h Flushing)"
    by (simp add: tasks_at_def)
  with step.IH show ?case
    by (auto intro: tasks_reach_step)
qed (simp add: tasks_reach_def)

text \<open>Where the background task stands after a flush, or a part of it.\<close>

definition after_flush :: "unit res \<Rightarrow> nat \<Rightarrow> (nat \<times> int) list \<Rightarrow> 'r processor \<Rightarrow> signal_kind list \<Rightarrow> 'r tasks" where
  "after_flush q n g p kinds =
     (case q of Inr _ \<Rightarrow> tasks_at n g p (Draining kinds) Flushing | Inl _ \<Rightarrow> tasks_at n g p Nobody Ended)"

lemma flush_kind_tasks:
  assumes "interleaves ship" and "flush_kind ship kind (p, w) = Some (q, (p', w'))"
  shows "\<exists>g'. tasks_reach (tasks_at n g p (Draining (kind # kinds)) Flushing) (after_flush q n g' p' kinds)"
  using assms(2)
proof (cases rule: flush_kind_cases)
  case empty
  then show ?thesis
    using tasks_at_steps(5) [of p kind n g kinds]
    by (auto simp: after_flush_def set_queue_empty tasks_reach_def)
next
  case (exported batch r p2)
  have "other_steps (set_queue kind [] p) p2"
    using assms(1) exported(3) unfolding interleaves_def by blast
  from tasks_reach_others [OF this] tasks_at_steps(6) [OF exported(1,2)]
  have exporting: "tasks_reach (tasks_at n g p (Draining (kind # kinds)) Flushing)
      (tasks_at n g p2 (Exporting kind batch kinds) Flushing)"
    unfolding tasks_reach_def by (rule converse_rtranclp_into_rtranclp [rotated])
  show ?thesis
  proof (cases q)
    case (Inl e)
    with tasks_reach_step [OF tasks_at_flush_steps(2) exporting] exported(4) show ?thesis
      by (auto simp: after_flush_def)
  next
    case (Inr u)
    with tasks_reach_step [OF tasks_at_flush_steps(1) exporting] exported(4) show ?thesis
      by (auto simp: after_flush_def)
  qed
qed

lemma flush_kinds_tasks:
  assumes "interleaves ship"
  shows "flush_kinds ship kinds (p, w) = Some (q, (p', w')) \<Longrightarrow>
    \<exists>g'. tasks_reach (tasks_at n g p (Draining kinds) Flushing) (after_flush q n g' p' [])"
proof (induction kinds arbitrary: p w g)
  case Nil
  then show ?case
    by (auto simp: after_flush_def tasks_reach_def)
next
  case (Cons kind kinds)
  obtain q1 p1 w1 where first: "flush_kind ship kind (p, w) = Some (q1, (p1, w1))"
    using Cons.prems by (auto simp: bindE_Some_iff)
  obtain g1 where run: "tasks_reach (tasks_at n g p (Draining (kind # kinds)) Flushing) (after_flush q1 n g1 p1 kinds)"
    using flush_kind_tasks [OF assms first] by blast
  show ?case
  proof (cases q1)
    case (Inl e)
    with Cons.prems first run show ?thesis
      by (auto simp: bindE_def after_flush_def)
  next
    case (Inr u)
    then have "flush_kinds ship kinds (p1, w1) = Some (q, (p', w'))"
      using Cons.prems first by (simp add: bindE_def)
    from Cons.IH [OF this, of g1] run Inr show ?thesis
      by (auto simp: after_flush_def intro: tasks_reach_trans)
  qed
qed

text \<open>
  What goes on while the background task awaits the event or the lock: other tasks take steps.
  \<open>hold\<close> tells which of them holds the lock in a world.
\<close>

definition runs_beside :: "('w \<Rightarrow> 'r holder) \<Rightarrow> ('r processor \<times> 'w, unit) io \<Rightarrow> bool" where
  "runs_beside hold m \<longleftrightarrow>
     (\<forall>p w r p' w' n g. m (p, w) = Some (r, (p', w')) \<longrightarrow>
       (\<exists>n' g'. system_reaches
         \<lparr>sy_processor = p, sy_holder = hold w, sy_waiting = n, sy_partials = g\<rparr>
         \<lparr>sy_processor = p', sy_holder = hold w', sy_waiting = n', sy_partials = g'\<rparr>))"

lemma runs_beside_tasks:
  assumes "runs_beside hold m" and "m (p, w) = Some (r, (p', w'))" and "l \<noteq> Flushing"
  shows "\<exists>n' g'. tasks_reach (tasks_at n g p (hold w) l) (tasks_at n' g' p' (hold w') l)"
  using assms(1,2) tasks_reach_system [OF _ assms(3)]
  unfolding runs_beside_def tasks_at_def by blast

lemma cancelled_beside:
  assumes "runs_beside hold m" and "m (p, w) = Some (r, (p', w'))" and "l = Asleep \<or> l = Requesting"
  shows "\<exists>n' g' h'. tasks_reach (tasks_at n g p (hold w) l) (tasks_at n' g' p' h' Ended)"
proof -
  obtain n' g' where "tasks_reach (tasks_at n g p (hold w) l) (tasks_at n' g' p' (hold w') l)"
    using runs_beside_tasks [OF assms(1,2), of l] assms(3) by blast
  from tasks_reach_step [OF tasks_at_flush_steps(4) [OF assms(3)] this] show ?thesis
    by blast
qed

lemma flush_cases:
  assumes "flush acquire ship (p, w) = Some (q, (p', w'))"
    and "\<And>s e s'. acquire s = Some (Inl e, s') \<Longrightarrow> e = CancelledError"
  obtains (unlocked) "acquire (p, w) = Some (Inl CancelledError, (p', w'))" "q = Inl CancelledError"
  | (locked) p1 w1 where "acquire (p, w) = Some (Inr (), (p1, w1))"
      "flush_kinds ship queued_kinds (p1, w1) = Some (q, (p', w'))"
proof -
  obtain a p1 w1 where a: "acquire (p, w) = Some (a, (p1, w1))"
    using assms(1) by (auto simp: flush_def bindE_Some_iff)
  show thesis
  proof (cases a)
    case (Inl e)
    with a assms show thesis
      by (intro unlocked) (auto simp: flush_def bindE_def)
  next
    case (Inr u)
    with a assms(1) show thesis
      by (intro locked) (auto simp: flush_def bindE_def)
  qed
qed

lemma flush_tasks:
  assumes "runs_beside hold acquire" and "interleaves ship"
    and "\<And>s e s'. acquire s = Some (Inl e, s') \<Longrightarrow> e = CancelledError"
    and "\<And>s p' w'. acquire s = Some (Inr (), (p', w')) \<Longrightarrow> hold w' = Nobody"
    and "flush acquire ship (p, w) = Some (q, (p', w'))"
  shows "\<exists>n' g' h'. tasks_reach (tasks_at n g p (hold w) Requesting)
    (case q of Inr _ \<Rightarrow> tasks_at n' g' p' (Draining []) Flushing | Inl _ \<Rightarrow> tasks_at n' g' p' h' Ended)"
proof (rule flush_cases [OF assms(5,3)], assumption)
  assume unlocked: "acquire (p, w) = Some (Inl CancelledError, (p', w'))" "q = Inl CancelledError"
  with cancelled_beside [OF assms(1) unlocked(1), of Requesting n g] show ?thesis
    by simp
next
  fix p1 w1
  assume locked: "acquire (p, w) = Some (Inr (), (p1, w1))"
    "flush_kinds ship queued_kinds (p1, w1) = Some (q, (p', w'))"
  obtain n1 g1 where wait: "tasks_reach (tasks_at n g p (hold w) Requesting) (tasks_at n1 g1 p1 Nobody Requesting)"
    using runs_beside_tasks [OF assms(1) locked(1), of Requesting n g] assms(4) [OF locked(1)] by auto
  obtain g2 where "tasks_reach (tasks_at n1 g1 p1 (Draining queued_kinds) Flushing) (after_flush q n1 g2 p' [])"
    using flush_kinds_tasks [OF assms(2) locked(2)] by blast
  from tasks_reach_trans [OF tasks_reach_step [OF tasks_at_steps(4) wait] this] show ?thesis
    by (cases q) (auto simp: after_flush_def)
qed

lemma run_turn_cases:
  assumes "run_turn wait acquire ship (p, w) = Some (r, (p', w'))"
    and lock: "\<And>s e s'. acquire s = Some (Inl e, s') \<Longrightarrow> e = CancelledError"
    and wake: "\<And>s e s'. wait s = Some (Inl e, s') \<Longrightarrow> e = CancelledError \<or> (\<exists>m. e = TimeoutError m)"
  obtains (cancelled) "wait (p, w) = Some (Inl CancelledError, (p', w'))" "r = Inl CancelledError"
  | (slept) q p1 w1 f p2 where "wait (p, w) = Some (q, (p1, w1))"
      "flush acquire ship (begin_round p1, w1) = Some (f, (p2, w'))"
      "f = Inl CancelledError \<and> p' = p2 \<and> r = f \<or> f = Inr () \<and> p' = p2\<lparr>bp_flushed := True\<rparr> \<and> r = Inr ()"
proof -
  obtain q p1 w1 where q: "wait (p, w) = Some (q, (p1, w1))"
    using assms(1) by (auto simp: run_turn_def bindE_Some_iff catchE_Some_iff)
  show thesis
  proof (cases "q = Inl CancelledError")
    case True
    with q assms(1) show thesis
      by (intro cancelled) (auto simp: run_turn_def bindE_def catchE_def)
  next
    case False
    have rest: "bindE (flush_guarded acquire ship) (\<lambda>_. on_processor (\<lambda>p. p\<lparr>bp_flushed := True\<rparr>)) (begin_round p1, w1) =
        Some (r, (p', w'))"
      using assms(1) q False wake [of "(p, w)"]
      by (cases q) (auto simp: run_turn_def bindE_def catchE_def on_processor_def begin_round_def)
    then obtain f p2 w2 where f: "flush acquire ship (begin_round p1, w1) = Some (f, (p2, w2))"
      by (auto simp: bindE_Some_iff flush_guarded_def catchE_Some_iff)
    have "f = Inr () \<or> f = Inl CancelledError"
    proof (cases f)
      case (Inl e)
      have "e = CancelledError"
        by (rule flush_raises [OF _ f [unfolded Inl]]) (rule lock)
      with Inl show ?thesis by simp
    qed simp
    then show thesis
    proof
      assume "f = Inr ()"
      with rest f show thesis
        by (intro slept [OF q, of f p2]) (auto simp: bindE_def flush_guarded_def catchE_def on_processor_def)
    next
      assume "f = Inl CancelledError"
      with rest f show thesis
        by (intro slept [OF q, of f p2]) (auto simp: bindE_def flush_guarded_def catchE_def is_Exception_def)
    qed
  qed
qed

text \<open>
  C16. The function \<open>run_turn\<close> refines the background task of the step system: from asleep, with another
  task holding the lock or none, a turn that returns is a run back to asleep, and one that is
  cancelled a run to the end of the task, with the same processor. So what holds in every reachable
  state, as that no wake-up is lost, holds after every turn of the loop.
\<close>

theorem turn_refines_tasks:
  assumes "runs_beside hold wait" and "runs_beside hold acquire" and "interleaves ship"
    and lock: "\<And>s e s'. acquire s = Some (Inl e, s') \<Longrightarrow> e = CancelledError"
      "\<And>s p' w'. acquire s = Some (Inr (), (p', w')) \<Longrightarrow> hold w' = Nobody"
    and wake: "\<And>s e s'. wait s = Some (Inl e, s') \<Longrightarrow> e = CancelledError \<or> (\<exists>m. e = TimeoutError m)"
    and run: "run_turn wait acquire ship (p, w) = Some (r, (p', w'))"
  shows "\<exists>n' g' h'. tasks_reach (tasks_at n g p (hold w) Asleep)
    (tasks_at n' g' p' h' (case r of Inr _ \<Rightarrow> Asleep | Inl _ \<Rightarrow> Ended))"
proof (rule run_turn_cases [OF run lock(1) wake], assumption, assumption)
  assume cancelled: "wait (p, w) = Some (Inl CancelledError, (p', w'))" "r = Inl CancelledError"
  with cancelled_beside [OF assms(1) cancelled(1), of Asleep n g] show ?thesis
    by simp
next
  fix q p1 w1 f p2
  assume slept: "wait (p, w) = Some (q, (p1, w1))" "flush acquire ship (begin_round p1, w1) = Some (f, (p2, w'))"
    and ends: "f = Inl CancelledError \<and> p' = p2 \<and> r = f \<or> f = Inr () \<and> p' = p2\<lparr>bp_flushed := True\<rparr> \<and> r = Inr ()"
  obtain n1 g1 where "tasks_reach (tasks_at n g p (hold w) Asleep) (tasks_at n1 g1 p1 (hold w1) Asleep)"
    using runs_beside_tasks [OF assms(1) slept(1), of Asleep n g] by blast
  note asked = tasks_reach_step [OF tasks_at_steps(3) this]
  have "\<exists>n2 g2 h2. tasks_reach (tasks_at n1 g1 (begin_round p1) (hold w1) Requesting)
      (case f of Inr _ \<Rightarrow> tasks_at n2 g2 p2 (Draining []) Flushing | Inl _ \<Rightarrow> tasks_at n2 g2 p2 h2 Ended)"
    by (rule flush_tasks [OF assms(2,3) _ _ slept(2)]) (erule lock)+
  then obtain n2 g2 h2 where "tasks_reach (tasks_at n1 g1 (begin_round p1) (hold w1) Requesting)
      (case f of Inr _ \<Rightarrow> tasks_at n2 g2 p2 (Draining []) Flushing | Inl _ \<Rightarrow> tasks_at n2 g2 p2 h2 Ended)"
    by blast
  note flushed = tasks_reach_trans [OF asked this]
  show ?thesis
  proof (cases f)
    case (Inl e)
    with flushed ends show ?thesis by auto
  next
    case (Inr u)
    with flushed tasks_reach_step [OF tasks_at_flush_steps(3), of _ n2 g2 p2] ends show ?thesis by auto
  qed
qed

lemma runs_beside_returnE [simp]: "runs_beside hold (returnE ())"
  by (auto simp: runs_beside_def system_reaches_def)

lemma turn_refines_tasks_witness:
  "\<exists>p' n' g' h'. run_turn (returnE ()) (returnE ()) (awaited (\<lambda>_ _ p. p) failing_export)
       (set_queue LOGS [5] small_processor, ()) = Some (Inr (), (p', ())) \<and> bp_flushed p' \<and>
     tasks_reach (tasks_at 0 [] (set_queue LOGS [5] small_processor) Nobody Asleep) (tasks_at n' g' p' h' Asleep)"
proof -
  let ?ship = "awaited (\<lambda>_ _ p. p) failing_export" and ?p = "set_queue LOGS [5] small_processor"
  have "\<exists>p'. run_turn (returnE ()) (returnE ()) ?ship (?p, ()) = Some (Inr (), (p', ())) \<and> bp_flushed p'"
    by (simp add: run_turn_def flush_guarded_def flush_def queued_kinds_def flush_kind_def awaited_def
        failing_export_def settle_def Let_def bindE_def catchE_def is_Exception_def on_processor_def
        small_processor_def)
  then obtain p' where run: "run_turn (returnE ()) (returnE ()) ?ship (?p, ()) = Some (Inr (), (p', ()))"
    "bp_flushed p'"
    by blast
  have "interleaves ?ship"
    by (rule awaited_interleaves) (simp add: other_steps_def)
  from turn_refines_tasks [where hold = "\<lambda>_. Nobody", OF _ _ this _ _ _ run(1), of 0 "[]"] run
  show ?thesis by auto
qed

end
