(* ===== verification/BasicUsage.thy ===== *)
theory BasicUsage
  imports Client
begin

section \<open>The example application\<close>

text \<open>
  \<^verbatim>\<open>src/examples/basic_usage.py\<close>: a configuration from the environment, a session, a client on it, one
  export per signal with its outcome printed, and the release of client and session on every path.
  The clock, the session and \<^verbatim>\<open>print\<close> are the fields of \<open>example_env\<close>.
\<close>

subsection \<open>Control flow\<close>

text \<open>
  \<^verbatim>\<open>try ... finally\<close>, and \<^verbatim>\<open>async with\<close> for a manager whose exit only closes: the clean-up runs
  whatever the body does, and an exception of its own replaces the body's result.
\<close>

definition finallyE :: "('w, 'a) io \<Rightarrow> ('w, unit) io \<Rightarrow> ('w, 'a) io" where
  "finallyE m cleanup w =
     (case m w of
        None \<Rightarrow> None
      | Some (r, w1) \<Rightarrow>
          (case cleanup w1 of
             None \<Rightarrow> None
           | Some (Inl e, w2) \<Rightarrow> Some (Inl e, w2)
           | Some (Inr _, w2) \<Rightarrow> Some (r, w2)))"

lemma finallyE_Some:
  assumes "finallyE m cleanup w = Some (r, w')"
  obtains q w1 p where "m w = Some (q, w1)" "cleanup w1 = Some (p, w')" "p = Inr () \<Longrightarrow> r = q"
    "\<And>e. p = Inl e \<Longrightarrow> r = Inl e"
proof -
  obtain q w1 where m: "m w = Some (q, w1)"
    using assms by (auto simp: finallyE_def split: option.splits)
  with assms obtain p where "cleanup w1 = Some (p, w')" "p = Inr () \<longrightarrow> r = q" "\<forall>e. p = Inl e \<longrightarrow> r = Inl e"
    by (auto simp: finallyE_def split: option.splits sum.splits)
  with m show thesis
    using that by blast
qed

subsection \<open>What is printed\<close>

definition float_text :: "(pyfloat \<Rightarrow> str) \<Rightarrow> pyfloat \<Rightarrow> str" where
  "float_text repr_float x =
     (case x of Nan \<Rightarrow> S ''nan'' | PInf \<Rightarrow> S ''inf'' | NInf \<Rightarrow> S ''-inf'' | _ \<Rightarrow> repr_float x)"

text \<open>An outcome in an f-string: the \<^verbatim>\<open>repr\<close> the dataclass generates.\<close>

fun outcome_repr :: "(pyfloat \<Rightarrow> str) \<Rightarrow> outcome \<Rightarrow> str" where
  "outcome_repr repr_float Success = S ''Success()''"
| "outcome_repr repr_float (PartialSuccess n m) =
     S ''PartialSuccess(rejected='' @ dec_int n @ S '', message='' @ repr_str m @ S '')''"
| "outcome_repr repr_float (Retryable st m d) =
     S ''Retryable(status='' @ status_text st @ S '', message='' @ repr_str m @ S '', retry_after='' @
       (case d of None \<Rightarrow> S ''None'' | Some x \<Rightarrow> float_text repr_float x) @ S '')''"
| "outcome_repr repr_float (Permanent st m) =
     S ''Permanent(status='' @ status_text st @ S '', message='' @ repr_str m @ S '')''"

subsection \<open>The program\<close>

record 'w example_env =
  ex_time_ns :: "'w \<Rightarrow> int \<times> 'w"
  ex_open_session :: "('w, unit) io"
  ex_close_session :: "('w, unit) io"
  ex_print :: "str \<Rightarrow> ('w, unit) io"
  ex_jitter :: "'w \<Rightarrow> pyfloat \<times> 'w"
  ex_repr_float :: "pyfloat \<Rightarrow> str"

definition RESOURCE :: resource where
  "RESOURCE = \<lparr>res_attributes = [(S ''service.name'', VStr (S ''asyncio-otlp-client-example''))],
     res_dropped = 0\<rparr>"

definition example_trace_id :: bytes where
  "example_trace_id = [1, 2, 3, 4, 5, 6, 7, 8, 9, 10, 11, 12, 13, 14, 15, 16]"

definition example_span_id :: bytes where
  "example_span_id = [17, 18, 19, 20, 21, 22, 23, 24]"

text \<open>\<^verbatim>\<open>dataclasses.replace\<close> builds the configuration again, with its checks.\<close>

definition example_config :: "env \<Rightarrow> config res" where
  "example_config src = bindR (from_env src) (\<lambda>c. post_init (c\<lparr>cfg_resource := Some RESOURCE\<rparr>))"

definition example_metrics :: "int \<Rightarrow> metric list" where
  "example_metrics now =
     [gauge_of (S ''example.temperature'') (NFloat (Fin (43 / 2))) now (S ''Cel'') [] None]"

definition example_logs :: "int \<Rightarrow> log_record list" where
  "example_logs now =
     [log_record_of (VStr (S ''hello from asyncio-otlp-client'')) now None SN_INFO None None None None []]"

definition example_spans :: "int \<Rightarrow> span list" where
  "example_spans now =
     [span_of (S ''example-span'') example_trace_id example_span_id now (now + 1000000) SK_UNSPECIFIED None
        [] 0 None [] [] SC_UNSET []]"

text \<open>The body of the \<^verbatim>\<open>try\<close>: an export and its line, three times.\<close>

definition example_exports :: "'w example_env \<Rightarrow> 'w client \<Rightarrow> int \<Rightarrow> ('w, unit) io" where
  "example_exports ex cl now =
     bindE (export_metrics (ex_jitter ex) cl (example_metrics now) None None) (\<lambda>metrics_outcome.
     bindE (ex_print ex (S ''metrics: '' @ outcome_repr (ex_repr_float ex) metrics_outcome)) (\<lambda>_.
     bindE (export_logs (ex_jitter ex) cl (example_logs now) None None) (\<lambda>logs_outcome.
     bindE (ex_print ex (S ''logs:    '' @ outcome_repr (ex_repr_float ex) logs_outcome)) (\<lambda>_.
     bindE (export_traces (ex_jitter ex) cl (example_spans now) None None) (\<lambda>traces_outcome.
     ex_print ex (S ''traces:  '' @ outcome_repr (ex_repr_float ex) traces_outcome))))))"

definition is_export_failure :: "exn \<Rightarrow> bool" where
  "is_export_failure e =
     (case e of OTLPTransportError _ \<Rightarrow> True | OTLPPermanentError _ \<Rightarrow> True | _ \<Rightarrow> False)"

definition report_failure :: "'w example_env \<Rightarrow> config \<Rightarrow> exn \<Rightarrow> ('w, unit) io" where
  "report_failure ex c e =
     (if is_export_failure e
      then ex_print ex (S ''export failed against '' @ cfg_endpoint c @ S '': '' @ exn_str e)
      else raiseE e)"

definition example_client ::
  "'w installation \<Rightarrow> 'w example_env \<Rightarrow> config \<Rightarrow> int \<Rightarrow> ('w, unit) io" where
  "example_client ins ex c now =
     bindE (liftR (client_create ins c ClientSession None None)) (\<lambda>cl.
       finallyE (catchE (example_exports ex cl now) (report_failure ex c)) (client_aclose cl))"

definition example_main ::
  "'w installation \<Rightarrow> 'w example_env \<Rightarrow> env \<Rightarrow> ('w, unit) io" where
  "example_main ins ex src =
     bindE (liftR (example_config src)) (\<lambda>c w.
       let (now, w1) = ex_time_ns ex w
       in bindE (ex_open_session ex) (\<lambda>_.
            finallyE (example_client ins ex c now) (ex_close_session ex)) w1)"

subsection \<open>Every path releases what it took\<close>

text \<open>The three exports returned, in the order of the program, each with a delivered outcome.\<close>

definition all_delivered :: "'w example_env \<Rightarrow> 'w client \<Rightarrow> int \<Rightarrow> bool" where
  "all_delivered ex cl now \<longleftrightarrow>
     (\<exists>m l t v v1 v2 v3 v4 v5.
        export_metrics (ex_jitter ex) cl (example_metrics now) None None v = Some (Inr m, v1) \<and> is_delivered m \<and>
        ex_print ex (S ''metrics: '' @ outcome_repr (ex_repr_float ex) m) v1 = Some (Inr (), v2) \<and>
        export_logs (ex_jitter ex) cl (example_logs now) None None v2 = Some (Inr l, v3) \<and> is_delivered l \<and>
        ex_print ex (S ''logs:    '' @ outcome_repr (ex_repr_float ex) l) v3 = Some (Inr (), v4) \<and>
        export_traces (ex_jitter ex) cl (example_spans now) None None v4 = Some (Inr t, v5) \<and> is_delivered t)"

lemma example_export_delivered:
  "export_metrics j cl (example_metrics now) r s w = Some (Inr out, w') \<Longrightarrow> is_delivered out"
  "export_logs j cl (example_logs now) r s w = Some (Inr out, w') \<Longrightarrow> is_delivered out"
  "export_traces j cl (example_spans now) r s w = Some (Inr out, w') \<Longrightarrow> is_delivered out"
  by (auto simp: export_metrics_def export_logs_def export_traces_def example_metrics_def example_logs_def
      example_spans_def export_resource_metrics_def export_resource_logs_def export_resource_spans_def
      dest: export_delivered)

lemma example_exports_return:
  assumes "example_exports ex cl now w = Some (Inr (), w')"
  shows "all_delivered ex cl now"
proof -
  obtain m l t v1 v2 v3 v4 v5
    where "export_metrics (ex_jitter ex) cl (example_metrics now) None None w = Some (Inr m, v1)"
      "ex_print ex (S ''metrics: '' @ outcome_repr (ex_repr_float ex) m) v1 = Some (Inr (), v2)"
      "export_logs (ex_jitter ex) cl (example_logs now) None None v2 = Some (Inr l, v3)"
      "ex_print ex (S ''logs:    '' @ outcome_repr (ex_repr_float ex) l) v3 = Some (Inr (), v4)"
      "export_traces (ex_jitter ex) cl (example_spans now) None None v4 = Some (Inr t, v5)"
    using assms by (auto simp: example_exports_def bindE_Some_iff)
  then show ?thesis
    unfolding all_delivered_def using example_export_delivered by metis
qed

text \<open>What the \<^verbatim>\<open>try ... except\<close> comes to.\<close>

definition handled :: "'w example_env \<Rightarrow> config \<Rightarrow> 'w client \<Rightarrow> int \<Rightarrow> unit res \<Rightarrow> bool" where
  "handled ex c cl now r \<longleftrightarrow>
     (case r of
        Inr _ \<Rightarrow> all_delivered ex cl now \<or>
          (\<exists>e v v'. is_export_failure e \<and>
             ex_print ex (S ''export failed against '' @ cfg_endpoint c @ S '': '' @ exn_str e) v = Some (Inr (), v'))
      | Inl e \<Rightarrow> \<not> is_export_failure e \<or> (\<exists>s v v'. ex_print ex s v = Some (Inl e, v')))"

lemma exports_handled:
  assumes "catchE (example_exports ex cl now) (report_failure ex c) w = Some (r, w')"
  shows "handled ex c cl now r"
  using assms unfolding catchE_Some_iff
  by (auto simp: handled_def report_failure_def dest: example_exports_return split: if_splits sum.split)

lemma example_main_cases:
  assumes "example_main ins ex src w = Some (r, w')"
  obtains (misconfigured) e where "example_config src = Inl e" "r = Inl e" "w' = w"
  | (no_session) e v where "ex_open_session ex v = Some (Inl e, w')" "r = Inl e"
  | (ran) c q v v' p now where "example_config src = Inr c"
      "example_client ins ex c now v = Some (q, v')" "ex_close_session ex v' = Some (p, w')"
      "p = Inr () \<Longrightarrow> r = q" "\<And>e. p = Inl e \<Longrightarrow> r = Inl e"
proof -
  consider e where "example_config src = Inl e" "r = Inl e" "w' = w"
    | c where "example_config src = Inr c"
        "(let (now, w1) = ex_time_ns ex w in bindE (ex_open_session ex) (\<lambda>_.
          finallyE (example_client ins ex c now) (ex_close_session ex)) w1) = Some (r, w')"
    using assms by (auto simp: example_main_def bindE_Some_iff)
  then show thesis
  proof cases
    case 1
    then show thesis by (rule misconfigured)
  next
    case (2 c)
    obtain now w1 where "ex_time_ns ex w = (now, w1)" by fastforce
    with 2(2) consider e where "ex_open_session ex w1 = Some (Inl e, w')" "r = Inl e"
      | w2 where "finallyE (example_client ins ex c now) (ex_close_session ex) w2 = Some (r, w')"
      by (auto simp: bindE_Some_iff)
    then show thesis
    proof cases
      case 1
      then show thesis by (rule no_session)
    next
      case inner: 2
      show thesis
        by (rule finallyE_Some [OF inner]) (rule ran [OF 2(1)])
    qed
  qed
qed

lemma example_config_error:
  assumes "example_config src = Inl e"
  shows "\<exists>m. e = OTLPConfigError m"
proof -
  have "config_error_or (\<lambda>_. True) (example_config src)"
    unfolding example_config_def
  proof (rule config_error_or_bind)
    show "\<exists>m. e = OTLPConfigError m" if "from_env src = Inl e" for e
      using from_env_validated [of src] that by (simp add: config_error_or_def)
    show "config_error_or (\<lambda>_. True) (post_init (c\<lparr>cfg_resource := Some RESOURCE\<rparr>))" for c
      using config_error_or_post_init [of "c\<lparr>cfg_resource := Some RESOURCE\<rparr>"]
      by (auto simp: config_error_or_def split: sum.splits)
  qed
  with assms show ?thesis
    by (simp add: config_error_or_def)
qed

lemma example_client_cases:
  assumes "example_client ins ex c now w = Some (q, w')"
  shows "case client_create ins c ClientSession None None of
      Inl e \<Rightarrow> q = Inl e
    | Inr cl \<Rightarrow> \<exists>v p. client_aclose cl v = Some (p, w') \<and> (p = Inr () \<longrightarrow> handled ex c cl now q)"
proof (cases "client_create ins c ClientSession None None")
  case (Inl e)
  with assms show ?thesis
    by (simp add: example_client_def bindE_def)
next
  case (Inr cl)
  then have "finallyE (catchE (example_exports ex cl now) (report_failure ex c)) (client_aclose cl) w = Some (q, w')"
    using assms by (simp add: example_client_def bindE_def)
  then obtain q' w1 p where *: "catchE (example_exports ex cl now) (report_failure ex c) w = Some (q', w1)"
      "client_aclose cl w1 = Some (p, w')" "p = Inr () \<Longrightarrow> q = q'"
    by (rule finallyE_Some) blast
  then show ?thesis
    using Inr exports_handled [OF *(1)] by auto
qed

text \<open>
  C40. The example application releases what it took and handles the failures it names, on every path:
  when it comes back, either the environment was refused, with \<^verbatim>\<open>OTLPConfigError\<close> and before anything
  else happened, or the session could not be opened, or closing the session was the last thing it
  did, with the client closed just before if there was one. If both closed, then it comes back
  without an exception only after its three exports were delivered or the failure of one was
  printed, and no \<^verbatim>\<open>OTLPTransportError\<close> or \<^verbatim>\<open>OTLPPermanentError\<close> of an export escapes it.
\<close>

theorem example_releases:
  assumes "example_main ins ex src w = Some (r, w')"
  shows "(\<exists>m. example_config src = Inl (OTLPConfigError m) \<and> r = Inl (OTLPConfigError m) \<and> w' = w) \<or>
    (\<exists>e v. ex_open_session ex v = Some (Inl e, w') \<and> r = Inl e) \<or>
    (\<exists>c now v p. example_config src = Inr c \<and> ex_close_session ex v = Some (p, w') \<and>
      (case client_create ins c ClientSession None None of
         Inl e \<Rightarrow> p = Inr () \<longrightarrow> r = Inl e
       | Inr cl \<Rightarrow> \<exists>u q. client_aclose cl u = Some (q, v) \<and> (q = Inr () \<and> p = Inr () \<longrightarrow>
           (case r of
              Inr _ \<Rightarrow> all_delivered ex cl now \<or>
                (\<exists>e x x'. is_export_failure e \<and>
                  ex_print ex (S ''export failed against '' @ cfg_endpoint c @ S '': '' @ exn_str e) x =
                    Some (Inr (), x'))
            | Inl e \<Rightarrow> \<not> is_export_failure e \<or> (\<exists>s x x'. ex_print ex s x = Some (Inl e, x'))))))"
  using assms
proof (cases rule: example_main_cases)
  case (misconfigured e)
  then show ?thesis
    using example_config_error by blast
next
  case (no_session e v)
  then show ?thesis by blast
next
  case (ran c q v v' p now)
  have "case client_create ins c ClientSession None None of
      Inl e \<Rightarrow> p = Inr () \<longrightarrow> r = Inl e
    | Inr cl \<Rightarrow> \<exists>u q'. client_aclose cl u = Some (q', v') \<and>
        (q' = Inr () \<and> p = Inr () \<longrightarrow> handled ex c cl now r)"
    using example_client_cases [OF ran(2)] ran(4) by (auto split: sum.splits)
  with ran(1,3) show ?thesis
    unfolding handled_def by blast
qed

text \<open>
  A world that counts the open sessions and keeps the lines printed, and a collector that refuses
  every request.
\<close>

type_synonym desk = "int \<times> str list"

definition desk_env :: "desk example_env" where
  "desk_env =
     \<lparr>ex_time_ns = Pair 5, ex_open_session = (\<lambda>(n, ls). Some (Inr (), (n + 1, ls))),
      ex_close_session = (\<lambda>(n, ls). Some (Inr (), (n - 1, ls))),
      ex_print = (\<lambda>s (n, ls). Some (Inr (), (n, s # ls))), ex_jitter = Pair (Fin 0), ex_repr_float = (\<lambda>_. [])\<rparr>"

definition refusing_installation :: "desk installation" where
  "refusing_installation =
     \<lparr>in_protobuf = False, in_grpc = False, in_orjson = Some (\<lambda>_. Inr [1]), in_repr_float = (\<lambda>_. []),
      in_read_float = (\<lambda>_. Fin 0), in_recursion_limit = 1000, in_show = (\<lambda>_. []),
      in_serialize = (\<lambda>_. Inr []), in_from_string = (\<lambda>_ _. None),
      in_load_ca = (\<lambda>_. Inr ()), in_load_chain = (\<lambda>_ _. Inr ()), in_read_file = (\<lambda>_. Inr []),
      in_http = \<lparr>he_post = (\<lambda>_ w. Some (Inr \<lparr>hr_status = 400, hr_header = (\<lambda>_. None), hr_body = []\<rparr>, w)),
        he_gzip = id, he_gzip_thread = returnE, he_time = Pair (Fin 0),
        he_local_timestamp = (\<lambda>_. Inr (Fin 0)), he_close = returnE ()\<rparr>,
      in_channel = \<lparr>ge_call = (\<lambda>_ _. None), ge_close = returnE ()\<rparr>,
      in_sleep = (\<lambda>_. returnE ()), in_monotonic = Pair (Fin 0)\<rparr>"

definition desk_config :: config where
  "desk_config = (OTLPConfig (S ''http://localhost:4318''))\<lparr>cfg_resource := Some RESOURCE\<rparr>"

lemma desk_config_read: "example_config [] = Inr desk_config"
proof -
  have "reject_unsupported_per_signal [] = Inr ()"
    by (simp add: reject_unsupported_per_signal_def reject_names_ok unsupported_names_def
        unsupported_name_def UNSUPPORTED_PER_SIGNAL_def SIGNAL_PREFIXES_def)
  then show ?thesis
    by (simp add: example_config_def from_env_def env_get_def protocol_of_str_def parse_compression_def
        parse_bool_def signal_headers_def parse_timeout_def post_init_def OTLPConfig_def not_positive_def
        desk_config_def parse_headers_def S_eq_iff str_simps lower_def strip_def)
qed

definition desk_client :: "desk client" where
  "desk_client = projr (client_create refusing_installation desk_config ClientSession None None)"

lemmas building = client_create_def build_encoder_def client_transport_def http_create_def
  build_ssl_context_def given_def refusing_installation_def desk_config_def OTLPConfig_def

lemma desk_client_create: "client_create refusing_installation desk_config ClientSession None None = Inr desk_client"
  by (simp add: desk_client_def building)

lemma desk_client_fields:
  "cl_policy desk_client = policy_from_config desk_config" "cl_monotonic desk_client = Pair (Fin 0)"
  "cl_credentials desk_client = None" "cl_config desk_client = desk_config"
  "en_encode (cl_encoder desk_client) = json_encode (\<lambda>_. Inr [1])"
  "client_aclose desk_client w = Some (Inr (), w)"
  by (simp_all add: desk_client_def building client_init_def json_encoder_of_def module_dumps_def [abs_def]
      client_aclose_def http_transport_of_def http_aclose_def)

lemma desk_send:
  "tp_send (cl_transport desk_client) METRICS raw hs w = Some (Inr (Permanent (Some 400) []), w)"
  by (simp add: desk_client_def building client_init_def http_transport_of_def endpoint_for_def http_send_def
      compression_for_def http_exchange_def catchE_def bindE_def classify_response_def RETRYABLE_STATUSES_def
      error_message_def)

lemma desk_metrics_encoded:
  "en_encode (cl_encoder desk_client) METRICS (MetricsData
     [\<lparr>rm_resource = client_resource desk_client,
       rm_scope_metrics = [\<lparr>sm_scope = cl_scope desk_client, sm_metrics = example_metrics 5\<rparr>]\<rparr>]) = Inr [1]"
proof -
  have "cl_scope desk_client = DEFAULT_SCOPE"
    by (simp add: desk_client_def building client_init_def)
  moreover have "returns (json_document METRICS (MetricsData
     [\<lparr>rm_resource = RESOURCE,
       rm_scope_metrics = [\<lparr>sm_scope = DEFAULT_SCOPE, sm_metrics = example_metrics 5\<rparr>]\<rparr>]))"
    by (simp add: json_document_def metrics_document_def encode_envelope_defs returns_bindR_const returns_simps
        RESOURCE_def DEFAULT_SCOPE_def example_metrics_def gauge_of_def or_empty_dict_def number_point_ok_def supported_attributes_def)
  ultimately show ?thesis
    by (auto simp: desk_client_fields client_resource_def desk_config_def json_encode_def returns_def)
qed

lemma desk_export:
  "\<exists>m. export_metrics (Pair (Fin 0)) desk_client (example_metrics 5) None None w =
     Some (Inl (OTLPPermanentError m), w)"
proof -
  have attempt: "attempt desk_client METRICS [1] (w, False) =
      Some (Inr (Permanent (Some 400) []), (w, False))"
    by (simp add: attempt_def resolve_def catchE_def client_headers_def bindE_def Let_def desk_client_fields desk_send)
  have "with_retry (export_env (Pair (Fin 0)) desk_client METRICS [1]) (cl_policy desk_client) (w, False) =
      Some (Inr (Permanent (Some 400) []), (w, False))"
    by (simp add: with_retry_def retry_loop.simps retry_turn_def attempt export_env_def desk_client_fields)
  then show ?thesis
    using desk_metrics_encoded
    by (simp add: export_metrics_def export_resource_metrics_def export_def example_metrics_def or_else_def
        export_result_def status_text_def)
qed

lemma desk_env_simps:
  "ex_time_ns desk_env w = (5, w)" "ex_open_session desk_env (n, ls) = Some (Inr (), (n + 1, ls))"
  "ex_close_session desk_env (n, ls) = Some (Inr (), (n - 1, ls))"
  "ex_print desk_env t (n, ls) = Some (Inr (), (n, t # ls))" "ex_jitter desk_env = Pair (Fin 0)"
  by (simp_all add: desk_env_def)

lemma desk_run:
  "\<exists>line. example_main refusing_installation desk_env [] (0, []) = Some (Inr (), (0, [line]))"
proof -
  obtain m where "export_metrics (Pair (Fin 0)) desk_client (example_metrics 5) None None (1, []) =
      Some (Inl (OTLPPermanentError m), (1, []))"
    using desk_export by blast
  then show ?thesis
    by (simp add: example_main_def desk_config_read example_client_def desk_client_create example_exports_def
        bindE_def finallyE_def catchE_def report_failure_def is_export_failure_def desk_client_fields desk_env_simps)
qed

lemma example_releases_witness:
  "\<exists>line v p. example_main refusing_installation desk_env [] (0, []) = Some (Inr (), (0, [line])) \<and>
     client_aclose desk_client v = Some (p, (1, [line])) \<and>
     ex_close_session desk_env (1, [line]) = Some (Inr (), (0, [line]))"
proof -
  obtain line where run: "example_main refusing_installation desk_env [] (0, []) = Some (Inr (), (0, [line]))"
    using desk_run by blast
  show ?thesis
    using example_releases [OF run] run
    by (auto simp: desk_config_read desk_client_create desk_env_def)
qed

end
