(* ===== verification/Spec2Isabelle.thy ===== *)
theory Spec2Isabelle
  imports Agreement OAuthTasks TokenErrors ProcessorTasks BasicUsage
begin

text \<open>
  A model of asyncio-otlp-client (\<^verbatim>\<open>src/src/otlp_client\<close>), a Python client that exports OpenTelemetry
  metrics, logs and traces over OTLP, with the theorems that make it correct.

  \<^bold>\<open>The program and its theories.\<close> An application hands records to a \<^verbatim>\<open>BatchProcessor\<close>
  (\<^verbatim>\<open>processor.py\<close>), or to an \<^verbatim>\<open>OTLPClient\<close> (\<^verbatim>\<open>client.py\<close>) directly. The client wraps them in envelopes
  (\<^verbatim>\<open>model/\<close>), encodes them (\<^verbatim>\<open>encoding/\<close>), asks a credential provider (\<^verbatim>\<open>credentials.py\<close>) for headers
  and hands bytes to a transport (\<^verbatim>\<open>transport/\<close>), inside the retry loop (\<^verbatim>\<open>retry.py\<close>); what an attempt
  comes to is one of four outcomes (\<^verbatim>\<open>outcomes.py\<close>).

  \<^item> \<open>Prelude\<close>: strings as code points, exceptions (\<^verbatim>\<open>errors.py\<close> and the built-in ones), results that
    may raise, awaited calls over an abstract world, dictionaries. \<open>PyFloat\<close>, \<open>PyText\<close>, \<open>Utf8\<close>,
    \<open>Parsing\<close>: what the code uses of Python's floats, text, codecs, numeral grammars and URLs.
  \<^item> \<open>Signals\<close>: \<^verbatim>\<open>signals.py\<close>, \<^verbatim>\<open>outcomes.py\<close>. \<open>Model\<close>: \<^verbatim>\<open>model/common.py\<close>, \<^verbatim>\<open>logs.py\<close>, \<^verbatim>\<open>metrics.py\<close>,
    \<^verbatim>\<open>traces.py\<close>, a record or datatype per dataclass and the builders.
  \<^item> \<open>Json\<close>: \<^verbatim>\<open>encoding/primitives.py\<close>. \<open>JsonEncoder\<close>: \<^verbatim>\<open>encoding/json.py\<close>, to the document that is
    printed. \<open>JsonText\<close>: its \<^verbatim>\<open>_dumps\<close> where \<^verbatim>\<open>orjson\<close> is absent, and \<^verbatim>\<open>json.loads\<close> on bytes, for requests
    and responses; \<open>JsonRoundtrip\<close>: the reader on what the writer wrote; \<open>JsonCodec\<close>: the reader on any
    bytes, and the two together with \<^verbatim>\<open>JSONEncoder\<close>.
  \<^item> \<open>ProtoEncoder\<close>: \<^verbatim>\<open>encoding/protobuf.py\<close>, to a tree of message constructor calls.
    \<open>Agreement\<close>: both describe the same request, under the protobuf JSON mapping.
  \<^item> \<open>Config\<close>: \<^verbatim>\<open>config.py\<close>, the record, its validation, \<^verbatim>\<open>from_env\<close> and the per-signal settings.
  \<^item> \<open>Retry\<close>: \<^verbatim>\<open>retry.py\<close>; \<open>retry_turn\<close> is the body of the loop up to its sleep. \<open>HttpDate\<close>: the standard
    library's parser of dates, on which \<^verbatim>\<open>parse_retry_after\<close> relies, and the calendar behind it.
  \<^item> \<open>Credentials\<close>: \<^verbatim>\<open>credentials.py\<close>; the state of the OAuth2 provider is \<open>oauth_state\<close>.
    \<open>OAuthTasks\<close>: the same provider shared by tasks, with its lock, as the step relation \<open>oauth_step\<close>,
    of which the sequential calls of \<open>Credentials\<close> are one schedule. \<open>TokenErrors\<close>: what a refresh raises,
    with the \<^verbatim>\<open>json.loads\<close> of \<open>JsonText\<close>.
  \<^item> \<open>HttpTransport\<close>: \<^verbatim>\<open>transport/http.py\<close> and the interfaces of \<^verbatim>\<open>transport/base.py\<close> and
    \<^verbatim>\<open>encoding/base.py\<close>. \<open>GrpcTransport\<close>: \<^verbatim>\<open>transport/grpc.py\<close>.
  \<^item> \<open>Client\<close>: \<^verbatim>\<open>client.py\<close>; \<open>attempt\<close> and \<open>resolve\<close> are the two nested functions of \<^verbatim>\<open>_export\<close>, and the
    variable they share is a boolean beside the world.
  \<^item> \<open>Processor\<close>: \<^verbatim>\<open>processor.py\<close>; \<open>submit\<close>, \<open>settle\<close> (the handlers of \<^verbatim>\<open>flush\<close>), \<open>flush_kinds\<close> (a flush
    that holds the lock), \<open>run_turn\<close> (one round of \<^verbatim>\<open>_run\<close>) and \<open>processor_aexit\<close>; then the lock, the
    flushes and the other tasks as the step relation \<open>system_step\<close>. \<open>ProcessorTasks\<close>: the background task
    with its program counter among them, as \<open>task_step\<close>, of which \<open>run_turn\<close> is a run.
  \<^item> \<open>BasicUsage\<close>: \<^verbatim>\<open>src/examples/basic_usage.py\<close>, the example application, with its clean-up on every path.
  \<^item> this theory: the properties that span components.

  \<^bold>\<open>Interfaces.\<close> \<open>otlp_encoder\<close> (what both encoders promise),
  \<open>json_codec\<close> (a printer and a parser of JSON text that agree), \<open>presence_table\<close> (which
  fields the protobuf messages track presence of), \<open>credential_provider\<close>, \<open>otlp_transport\<close>,
  \<open>bounded_queue\<close> and \<open>export_session\<close> (a client whose collaborators keep those contracts).
  Each is interpreted on the definitions that model the code's implementations of it.

  \<^bold>\<open>What the lemmas show.\<close> Encoders: equality of the two request descriptions, exact conditions
  for raising, round trips, down to the bytes for JSON, and what any response body decodes to. Configuration:
  \<^verbatim>\<open>from_env\<close> is validated or raises, which variable wins, endpoints. Retry: what the loop
  returns, when it sleeps and for how long, that it ends; which delay a \<^verbatim>\<open>Retry-After\<close> asks for, in each
  form of HTTP date. Credentials: which token a header carries, for how long it
  is reused, that a burst of calls mints once, and every exception of a refresh. Together: a client that \<^verbatim>\<open>create\<close> built
  delivers, to the right endpoint, bytes from which the collector reads exactly the data. Transports: one request per
  send, the classification of answers, where an exception of \<^verbatim>\<open>send\<close> comes from, transport security. Client: what an export returns and raises, one
  re-authentication at most, that it ends. Processor: no record lost or counted twice under any interleaving, bounded
  queues, no wake-up lost, the flush and the turn of the loop as runs of the systems of steps, shutdown.

  \<^bold>\<open>Parameters.\<close> The HTTP session, gzip, the gRPC channel, certificate and file reading, clocks,
  sleep and jitter, \<^verbatim>\<open>orjson\<close>, how the interpreter prints and reads a finite float and how
  deep it reads nested JSON, the protobuf wire format and the local time of a date that names no zone are arguments of
  the definitions that use them. An awaited call is a function on an abstract world that returns, raises or never comes back
  (\<open>None\<close>).

  \<^bold>\<open>Bounds.\<close> The retry loop and the background loop are unbounded, so they are partial functions
  whose value is \<open>None\<close> when they do not return; that they return is a theorem of its own
  (\<open>with_retry_terminates\<close>, \<open>export_terminates\<close>), under the hypothesis that a request takes
  at least some time. The loop of the JSON reader over the items of a container is bounded by the characters left;
  \<open>scan_loop_unfold\<close> is its equation without the bound. The delay of a \<^verbatim>\<open>Retry-After\<close> date is stated up
  to the year 9999, the last that \<^verbatim>\<open>datetime\<close> has, for a clock within \<open>2 ^ 52\<close> seconds of 1970. The depth of the reader is the interpreter's
  recursion limit, not a bound of the model: past it \<^verbatim>\<open>json.loads\<close> raises.

  \<^bold>\<open>Not modelled.\<close> Rounding and underflow of floats (finite values are exact rationals, overflow
  is modelled). Case folding and digits outside ASCII, the IPv6 and NFKC checks of URL parsing. The texts of
  messages the standard library composes, where the code passes them on. A \<^verbatim>\<open>RecursionError\<close>
  while encoding, or while printing, data nested that deep. The wording of JSON parse errors, which nothing shows. The
  package's \<^verbatim>\<open>__init__\<close> files, which only re-export.
\<close>

section \<open>Properties that span components\<close>

subsection \<open>From an export to the collector\<close>

lemma http_compress_body:
  "http_compress t env payload w = Some (Inr body, w') \<Longrightarrow>
    body = he_gzip env payload \<or> he_gzip_thread env payload w = Some (Inr body, w')"
  by (auto simp: http_compress_def split: if_splits)

lemma classify_delivered:
  "classify_response t env kind resp w = Some (Inr out, w') \<Longrightarrow> is_delivered out \<Longrightarrow>
    200 \<le> hr_status resp \<and> hr_status resp < 300"
  by (auto simp: classify_response_def Let_def bindR_Inr_iff split: if_splits prod.splits)

lemma http_exchange_delivered:
  assumes "http_exchange t env kind body hs w = Some (Inr out, w')" and "is_delivered out"
  shows "\<exists>url resp v'. endpoint_for (ht_config t) kind = Inr url \<and>
    he_post env \<lparr>rq_url = url, rq_body = body, rq_headers = hs,
      rq_timeout = timeout_for (ht_config t) kind, rq_ssl = ht_ssl t\<rparr> w = Some (Inr resp, v') \<and>
    200 \<le> hr_status resp \<and> hr_status resp < 300"
  using assms unfolding http_exchange_def catchE_Some_iff bindE_Some_iff
  by (auto dest!: connection_failure_delay dest: classify_delivered)

lemma accepted_by_server:
  assumes "cl_transport cl = http_transport_of t env" and "ht_encoder t = cl_encoder cl"
    and "\<not> envelope_empty data" and "export jitter cl kind data w = Some (Inr r, w')"
    and "\<forall>b v b' v'. he_gzip_thread env b v = Some (Inr b', v') \<longrightarrow> b' = he_gzip env b"
  shows "\<exists>payload rq resp v v'. en_encode (cl_encoder cl) kind data = Inr payload \<and>
    he_post env rq v = Some (Inr resp, v') \<and> 200 \<le> hr_status resp \<and> hr_status resp < 300 \<and>
    endpoint_for (ht_config t) kind = Inr (rq_url rq) \<and>
    rq_body rq = (if compression_for (ht_config t) kind = GZIP then he_gzip env payload else payload) \<and>
    map_of (rq_headers rq) (S ''Content-Type'') = Some (en_content_type (cl_encoder cl))"
proof -
  obtain payload where payload: "en_encode (cl_encoder cl) kind data = Inr payload"
    and sent: "client_sends cl kind payload (Inr r)" and delivered: "is_delivered r"
    using export_delivered [OF assms(4,3)] by blast
  obtain hs v v' where send: "http_send t env kind payload hs v = Some (Inr r, v')"
    using sent assms(1) by (auto simp: client_sends_def http_transport_of_def)
  show ?thesis
  proof (cases "compression_for (ht_config t) kind = GZIP")
    case True
    then obtain body u where body: "http_compress t env payload v = Some (Inr body, u)"
      and post: "http_exchange t env kind body
        (dict_set (S ''Content-Encoding'') (S ''gzip'') (request_headers t hs)) u = Some (Inr r, v')"
      using send by (auto simp: http_send_def bindE_Some_iff)
    have "body = he_gzip env payload"
      using http_compress_body [OF body] assms(5) by blast
    obtain url resp v' where *: "endpoint_for (ht_config t) kind = Inr url"
      "he_post env \<lparr>rq_url = url, rq_body = body,
        rq_headers = dict_set (S ''Content-Encoding'') (S ''gzip'') (request_headers t hs),
        rq_timeout = timeout_for (ht_config t) kind, rq_ssl = ht_ssl t\<rparr> u = Some (Inr resp, v')"
      "200 \<le> hr_status resp" "hr_status resp < 300"
      using http_exchange_delivered [OF post delivered] by blast
    show ?thesis
      by (rule exI [of _ payload], rule exI, rule exI, rule exI, rule exI, intro conjI, rule payload,
          rule *(2), rule *(3), rule *(4))
        (use * True assms(2) \<open>body = he_gzip env payload\<close> in \<open>simp_all add: map_of_dict_set request_headers_get\<close>)
  next
    case False
    then have post: "http_exchange t env kind payload (request_headers t hs) v = Some (Inr r, v')"
      using send by (simp add: http_send_def)
    obtain url resp v'' where *: "endpoint_for (ht_config t) kind = Inr url"
      "he_post env \<lparr>rq_url = url, rq_body = payload, rq_headers = request_headers t hs,
        rq_timeout = timeout_for (ht_config t) kind, rq_ssl = ht_ssl t\<rparr> v = Some (Inr resp, v'')"
      "200 \<le> hr_status resp" "hr_status resp < 300"
      using http_exchange_delivered [OF post delivered] by blast
    show ?thesis
      by (rule exI [of _ payload], rule exI, rule exI, rule exI, rule exI, intro conjI, rule payload,
          rule *(2), rule *(3), rule *(4))
        (use * False assms(2) in \<open>simp_all add: request_headers_get\<close>)
  qed
qed

text \<open>
  C6. What a returned export means at the far end: with the HTTP transport, an export of anything
  that returns has had a request accepted. The server answered with a 2xx status a POST to the
  signal's endpoint whose body is the encoding of exactly the data given (gzipped when the
  signal asks for it) and whose content type is the encoder's.
\<close>

theorem export_accepted_by_server:
  assumes "cl_transport cl = http_transport_of t env" and "ht_encoder t = cl_encoder cl"
    and "\<not> envelope_empty data" and "export jitter cl kind data w = Some (Inr r, w')"
    and "\<forall>b v b' v'. he_gzip_thread env b v = Some (Inr b', v') \<longrightarrow> b' = he_gzip env b"
  shows "\<exists>payload rq resp v v'. en_encode (cl_encoder cl) kind data = Inr payload \<and>
    he_post env rq v = Some (Inr resp, v') \<and> 200 \<le> hr_status resp \<and> hr_status resp < 300 \<and>
    endpoint_for (ht_config t) kind = Inr (rq_url rq) \<and>
    rq_body rq = (if compression_for (ht_config t) kind = GZIP then he_gzip env payload else payload) \<and>
    map_of (rq_headers rq) (S ''Content-Type'') = Some (en_content_type (cl_encoder cl))"
  using assms by (rule accepted_by_server)

definition accepting_server :: "http_request list http_env" where
  "accepting_server = recording_server \<lparr>hr_status = 200, hr_header = (\<lambda>_. None), hr_body = []\<rparr>"

definition http_client :: "http_request list client" where
  "http_client = client_init (ht_config sample_http) (http_transport_of sample_http accepting_server)
     (ht_encoder sample_http) None None (Some default_policy) (\<lambda>_. returnE ()) (Pair (Fin 0))"

lemma http_client_export:
  "\<exists>past. export (Pair (Fin 0)) http_client LOGS sample_payload [] = Some (Inr Success, past)"
proof -
  have send: "\<exists>past. http_send sample_http accepting_server LOGS [1] hs [] = Some (Inr Success, past)" for hs
    using sample_endpoint
    by (simp add: http_send_def compression_for_def sample_http_def OTLPConfig_def http_exchange_def
        catchE_def bindE_def accepting_server_def recording_server_def classify_response_def
        outcome_of_response_def json_encoder_of_def json_decode_response_def)
  have fields: "cl_policy http_client = default_policy" "cl_monotonic http_client = Pair (Fin 0)"
      "cl_credentials http_client = None" "cl_transport http_client = http_transport_of sample_http accepting_server"
      "cl_encoder http_client = ht_encoder sample_http"
    by (simp_all add: http_client_def client_init_def)
  obtain past where "http_send sample_http accepting_server LOGS [1]
      (headers_for (cl_config http_client) LOGS) [] = Some (Inr Success, past)"
    using send by blast
  then have attempt: "attempt http_client LOGS [1] ([], False) = Some (Inr Success, (past, False))"
    by (simp add: attempt_def resolve_def catchE_def client_headers_def bindE_def Let_def fields
        http_transport_of_def)
  have "en_encode (cl_encoder http_client) LOGS sample_payload = Inr [1]"
    using sample_payload_json by (auto simp: fields sample_http_def json_encoder_of_def json_encode_def)
  moreover have "with_retry (export_env (Pair (Fin 0)) http_client LOGS [1]) default_policy ([], False) =
      Some (Inr Success, (past, False))"
    by (simp add: with_retry_def fields retry_loop.simps retry_turn_def attempt)
  ultimately show ?thesis
    by (simp add: export_def sample_payload_def export_result_def fields)
qed

lemma export_accepted_by_server_witness:
  "\<exists>past rq resp v v'. export (Pair (Fin 0)) http_client LOGS sample_payload [] = Some (Inr Success, past) \<and>
     he_post accepting_server rq v = Some (Inr resp, v') \<and> rq_url rq = S ''http://h/v1/logs''"
proof -
  obtain past where run: "export (Pair (Fin 0)) http_client LOGS sample_payload [] = Some (Inr Success, past)"
    using http_client_export by blast
  have thread: "\<forall>b v b' v'. he_gzip_thread accepting_server b v = Some (Inr b', v') \<longrightarrow>
      b' = he_gzip accepting_server b"
    by (simp add: accepting_server_def recording_server_def)
  have client: "cl_transport http_client = http_transport_of sample_http accepting_server"
    "ht_encoder sample_http = cl_encoder http_client" "\<not> envelope_empty sample_payload"
    by (simp_all add: http_client_def client_init_def sample_payload_def)
  obtain payload rq resp v v' where "he_post accepting_server rq v = Some (Inr resp, v')"
    "endpoint_for (ht_config sample_http) LOGS = Inr (rq_url rq)"
    using export_accepted_by_server [OF client run thread] by blast
  with run sample_endpoint show ?thesis by auto
qed

text \<open>A client built on a core installation: no extras, JSON over HTTP.\<close>

lemma client_create_http_json:
  assumes "client_create ins c session scope credentials = Inr cl" and "cfg_protocol c = HTTP_JSON"
  obtains t where "cl_transport cl = http_transport_of t (in_http ins)" "ht_encoder t = cl_encoder cl"
    "ht_config t = c"
    "en_encode (cl_encoder cl) = json_encode (module_dumps (in_orjson ins) (in_repr_float ins))"
proof -
  obtain enc tr where enc: "build_encoder ins c = Inr enc" and tr: "client_transport ins c session enc = Inr tr"
    and cl: "cl = client_init c tr enc credentials scope None (in_sleep ins) (in_monotonic ins)"
    using assms(1) by (auto simp: client_create_def bindR_Inr_iff)
  obtain t where t: "http_create (in_load_ca ins) (in_load_chain ins) c enc (session = ClientSession) = Inr t"
      "tr = http_transport_of t (in_http ins)"
    using tr assms(2) by (auto simp: client_transport_def bindR_Inr_iff split: if_splits)
  then have "ht_encoder t = enc" "ht_config t = c"
    by (auto simp: http_create_def bindR_Inr_iff)
  with t(2) cl enc assms(2) show thesis
    by (intro that [of t]) (auto simp: client_init_def build_encoder_def json_encoder_of_def)
qed

text \<open>
  C5. From the application's call to the collector's parser: with a client that \<^verbatim>\<open>create\<close> built for JSON
  over HTTP where \<^verbatim>\<open>orjson\<close> is not installed, an export that returns has had a POST to the signal's
  endpoint answered with a 2xx status, and the body of that POST, gzipped when the signal asks
  for it, is a JSON text that parses to exactly the document of the data given, in which no object
  repeats a key.
\<close>

theorem collector_reads_document:
  assumes "client_create ins c session scope credentials = Inr cl" and "cfg_protocol c = HTTP_JSON"
    and "in_orjson ins = None" and "\<not> envelope_empty data"
    and "export jitter cl kind data w = Some (Inr r, w')"
    and "\<forall>b v b' v'. he_gzip_thread (in_http ins) b v = Some (Inr b', v') \<longrightarrow> b' = he_gzip (in_http ins) b"
    and "\<forall>doc. json_document kind data = Inr doc \<longrightarrow>
      every_node (value_ok (in_repr_float ins) read_float) doc \<and> nesting doc \<le> depth"
  shows "\<exists>doc raw rq resp v v'. json_document kind data = Inr doc \<and> json_wf doc \<and>
    stdlib_loads read_float depth raw = Inr doc \<and>
    he_post (in_http ins) rq v = Some (Inr resp, v') \<and> 200 \<le> hr_status resp \<and> hr_status resp < 300 \<and>
    endpoint_for c kind = Inr (rq_url rq) \<and>
    rq_body rq = (if compression_for c kind = GZIP then he_gzip (in_http ins) raw else raw)"
proof -
  obtain t where t: "cl_transport cl = http_transport_of t (in_http ins)" "ht_encoder t = cl_encoder cl"
      "ht_config t = c"
      "en_encode (cl_encoder cl) = json_encode (module_dumps (in_orjson ins) (in_repr_float ins))"
    using client_create_http_json [OF assms(1,2)] .
  obtain raw rq resp v v' where sent: "en_encode (cl_encoder cl) kind data = Inr raw"
      "he_post (in_http ins) rq v = Some (Inr resp, v')" "200 \<le> hr_status resp" "hr_status resp < 300"
      "endpoint_for (ht_config t) kind = Inr (rq_url rq)"
      "rq_body rq = (if compression_for (ht_config t) kind = GZIP then he_gzip (in_http ins) raw else raw)"
    using accepted_by_server [OF t(1,2) assms(4,5,6)] by blast
  have "json_encode (stdlib_dumps (in_repr_float ins)) kind data = Inr raw"
    using sent(1) t(4) assms(3) by (simp add: module_dumps_def [abs_def])
  then obtain doc where "json_document kind data = Inr doc" "json_wf doc" "stdlib_loads read_float depth raw = Inr doc"
    using encoded_reads_back assms(7) by blast
  with sent(2-) t(3) show ?thesis by blast
qed

definition core_installation :: "http_request list installation" where
  "core_installation =
     \<lparr>in_protobuf = False, in_grpc = False, in_orjson = None, in_repr_float = half_repr,
      in_read_float = half_read, in_recursion_limit = 1000, in_show = (\<lambda>_. []),
      in_serialize = (\<lambda>_. Inr []), in_from_string = (\<lambda>_ _. None),
      in_load_ca = (\<lambda>_. Inr ()), in_load_chain = (\<lambda>_ _. Inr ()), in_read_file = (\<lambda>_. Inr []),
      in_http = accepting_server,
      in_channel = \<lparr>ge_call = (\<lambda>_ _. None), ge_close = returnE ()\<rparr>,
      in_sleep = (\<lambda>_. returnE ()), in_monotonic = Pair (Fin 0)\<rparr>"

definition core_client :: "http_request list client" where
  "core_client = projr (client_create core_installation (OTLPConfig (S ''http://h'')) ClientSession None None)"

lemma core_client_create:
  "client_create core_installation (OTLPConfig (S ''http://h'')) ClientSession None None = Inr core_client"
  by (simp add: core_client_def client_create_def build_encoder_def client_transport_def http_create_def
      build_ssl_context_def given_def core_installation_def OTLPConfig_def)

definition sample_document :: json where
  "sample_document = JObj [(S ''resourceLogs'', JArr [JObj []])]"

lemma sample_document_json: "json_document LOGS sample_payload = Inr sample_document"
  by (simp add: sample_document_def sample_payload_def json_document_def logs_document_def
      encode_resource_logs_def encode_one_resource_logs_def encode_resource_def Resource_def int_or_none_def)

lemma sample_document_ok: "every_node (value_ok r f) sample_document \<and> nesting sample_document \<le> 3"
  by (simp add: sample_document_def str_simps is_high_def)

lemma core_client_export:
  "\<exists>past. export (Pair (Fin 0)) core_client LOGS sample_payload [] = Some (Inr Success, past)"
proof -
  obtain t where t: "cl_transport core_client = http_transport_of t accepting_server"
      "ht_encoder t = cl_encoder core_client" "ht_config t = OTLPConfig (S ''http://h'')"
      "en_encode (cl_encoder core_client) = json_encode (module_dumps None half_repr)"
    using client_create_http_json [OF core_client_create]
    by (auto simp: OTLPConfig_def core_installation_def)
  have fields: "cl_policy core_client = policy_from_config (OTLPConfig (S ''http://h''))"
      "cl_monotonic core_client = Pair (Fin 0)" "cl_credentials core_client = None"
      "cl_config core_client = OTLPConfig (S ''http://h'')"
      "en_decode (cl_encoder core_client) = json_decode_response (stdlib_loads half_read 1000) (\<lambda>_. [])"
    by (simp_all add: core_client_def client_create_def build_encoder_def client_transport_def http_create_def
        build_ssl_context_def given_def core_installation_def OTLPConfig_def client_init_def json_encoder_of_def)
  obtain raw where raw: "en_encode (cl_encoder core_client) LOGS sample_payload = Inr raw"
    using stdlib_dumps_ok [of half_repr half_read sample_document] json_document_wf [OF sample_document_json]
      sample_document_ok
    by (auto simp: t(4) json_encode_def sample_document_json module_dumps_def text_ok_values)
  have "endpoint_for (ht_config t) LOGS = Inr (S ''http://h/v1/logs'')"
    using sample_endpoint by (simp add: t(3) sample_http_def)
  then have "\<exists>past. http_send t accepting_server LOGS raw hs [] = Some (Inr Success, past)" for hs
    by (simp add: http_send_def compression_for_def t(3) OTLPConfig_def http_exchange_def
        catchE_def bindE_def accepting_server_def recording_server_def classify_response_def
        outcome_of_response_def t(2) fields(5) json_decode_response_def)
  then obtain past where "http_send t accepting_server LOGS raw
      (headers_for (cl_config core_client) LOGS) [] = Some (Inr Success, past)"
    by blast
  then have attempt: "attempt core_client LOGS raw ([], False) = Some (Inr Success, (past, False))"
    by (simp add: attempt_def resolve_def catchE_def client_headers_def bindE_def Let_def fields
        http_transport_of_def t(1))
  have "with_retry (export_env (Pair (Fin 0)) core_client LOGS raw) (cl_policy core_client) ([], False) =
      Some (Inr Success, (past, False))"
    by (simp add: with_retry_def fields retry_loop.simps retry_turn_def attempt export_env_def)
  then show ?thesis
    using raw by (simp add: export_def sample_payload_def export_result_def)
qed

lemma collector_reads_document_witness:
  "\<exists>raw rq resp v v'. stdlib_loads half_read 3 raw = Inr sample_document \<and>
     he_post accepting_server rq v = Some (Inr resp, v') \<and> rq_body rq = raw \<and>
     rq_url rq = S ''http://h/v1/logs''"
proof -
  obtain past where run: "export (Pair (Fin 0)) core_client LOGS sample_payload [] = Some (Inr Success, past)"
    using core_client_export by blast
  have facts: "cfg_protocol (OTLPConfig (S ''http://h'')) = HTTP_JSON" "in_orjson core_installation = None"
      "\<not> envelope_empty sample_payload" "in_http core_installation = accepting_server"
      "compression_for (OTLPConfig (S ''http://h'')) LOGS = NO_COMPRESSION"
    by (simp_all add: OTLPConfig_def core_installation_def sample_payload_def compression_for_def)
  have thread: "\<forall>b v b' v'. he_gzip_thread (in_http core_installation) b v = Some (Inr b', v') \<longrightarrow>
      b' = he_gzip (in_http core_installation) b"
    by (simp add: core_installation_def accepting_server_def recording_server_def)
  have doc: "\<forall>doc. json_document LOGS sample_payload = Inr doc \<longrightarrow>
      every_node (value_ok (in_repr_float core_installation) half_read) doc \<and> nesting doc \<le> 3"
    using sample_document_json sample_document_ok by simp
  have url: "endpoint_for (OTLPConfig (S ''http://h'')) LOGS = Inr (S ''http://h/v1/logs'')"
    using sample_endpoint by (simp add: sample_http_def)
  obtain raw rq resp v v' where "stdlib_loads half_read 3 raw = Inr sample_document"
      "he_post accepting_server rq v = Some (Inr resp, v')" "rq_body rq = raw"
      "endpoint_for (OTLPConfig (S ''http://h'')) LOGS = Inr (rq_url rq)"
    using collector_reads_document [OF core_client_create facts(1-3) run thread doc]
    by (auto simp: facts sample_document_json)
  moreover from this(4) url have "rq_url rq = S ''http://h/v1/logs''"
    by simp
  ultimately show ?thesis by blast
qed

subsection \<open>A rejected OAuth2 token\<close>

lemma invalidated_token:
  "oauth_invalidate kind (s, w) = Some (Inr u, (s', w')) \<Longrightarrow> os_token s' = None"
  by (auto simp: oauth_invalidate_def)

lemma minted_after_invalidate:
  assumes "os_token s = None" and "oauth_headers oc env kind (s, w) = Some (Inr h, v)"
  shows "\<exists>x token. oauth_refresh oc env (s, x) = Some (Inr (), v) \<and> os_token (fst v) = Some token \<and>
    h = [(S ''authorization'', S ''Bearer '' @ token)]"
proof -
  obtain s' w' where v: "v = (s', w')" by (cases v)
  from assms(2) [unfolded v] show ?thesis
    by (cases rule: oauth_headers_cases) (use assms(1) v in \<open>auto simp: bearer_value_def\<close>)
qed

text \<open>
  C12. A rejected token is never sent again by the export it was rejected in: with the OAuth2 provider,
  when an attempt renews its credentials after a 401 or 403, the second request of that attempt
  carries the token a refresh has just stored, one that started with no token in the cache; when
  none could be had, nothing more is sent and the outcome is retryable.
\<close>

theorem rejected_token_replaced:
  assumes "cl_credentials cl = Some (oauth_provider oc env)"
    and "attempt cl kind payload (sw, False) = Some (Inr out, (sw', True))"
  shows "(\<exists>s x v token hs. os_token s = None \<and> oauth_refresh oc env (s, x) = Some (Inr (), v) \<and>
      os_token (fst v) = Some token \<and> map_of hs (S ''authorization'') = Some (S ''Bearer '' @ token) \<and>
      tp_send (cl_transport cl) kind payload hs v = Some (Inr out, sw')) \<or>
    is_retryable out \<and> (\<exists>m v. client_headers cl kind v = Some (Inl (OTLPTransportError m), sw'))"
  using assms(2)
proof (cases rule: attempt_cases)
  case (renewed hs w1 out1 sw2 p)
  have p: "pr_headers p = oauth_headers oc env" "pr_invalidate p = oauth_invalidate"
    using renewed(4) assms(1) by (auto simp: oauth_provider_def)
  obtain u s v where inv: "pr_invalidate p kind sw2 = Some (Inr u, (s, v))"
    and again: "resolve_and_send cl kind payload (s, v) = Some (Inr out, sw')"
    using renewed(7) by (cases rule: reauthenticate_cases) auto
  have none: "os_token s = None"
    using inv p(2) by (cases sw2) (auto dest: invalidated_token)
  from again show ?thesis
  proof (cases rule: resolve_and_send_cases)
    case (sent hs' v')
    obtain h where h: "oauth_headers oc env kind (s, v) = Some (Inr h, v')"
      "hs' = dict_union (headers_for (cl_config cl) kind) h"
      using sent(1) assms(1)
      by (auto simp: client_headers_def Let_def bindE_Some_iff oauth_provider_def)
    obtain x token where new: "oauth_refresh oc env (s, x) = Some (Inr (), v')"
      "os_token (fst v') = Some token" "h = [(S ''authorization'', S ''Bearer '' @ token)]"
      using minted_after_invalidate [OF none h(1)] by blast
    have "map_of hs' (S ''authorization'') = Some (S ''Bearer '' @ token)"
      using oauth.merged_headers [OF h(1)] h(2) new(3) by simp
    with none new sent(2) show ?thesis by blast
  next
    case (transient m)
    then show ?thesis by auto
  qed simp
qed simp_all

text \<open>A collector that knows one token, and a token endpoint that mints it.\<close>

definition rotating_client :: "(oauth_state \<times> rat) client" where
  "rotating_client =
     \<lparr>cl_config = OTLPConfig (S ''http://h''),
      cl_transport = \<lparr>tp_send = (\<lambda>_ _ hs sw. Some (Inr (
          if map_of hs (S ''authorization'') = Some (S ''Bearer new'') then Success
          else Permanent (Some 401) []), sw)), tp_aclose = returnE ()\<rparr>,
      cl_encoder = json_encoder_of (\<lambda>_. Inr [1]) (\<lambda>_. Inr JNull) (\<lambda>_. []),
      cl_credentials = Some (oauth_provider sample_oauth
        (sample_token_endpoint (JObj [(S ''access_token'', JStr (S ''new''))]))),
      cl_scope = DEFAULT_SCOPE, cl_policy = default_policy,
      cl_sleep = (\<lambda>_. returnE ()), cl_monotonic = Pair (Fin 0)\<rparr>"

lemma rejected_token_replaced_witness:
  "\<exists>sw' hs v. attempt rotating_client LOGS [1] ((\<lparr>os_session = True, os_owns_session = False,
       os_token = Some (S ''old''), os_expires_at = Fin 1000\<rparr>, 10), False) = Some (Inr Success, (sw', True)) \<and>
     tp_send (cl_transport rotating_client) LOGS [1] hs v = Some (Inr Success, sw') \<and>
     map_of hs (S ''authorization'') = Some (S ''Bearer '' @ S ''new'')"
proof -
  let ?sw = "(\<lparr>os_session = True, os_owns_session = False, os_token = Some (S ''old''),
    os_expires_at = Fin 1000\<rparr>, 10 :: rat)"
  let ?env = "sample_token_endpoint (JObj [(S ''access_token'', JStr (S ''new''))])"
  have cred: "cl_credentials rotating_client = Some (oauth_provider sample_oauth ?env)"
    by (simp add: rotating_client_def)
  have "f_sub (Fin 1000) (Fin 30) = Fin 970"
    using f_sub_Fin [of 1000 30] by (simp add: less_overflow_bound)
  then have "\<exists>sw'. attempt rotating_client LOGS [1] (?sw, False) = Some (Inr Success, (sw', True))"
    by (simp add: attempt_def resolve_def catchE_def client_headers_def bindE_def Let_def rotating_client_def
        oauth_provider_def oauth_headers_def oauth_usable_def sample_token_endpoint_def sample_oauth_def
        bearer_value_def token_text_def with_flag_def reauthenticate_def resolve_and_send_def
        oauth_invalidate_def oauth_refresh_def ensure_session_def oauth_auth_header_def token_of_response_def
        dict_get_default_def parse_ttl_def headers_for_def OTLPConfig_def dict_union_def)
  then obtain sw' where run: "attempt rotating_client LOGS [1] (?sw, False) = Some (Inr Success, (sw', True))"
    by blast
  show ?thesis
    using rejected_token_replaced [OF cred run] run
    by (auto simp: rotating_client_def split: if_splits)
qed

subsection \<open>The processor over the client\<close>

lemma export_batch_returns:
  assumes "responsive jitter cl clock delta" and "rp_max_elapsed (cl_policy cl) = Fin m" and "0 < m"
  shows "returns (export_batch jitter cl resource scope kind batch)"
proof -
  have "\<exists>r w'. export jitter cl k data w = Some (r, w')" for k data w
    by (rule export_returns [OF assms])
  then have *: "export jitter cl k data w \<noteq> None" for k data w
    by (metis option.distinct(1))
  have "returns (export_metrics jitter cl xs resource scope)" "returns (export_logs jitter cl ys resource scope)"
    "returns (export_traces jitter cl zs resource scope)" for xs ys zs
    using * by (auto simp: returns_def export_metrics_def export_logs_def export_traces_def
        export_resource_metrics_def export_resource_logs_def export_resource_spans_def)
  moreover have "returns a \<Longrightarrow> returns (bindE a (\<lambda>x. returnE (report_of x)))" for a :: "('a, outcome) io"
    by (auto simp: returns_def bindE_def split: option.split sum.split)
  ultimately show ?thesis
    unfolding export_batch_def by (cases kind) simp_all
qed


definition one_metric :: "item processor" where
  "one_metric = set_queue METRICS [MetricItem (gauge_of (S ''m'') (NInt 1) 0 [] [] None)]
     (projr (processor_init 512 2048))"


end
